(* ===== verification/Go_Base.thy ===== *)
theory Go_Base
  imports Main "HOL-Library.AList" "HOL-Library.List_Lexorder" "HOL-Library.Char_ord"
    "HOL-Library.Sublist" "HOL-Library.Multiset"
begin

text \<open>
  The prelude of the development: what the Go programs under \<^verbatim>\<open>src/tools\<close> use of the language
  and its standard library on strings, maps and slices.  A Go \<^verbatim>\<open>string\<close> is a sequence of
  bytes and \<^typ>\<open>char\<close> is a byte, so a Go string is a \<^typ>\<open>string\<close> and \<^verbatim>\<open>len\<close>
  is \<^term>\<open>length\<close>.  A Go map is an association list with distinct keys; the order of
  the list is the iteration order of one \<^verbatim>\<open>range\<close> over the map, which Go leaves open: a
  theorem about every list is a theorem about every iteration order.
\<close>

named_theorems go_map \<open>equations of the map operations\<close>
named_theorems go_step \<open>what one iteration of a loop body does to the state\<close>
named_theorems go_frame \<open>the parts of the state an operation leaves alone\<close>

section \<open>Strings\<close>

text \<open>\<^verbatim>\<open>strings.HasPrefix\<close>, \<^verbatim>\<open>strings.Contains\<close>, \<^verbatim>\<open>s[:n]\<close> where \<^verbatim>\<open>len(s) > n\<close>.\<close>

definition has_prefix :: "string \<Rightarrow> string \<Rightarrow> bool" where
  "has_prefix s p \<longleftrightarrow> length p \<le> length s \<and> take (length p) s = p"

fun contains :: "string \<Rightarrow> string \<Rightarrow> bool" where
  "contains [] sub = (sub = [])"
| "contains (c # s) sub = (has_prefix (c # s) sub \<or> contains s sub)"

definition cut_to :: "nat \<Rightarrow> string \<Rightarrow> string" where
  "cut_to n s = (if length s > n then take n s else s)"

text \<open>
  Case mapping and white space.  \<^verbatim>\<open>strings.ToLower\<close> is modelled on the ASCII letters, byte by
  byte: in UTF-8 no byte of a non-ASCII rune is below 128.  \<^verbatim>\<open>unicode.IsSpace\<close> holds of the
  six ASCII blanks and of the runes whose UTF-8 encodings \<open>unicode_spaces\<close> lists, which is what
  \<^verbatim>\<open>strings.TrimSpace\<close> removes from both ends.
\<close>

definition lower_char :: "char \<Rightarrow> char" where
  "lower_char c = (if CHR ''A'' \<le> c \<and> c \<le> CHR ''Z'' then char_of (of_char c + 32 :: nat) else c)"

definition upper_char :: "char \<Rightarrow> char" where
  "upper_char c = (if CHR ''a'' \<le> c \<and> c \<le> CHR ''z'' then char_of (of_char c - 32 :: nat) else c)"

definition to_lower :: "string \<Rightarrow> string" where
  "to_lower s = map lower_char s"

definition to_upper :: "string \<Rightarrow> string" where
  "to_upper s = map upper_char s"

definition upper_first :: "string \<Rightarrow> string" where
  \<comment> \<open>\<^verbatim>\<open>strings.ToUpper(s[:1]) + s[1:]\<close>; the upper case of a byte that is no ASCII character is the
    replacement rune\<close>
  "upper_first s =
     (case s of [] \<Rightarrow> []
      | c # r \<Rightarrow> (if (of_char c :: nat) < 128 then [upper_char c] else [CHR 0xEF, CHR 0xBF, CHR 0xBD]) @ r)"

definition unicode_spaces :: "string list" where
  "unicode_spaces =
     [[CHR 0x09], [CHR 0x0A], [CHR 0x0B], [CHR 0x0C], [CHR 0x0D], [CHR 0x20],
      [CHR 0xC2, CHR 0x85], [CHR 0xC2, CHR 0xA0], [CHR 0xE1, CHR 0x9A, CHR 0x80],
      [CHR 0xE2, CHR 0x80, CHR 0x80], [CHR 0xE2, CHR 0x80, CHR 0x81],
      [CHR 0xE2, CHR 0x80, CHR 0x82], [CHR 0xE2, CHR 0x80, CHR 0x83],
      [CHR 0xE2, CHR 0x80, CHR 0x84], [CHR 0xE2, CHR 0x80, CHR 0x85],
      [CHR 0xE2, CHR 0x80, CHR 0x86], [CHR 0xE2, CHR 0x80, CHR 0x87],
      [CHR 0xE2, CHR 0x80, CHR 0x88], [CHR 0xE2, CHR 0x80, CHR 0x89],
      [CHR 0xE2, CHR 0x80, CHR 0x8A], [CHR 0xE2, CHR 0x80, CHR 0xA8],
      [CHR 0xE2, CHR 0x80, CHR 0xA9], [CHR 0xE2, CHR 0x80, CHR 0xAF],
      [CHR 0xE2, CHR 0x81, CHR 0x9F], [CHR 0xE3, CHR 0x80, CHR 0x80]]"

fun strip_spaces :: "string list \<Rightarrow> nat \<Rightarrow> string \<Rightarrow> string" where
  "strip_spaces ws 0 s = s"
| "strip_spaces ws (Suc n) s =
     (case find (has_prefix s) ws of None \<Rightarrow> s | Some w \<Rightarrow> strip_spaces ws n (drop (length w) s))"

definition trim_space :: "string \<Rightarrow> string" where
  "trim_space s =
     (let l = strip_spaces unicode_spaces (length s) s
      in rev (strip_spaces (map rev unicode_spaces) (length l) (rev l)))"

text \<open>
  \<^verbatim>\<open>strings.Split\<close> at one character, \<^verbatim>\<open>strings.Cut\<close> at one character, \<^verbatim>\<open>strings.Join\<close>,
  \<^verbatim>\<open>strings.ReplaceAll\<close> of a pattern, \<^verbatim>\<open>strings.TrimRight\<close> of one character.
\<close>

fun split_char :: "char \<Rightarrow> string \<Rightarrow> string list" where
  "split_char c [] = [[]]"
| "split_char c (x # s) =
     (if x = c then [] # split_char c s
      else (case split_char c s of [] \<Rightarrow> [[x]] | p # ps \<Rightarrow> (x # p) # ps))"

fun cut_char :: "char \<Rightarrow> string \<Rightarrow> (string \<times> string) option" where
  "cut_char c [] = None"
| "cut_char c (x # s) =
     (if x = c then Some ([], s)
      else (case cut_char c s of None \<Rightarrow> None | Some (a, b) \<Rightarrow> Some (x # a, b)))"

fun join :: "string \<Rightarrow> string list \<Rightarrow> string" where
  "join sep [] = []"
| "join sep [s] = s"
| "join sep (s # t # r) = s @ sep @ join sep (t # r)"

fun replace_all_fuel :: "nat \<Rightarrow> string \<Rightarrow> string \<Rightarrow> string \<Rightarrow> string" where
  "replace_all_fuel 0 old new s = s"
| "replace_all_fuel (Suc n) old new s =
     (case s of [] \<Rightarrow> []
      | c # r \<Rightarrow> if has_prefix s old then new @ replace_all_fuel n old new (drop (length old) s)
                 else c # replace_all_fuel n old new r)"

definition replace_all :: "string \<Rightarrow> string \<Rightarrow> string \<Rightarrow> string" where
  \<comment> \<open>for a nonempty \<open>old\<close>; every round consumes a character, so the length is enough fuel\<close>
  "replace_all s old new = replace_all_fuel (length s) old new s"

definition trim_right_char :: "char \<Rightarrow> string \<Rightarrow> string" where
  "trim_right_char c s = rev (dropWhile (\<lambda>x. x = c) (rev s))"

text \<open>Decimal numbers: \<^verbatim>\<open>%d\<close> and \<^verbatim>\<open>strconv.Atoi\<close> (64 bit).\<close>

definition digit_char :: "int \<Rightarrow> char" where
  "digit_char d = char_of (48 + d)"

definition is_digit :: "char \<Rightarrow> bool" where
  "is_digit c \<longleftrightarrow> CHR 0x30 \<le> c \<and> c \<le> CHR 0x39"

definition digit_val :: "char \<Rightarrow> int" where
  "digit_val c = of_char c - 48"

function dec_str :: "int \<Rightarrow> string" where
  "dec_str n = (if n < 10 then [digit_char n] else dec_str (n div 10) @ [digit_char (n mod 10)])"
  by pat_completeness auto
termination
  by (relation "measure nat") auto

declare dec_str.simps [simp del]

definition int_str :: "int \<Rightarrow> string" where
  "int_str i = (if i < 0 then CHR 0x2D # dec_str (- i) else dec_str i)"

definition digits_val :: "string \<Rightarrow> int" where
  "digits_val s = foldl (\<lambda>a c. 10 * a + digit_val c) 0 s"

definition atoi :: "string \<Rightarrow> int option" where
  "atoi s =
     (let neg = has_prefix s ''-'';
          ds = (if neg \<or> has_prefix s ''+'' then tl s else s);
          v = (if neg then - digits_val ds else digits_val ds)
      in if ds \<noteq> [] \<and> list_all is_digit ds \<and> - (2 ^ 63) \<le> v \<and> v < 2 ^ 63 then Some v else None)"

text \<open>The bytes of an em dash, an arrow, a middle dot and an ellipsis in UTF-8.\<close>

definition em_dash :: string where "em_dash = [CHR 0xE2, CHR 0x80, CHR 0x94]"
definition arrow_r :: string where "arrow_r = [CHR 0xE2, CHR 0x86, CHR 0x92]"
definition mid_dot :: string where "mid_dot = [CHR 0xC2, CHR 0xB7]"
definition newline :: string where "newline = [CHR 0x0A]"

lemma has_prefix_iff: "has_prefix s p \<longleftrightarrow> prefix p s"
  by (auto simp: has_prefix_def prefix_def) (metis append_take_drop_id)

lemma has_prefix_append [simp]: "has_prefix (p @ s) p"
  by (simp add: has_prefix_def)

lemma contains_sublist: "contains s sub \<longleftrightarrow> sublist sub s"
  by (induction s) (auto simp: has_prefix_iff sublist_Cons_right)

lemma length_cut_to: "length (cut_to n s) \<le> n"
  by (simp add: cut_to_def)

lemma cut_to_short [simp]: "length s \<le> n \<Longrightarrow> cut_to n s = s"
  by (simp add: cut_to_def)

lemma dec_str_nonempty [simp]: "dec_str n \<noteq> []"
  by (subst dec_str.simps) simp

lemma digit_val_char: "0 \<le> d \<Longrightarrow> d < 10 \<Longrightarrow> digit_val (digit_char d) = d"
  by (simp add: digit_val_def digit_char_def)

lemma is_digit_char: "0 \<le> d \<Longrightarrow> d < 10 \<Longrightarrow> is_digit (digit_char d)"
proof -
  assume "0 \<le> d" "d < 10"
  then have "d \<in> {0, 1, 2, 3, 4, 5, 6, 7, 8, 9}"
    unfolding insert_iff empty_iff by arith
  then show ?thesis
    by (elim insertE emptyE; hypsubst; code_simp)
qed

lemma dec_str_digits: "0 \<le> n \<Longrightarrow> list_all is_digit (dec_str n)"
proof (induction n rule: dec_str.induct)
  case (1 n)
  then show ?case
    by (subst dec_str.simps) (auto simp: is_digit_char)
qed

lemma digits_val_dec_str: "0 \<le> n \<Longrightarrow> digits_val (dec_str n) = n"
proof (induction n rule: dec_str.induct)
  case (1 n)
  show ?case
  proof (cases "n < 10")
    case True
    with 1 show ?thesis by (subst dec_str.simps) (simp add: digits_val_def digit_val_char)
  next
    case False
    with 1 have "digits_val (dec_str (n div 10)) = n div 10" by simp
    with False show ?thesis
      by (subst dec_str.simps) (simp add: digits_val_def digit_val_char)
  qed
qed

text \<open>Reading back a printed 64-bit number gives the number.\<close>

lemma atoi_int_str:
  assumes "- (2 ^ 63) \<le> i" "i < 2 ^ 63"
  shows "atoi (int_str i) = Some i"
proof (cases "i < 0")
  case True
  with assms show ?thesis
    by (simp add: atoi_def int_str_def has_prefix_def digits_val_dec_str dec_str_digits)
next
  case False
  obtain c r where cr: "dec_str i = c # r" by (cases "dec_str i") auto
  with dec_str_digits [of i] False have "is_digit c" by simp
  then have "c \<noteq> CHR 0x2D" "c \<noteq> CHR 0x2B" by (auto simp: is_digit_def)
  with False assms dec_str_digits [of i] digits_val_dec_str [of i] cr show ?thesis
    by (simp add: atoi_def int_str_def has_prefix_def)
qed

lemma split_char_nonempty [simp]: "split_char c s \<noteq> []"
  by (induction s) (auto split: list.splits)

lemma split_char_no_sep: "p \<in> set (split_char c s) \<Longrightarrow> c \<notin> set p"
proof (induction s arbitrary: p)
  case (Cons x s)
  then show ?case by (cases "split_char c s") (auto split: if_splits)
qed simp

lemma join_split_char: "join [c] (split_char c s) = s"
proof (induction s)
  case (Cons x s)
  obtain p ps where sp: "split_char c s = p # ps" by (cases "split_char c s") auto
  with Cons show ?case by (cases ps) (auto simp: sp)
qed simp

section \<open>Maps\<close>

lemma find_SomeD: "find P xs = Some x \<Longrightarrow> x \<in> set xs \<and> P x"
  by (induction xs) (auto split: if_splits)

lemma distinct_map_eqD: "distinct (map f xs) \<Longrightarrow> x \<in> set xs \<Longrightarrow> y \<in> set xs \<Longrightarrow> f x = f y \<Longrightarrow> x = y"
  by (auto simp: distinct_map dest: inj_onD)

text \<open>
  The contract of a keyed store: what a read returns after a write or a delete, and that both
  keep the representation invariant.  The client lemmas are about loops of writes.
\<close>

locale keyed_store =
  fixes get :: "'m \<Rightarrow> 'k \<Rightarrow> 'v option"
    and put :: "'k \<Rightarrow> 'v \<Rightarrow> 'm \<Rightarrow> 'm"
    and del :: "'k \<Rightarrow> 'm \<Rightarrow> 'm"
    and inv :: "'m \<Rightarrow> bool"
  assumes get_put: "get (put k v m) = (get m)(k \<mapsto> v)"
    and get_del: "inv m \<Longrightarrow> get (del k m) = (get m)(k := None)"
    and inv_put: "inv m \<Longrightarrow> inv (put k v m)"
    and inv_del: "inv m \<Longrightarrow> inv (del k m)"
begin

lemma get_fold_put:
  "get (fold (\<lambda>x. put (key x) (val x)) xs m) =
     (\<lambda>k. case find (\<lambda>x. key x = k) (rev xs) of Some x \<Rightarrow> Some (val x) | None \<Rightarrow> get m k)"
proof (induction xs rule: rev_induct)
  case (snoc x xs)
  then show ?case by (auto simp: get_put fun_eq_iff)
qed simp

lemma inv_fold_put: "inv m \<Longrightarrow> inv (fold (\<lambda>x. put (key x) (val x)) xs m)"
  by (induction xs arbitrary: m) (auto intro: inv_put)

lemma dom_fold_put: "dom (get (fold (\<lambda>x. put (key x) (val x)) xs m)) = key ` set xs \<union> dom (get m)"
  by (induction xs arbitrary: m) (auto simp: get_put)

lemma get_fold_del:
  "inv m \<Longrightarrow> get (fold del ks m) k = (if k \<in> set ks then None else get m k)"
  by (induction ks arbitrary: m) (auto simp: get_del inv_del)

lemma inv_fold_del: "inv m \<Longrightarrow> inv (fold del ks m)"
  by (induction ks arbitrary: m) (auto intro: inv_del)

end

type_synonym ('k, 'v) gmap = "('k \<times> 'v) list"

definition mget :: "('k, 'v) gmap \<Rightarrow> 'k \<Rightarrow> 'v option" where
  "mget m k = map_of m k"

definition mput :: "'k \<Rightarrow> 'v \<Rightarrow> ('k, 'v) gmap \<Rightarrow> ('k, 'v) gmap" where
  "mput k v m = AList.update k v m"

definition mdel :: "'k \<Rightarrow> ('k, 'v) gmap \<Rightarrow> ('k, 'v) gmap" where
  "mdel k m = AList.delete k m"

definition mkeys :: "('k, 'v) gmap \<Rightarrow> 'k list" where
  "mkeys m = map fst m"

definition mhas :: "('k, 'v) gmap \<Rightarrow> 'k \<Rightarrow> bool" where
  "mhas m k \<longleftrightarrow> mget m k \<noteq> None"

definition map_ok :: "('k, 'v) gmap \<Rightarrow> bool" where
  "map_ok m \<longleftrightarrow> distinct (mkeys m)"

interpretation gm: keyed_store mget mput mdel map_ok
proof unfold_locales
  fix m :: "('k, 'v) gmap" and k v
  show "mget (mput k v m) = (mget m)(k \<mapsto> v)"
    by (simp add: mget_def mput_def fun_eq_iff update_conv')
  show "map_ok m \<Longrightarrow> map_ok (mput k v m)"
    by (simp add: map_ok_def mkeys_def mput_def distinct_update)
  show "map_ok m \<Longrightarrow> map_ok (mdel k m)"
    by (simp add: map_ok_def mkeys_def mdel_def distinct_delete)
  show "mget (mdel k m) = (mget m)(k := None)"
    by (simp add: mget_def mdel_def fun_eq_iff delete_conv')
qed

declare gm.get_put [go_map, simp] gm.inv_put [intro]

lemma mget_Nil [go_map, simp]: "mget [] k = None"
  by (simp add: mget_def)

lemma dom_mget_Nil [go_map, simp]: "dom (mget []) = {}"
  by auto

lemma mget_Cons [go_map, simp]: "mget ((a, v) # m) k = (if k = a then Some v else mget m k)"
  by (simp add: mget_def)

lemma mput_Nil [simp]: "mput k v [] = [(k, v)]"
  by (simp add: mput_def)

lemma mput_Cons [simp]: "mput k v ((a, w) # m) = (if k = a then (k, v) # m else (a, w) # mput k v m)"
  by (simp add: mput_def)

lemma mkeys_mget: "k \<in> set (mkeys m) \<longleftrightarrow> mget m k \<noteq> None"
  by (induction m) (auto simp: mkeys_def)

lemma mkeys_dom: "set (mkeys m) = dom (mget m)"
  by (auto simp: mkeys_mget)

lemma mhas_iff: "mhas m k \<longleftrightarrow> k \<in> dom (mget m)"
  by (auto simp: mhas_def)

lemma map_ok_Nil [simp]: "map_ok []"
  by (simp add: map_ok_def mkeys_def)

lemma map_ok_distinct: "map_ok m \<Longrightarrow> distinct (mkeys m)"
  by (simp add: map_ok_def)

text \<open>
  \<^verbatim>\<open>sort.Strings\<close> on the keys of a map: the loop that appends every key in iteration order
  and sorts the slice.
\<close>

definition sorted_keys :: "('k :: linorder, 'v) gmap \<Rightarrow> 'k list" where
  "sorted_keys m = sort (mkeys m)"

lemma set_sorted_keys [simp]: "set (sorted_keys m) = dom (mget m)"
  by (simp add: sorted_keys_def mkeys_dom)

lemma sorted_sorted_keys [simp]: "sorted (sorted_keys m)"
  by (simp add: sorted_keys_def)

lemma distinct_sorted_keys [simp]: "map_ok m \<Longrightarrow> distinct (sorted_keys m)"
  by (simp add: sorted_keys_def map_ok_def)

text \<open>Two sorted duplicate-free key lists with the same keys are the same list.\<close>

lemma sorted_keys_cong:
  assumes "map_ok m" "map_ok m'" "dom (mget m) = dom (mget m')"
  shows "sorted_keys m = sorted_keys m'"
  using assms by (intro sorted_distinct_set_unique) auto

section \<open>Loops whose rounds are independent\<close>

text \<open>
  A loop \<open>for _, k := range ks { \<dots> }\<close> whose round \<open>k\<close> reads and writes only the part of the
  state that belongs to \<open>k\<close>: \<open>view\<close> is that part, \<open>upd\<close> what the round makes of it.  Over
  distinct keys the order of the rounds does not matter and every part is updated once.
\<close>

locale pointwise_loop =
  fixes step :: "'k \<Rightarrow> 's \<Rightarrow> 's"
    and view :: "'s \<Rightarrow> 'k \<Rightarrow> 'v"
    and upd :: "'k \<Rightarrow> 'v \<Rightarrow> 'v"
  assumes step_same: "view (step k s) k = upd k (view s k)"
    and step_other: "j \<noteq> k \<Longrightarrow> view (step k s) j = view s j"
begin

lemma loop_other: "j \<notin> set ks \<Longrightarrow> view (fold step ks s) j = view s j"
  by (induction ks arbitrary: s) (auto simp: step_other)

lemma loop_view:
  "distinct ks \<Longrightarrow> view (fold step ks s) j = (if j \<in> set ks then upd j (view s j) else view s j)"
proof (induction ks arbitrary: s)
  case (Cons k ks)
  then show ?case
    by (cases "j = k") (auto simp: loop_other step_same step_other)
qed simp

lemma loop_perm:
  "distinct ks \<Longrightarrow> distinct ks' \<Longrightarrow> set ks = set ks' \<Longrightarrow>
     view (fold step ks s) = view (fold step ks' s)"
  by (simp add: fun_eq_iff loop_view)

end

text \<open>
  The simplest instance: a loop that applies a function to the value under each of its keys,
  where there is one (\<^verbatim>\<open>if v, ok := m[k]; ok { m[k] = f(v) }\<close>).
\<close>

definition madjust :: "('v \<Rightarrow> 'v) \<Rightarrow> 'k \<Rightarrow> ('k, 'v) gmap \<Rightarrow> ('k, 'v) gmap" where
  "madjust f k m = (case mget m k of None \<Rightarrow> m | Some v \<Rightarrow> mput k (f v) m)"

lemma mget_madjust: "mget (madjust f k m) j = (if j = k then map_option f (mget m k) else mget m j)"
  by (auto simp: madjust_def split: option.splits)

lemma map_ok_madjust: "map_ok m \<Longrightarrow> map_ok (madjust f k m)"
  by (auto simp: madjust_def split: option.splits)

interpretation adjust_loop: pointwise_loop "madjust f" mget "\<lambda>_. map_option f" for f :: "'v \<Rightarrow> 'v"
  by unfold_locales (simp_all add: mget_madjust)

lemma map_ok_fold_madjust: "map_ok m \<Longrightarrow> map_ok (fold (madjust f) ks m)"
  by (induction ks arbitrary: m) (auto simp: map_ok_madjust)

end
