(* ===== verification/Go_Float.thy ===== *)
theory Go_Float
  imports Complex_Main Go_Base
begin

text \<open>
  \<^verbatim>\<open>float64\<close> as IEEE 754 binary64 with the rounding Go performs (to nearest, ties to even).
  A finite number is a sign and a rational magnitude; every arithmetic operation computes the
  exact rational result and rounds it once, so \<^verbatim>\<open>NaN\<close>, the infinities, signed zeros,
  overflow and gradual underflow behave as in the program.  Formatting (\<^verbatim>\<open>%v\<close>, \<^verbatim>\<open>%.1f\<close>,
  \<^verbatim>\<open>FormatFloat(v, 'f', 0)\<close>) and parsing (\<^verbatim>\<open>strconv.ParseFloat\<close>) are functions on the same
  representation.
\<close>

section \<open>Rounding\<close>

function bit_len :: "int \<Rightarrow> int" where
  "bit_len n = (if n \<le> 0 then 0 else 1 + bit_len (n div 2))"
  by pat_completeness auto
termination
  by (relation "measure nat") auto

declare bit_len.simps [simp del]

definition pow2 :: "int \<Rightarrow> rat" where
  "pow2 e = (if 0 \<le> e then 2 ^ nat e else 1 / 2 ^ nat (- e))"

definition pow10 :: "int \<Rightarrow> rat" where
  "pow10 e = (if 0 \<le> e then 10 ^ nat e else 1 / 10 ^ nat (- e))"

definition log2_floor :: "rat \<Rightarrow> int" where
  \<comment> \<open>\<open>\<lfloor>log2 r\<rfloor>\<close> of a positive \<open>r\<close>, from the bit lengths of numerator and denominator\<close>
  "log2_floor r =
     (let (n, d) = quotient_of r; k = bit_len n - bit_len d
      in if pow2 k \<le> r then k else k - 1)"

definition round_half_even :: "rat \<Rightarrow> int" where
  "round_half_even r =
     (let f = \<lfloor>r\<rfloor>; x = r - of_int f
      in if x < 1 / 2 then f else if 1 / 2 < x then f + 1 else if even f then f else f + 1)"

definition round_half_away :: "rat \<Rightarrow> int" where
  "round_half_away r = (if r < 0 then - \<lfloor>- r + 1 / 2\<rfloor> else \<lfloor>r + 1 / 2\<rfloor>)"

definition round_bin :: "nat \<Rightarrow> int \<Rightarrow> rat \<Rightarrow> rat" where
  \<comment> \<open>nearest number with \<open>p\<close> significant bits and no bit below \<open>2 ^ emin\<close>, of \<open>0 \<le> r\<close>\<close>
  "round_bin p emin r =
     (if r = 0 then 0
      else let q = max (log2_floor r - int p + 1) emin
           in of_int (round_half_even (r / pow2 q)) * pow2 q)"

lemma round_half_even_int [simp]: "round_half_even (of_int i) = i"
  by (simp add: round_half_even_def)

lemma bit_len_bound: "n < 2 ^ k \<Longrightarrow> bit_len n \<le> int k"
proof (induction k arbitrary: n)
  case 0
  then show ?case by (simp add: bit_len.simps)
next
  case (Suc k)
  then have "bit_len (n div 2) \<le> int k" by simp
  then show ?case by (subst bit_len.simps) simp
qed

lemma log2_floor_nat: "n < 2 ^ k \<Longrightarrow> log2_floor (of_nat n) < int k"
proof -
  assume "n < 2 ^ k"
  then have "int n < 2 ^ k" by (metis of_nat_less_iff of_nat_numeral of_nat_power)
  then have "bit_len (int n) \<le> int k" by (rule bit_len_bound)
  moreover have "quotient_of (of_nat n) = (int n, 1)"
    using quotient_of_int [of "int n"] by simp
  moreover have "bit_len 1 = 1" by (simp add: bit_len.simps)
  ultimately show ?thesis by (auto simp: log2_floor_def Let_def)
qed

text \<open>An integer of at most 53 bits is represented exactly.\<close>

lemma round_bin_nat:
  assumes "n < 2 ^ p" "emin \<le> 0"
  shows "round_bin p emin (of_nat n) = of_nat n"
proof -
  let ?q = "max (log2_floor (of_nat n) - int p + 1) emin"
  from assms log2_floor_nat [of n p] have q: "?q \<le> 0" by simp
  then have pq: "pow2 ?q = 1 / 2 ^ nat (- ?q)" by (auto simp: pow2_def)
  then have "of_nat n / pow2 ?q = of_int (int n * 2 ^ nat (- ?q))" by simp
  then have "round_half_even (of_nat n / pow2 ?q) = int n * 2 ^ nat (- ?q)"
    by (simp only: round_half_even_int)
  with pq show ?thesis by (simp add: round_bin_def Let_def)
qed

lemma round_half_even_mono: "r \<le> s \<Longrightarrow> round_half_even r \<le> round_half_even s"
proof -
  assume le: "r \<le> s"
  then have fl: "\<lfloor>r\<rfloor> \<le> \<lfloor>s\<rfloor>" by (rule floor_mono)
  show ?thesis
  proof (cases "\<lfloor>r\<rfloor> = \<lfloor>s\<rfloor>")
    case True
    with le show ?thesis by (auto simp: round_half_even_def Let_def)
  next
    case False
    with fl have "\<lfloor>r\<rfloor> + 1 \<le> \<lfloor>s\<rfloor>" by simp
    moreover have "round_half_even r \<le> \<lfloor>r\<rfloor> + 1" "\<lfloor>s\<rfloor> \<le> round_half_even s"
      by (auto simp: round_half_even_def Let_def)
    ultimately show ?thesis by linarith
  qed
qed

section \<open>The type and its operations\<close>

datatype f64 = NaN | FInf bool | Fin bool rat
  \<comment> \<open>the boolean is the sign (\<^const>\<open>True\<close> is minus), the rational the magnitude\<close>

definition mk_f64 :: "bool \<Rightarrow> rat \<Rightarrow> f64" where
  "mk_f64 s r = (let m = round_bin 53 (-1074) r in if 1024 \<le> log2_floor m then FInf s else Fin s m)"

definition f_of_rat :: "rat \<Rightarrow> f64" where
  "f_of_rat r = mk_f64 (r < 0) \<bar>r\<bar>"

definition f_of_int :: "int \<Rightarrow> f64" where
  "f_of_int i = f_of_rat (of_int i)"

abbreviation f_zero :: f64 where
  "f_zero \<equiv> Fin False 0"

definition f_num :: "rat \<Rightarrow> f64" where
  \<comment> \<open>a constant the source writes that binary64 represents exactly\<close>
  "f_num r = Fin (r < 0) \<bar>r\<bar>"

fun f_val :: "f64 \<Rightarrow> rat" where
  "f_val (Fin s m) = (if s then - m else m)"
| "f_val _ = 0"

fun f_lt :: "f64 \<Rightarrow> f64 \<Rightarrow> bool" where
  "f_lt NaN _ = False"
| "f_lt _ NaN = False"
| "f_lt (FInf s) (FInf t) = (s \<and> \<not> t)"
| "f_lt (FInf s) (Fin _ _) = s"
| "f_lt (Fin _ _) (FInf t) = (\<not> t)"
| "f_lt (Fin s m) (Fin t n) = (f_val (Fin s m) < f_val (Fin t n))"

fun f_eq :: "f64 \<Rightarrow> f64 \<Rightarrow> bool" where
  "f_eq NaN _ = False"
| "f_eq _ NaN = False"
| "f_eq (FInf s) (FInf t) = (s = t)"
| "f_eq (Fin s m) (Fin t n) = (f_val (Fin s m) = f_val (Fin t n))"
| "f_eq _ _ = False"

definition f_le :: "f64 \<Rightarrow> f64 \<Rightarrow> bool" where
  "f_le a b \<longleftrightarrow> f_lt a b \<or> f_eq a b"

abbreviation f_gt :: "f64 \<Rightarrow> f64 \<Rightarrow> bool" where "f_gt a b \<equiv> f_lt b a"
abbreviation f_ge :: "f64 \<Rightarrow> f64 \<Rightarrow> bool" where "f_ge a b \<equiv> f_le b a"

fun f_mul :: "f64 \<Rightarrow> f64 \<Rightarrow> f64" where
  "f_mul NaN _ = NaN"
| "f_mul _ NaN = NaN"
| "f_mul (FInf s) (FInf t) = FInf (s \<noteq> t)"
| "f_mul (FInf s) (Fin t n) = (if n = 0 then NaN else FInf (s \<noteq> t))"
| "f_mul (Fin s m) (FInf t) = (if m = 0 then NaN else FInf (s \<noteq> t))"
| "f_mul (Fin s m) (Fin t n) = mk_f64 (s \<noteq> t) (m * n)"

fun f_div :: "f64 \<Rightarrow> f64 \<Rightarrow> f64" where
  "f_div NaN _ = NaN"
| "f_div _ NaN = NaN"
| "f_div (FInf s) (FInf t) = NaN"
| "f_div (FInf s) (Fin t n) = FInf (s \<noteq> t)"
| "f_div (Fin s m) (FInf t) = Fin (s \<noteq> t) 0"
| "f_div (Fin s m) (Fin t n) =
     (if n = 0 then (if m = 0 then NaN else FInf (s \<noteq> t)) else mk_f64 (s \<noteq> t) (m / n))"

fun f_add :: "f64 \<Rightarrow> f64 \<Rightarrow> f64" where
  "f_add NaN _ = NaN"
| "f_add _ NaN = NaN"
| "f_add (FInf s) (FInf t) = (if s = t then FInf s else NaN)"
| "f_add (FInf s) _ = FInf s"
| "f_add _ (FInf t) = FInf t"
| "f_add (Fin s m) (Fin t n) =
     (let r = f_val (Fin s m) + f_val (Fin t n)
      in if r = 0 then Fin (s \<and> t) 0 else f_of_rat r)"

fun f_neg :: "f64 \<Rightarrow> f64" where
  "f_neg NaN = NaN"
| "f_neg (FInf s) = FInf (\<not> s)"
| "f_neg (Fin s m) = Fin (\<not> s) m"

text \<open>\<^verbatim>\<open>math.Round\<close> (half away from zero) and the conversion \<^verbatim>\<open>int64(v)\<close> (truncation; the
  amd64 result for values out of range is \<open>-2 ^ 63\<close>).\<close>

fun f_round :: "f64 \<Rightarrow> f64" where
  "f_round (Fin s m) = Fin s (of_int (round_half_away m))"
| "f_round x = x"

fun f_to_int64 :: "f64 \<Rightarrow> int" where
  "f_to_int64 (Fin s m) =
     (let i = (if s then - \<lfloor>m\<rfloor> else \<lfloor>m\<rfloor>)
      in if - (2 ^ 63) \<le> i \<and> i < 2 ^ 63 then i else - (2 ^ 63))"
| "f_to_int64 _ = - (2 ^ 63)"

lemma mk_f64_nat [simp]:
  assumes "n < 2 ^ 53"
  shows "mk_f64 s (of_nat n) = Fin s (of_nat n)"
proof -
  have "log2_floor (of_nat n) < 53" using log2_floor_nat [OF assms] by simp
  then show ?thesis by (simp add: mk_f64_def round_bin_nat [OF assms] Let_def)
qed

lemma mk_f64_numeral [simp]: "(numeral k :: nat) < 2 ^ 53 \<Longrightarrow> mk_f64 s (numeral k) = Fin s (numeral k)"
  using mk_f64_nat [of "numeral k" s] by simp

lemma mk_f64_0 [simp]: "mk_f64 s 0 = Fin s 0"
  using mk_f64_nat [of 0 s] by simp

lemma mk_f64_1 [simp]: "mk_f64 s 1 = Fin s 1"
  using mk_f64_nat [of 1 s] by simp

text \<open>Order facts.  \<^const>\<open>f_lt\<close> is a strict order whose only exception is \<^const>\<open>NaN\<close>.\<close>

lemma f_lt_irrefl [simp]: "\<not> f_lt a a"
  by (cases a) auto

lemma f_lt_trans: "f_lt a b \<Longrightarrow> f_lt b c \<Longrightarrow> f_lt a c"
  by (cases a; cases b; cases c) auto

lemma f_lt_le_trans: "f_lt a b \<Longrightarrow> f_le b c \<Longrightarrow> f_lt a c"
  by (cases a; cases b; cases c) (auto simp: f_le_def)

lemma f_le_lt_trans: "f_le a b \<Longrightarrow> f_lt b c \<Longrightarrow> f_lt a c"
  by (cases a; cases b; cases c) (auto simp: f_le_def)

lemma f_le_trans: "f_le a b \<Longrightarrow> f_le b c \<Longrightarrow> f_le a c"
  by (cases a; cases b; cases c) (auto simp: f_le_def)

lemma f_lt_asym: "f_lt a b \<Longrightarrow> \<not> f_lt b a"
  by (cases a; cases b) auto

lemma f_num_lt [simp]: "f_lt (f_num a) (f_num b) \<longleftrightarrow> a < b"
  by (auto simp: f_num_def)

lemma f_num_eq [simp]: "f_eq (f_num a) (f_num b) \<longleftrightarrow> a = b"
  by (auto simp: f_num_def)

lemma f_num_le [simp]: "f_le (f_num a) (f_num b) \<longleftrightarrow> a \<le> b"
  by (auto simp: f_le_def)

section \<open>Formatting\<close>

definition log10_floor :: "rat \<Rightarrow> int" where
  \<comment> \<open>\<open>\<lfloor>log10 r\<rfloor>\<close> of a positive \<open>r\<close>: an estimate from the binary exponent, off by at most one\<close>
  "log10_floor r =
     (let e = log2_floor r * 30103 div 100000
      in if pow10 (e + 1) \<le> r then e + 1 else if r < pow10 e then e - 1 else e)"

definition round_digits :: "rat \<Rightarrow> nat \<Rightarrow> int \<times> int" where
  \<comment> \<open>the \<open>n\<close> significant decimal digits nearest to \<open>r\<close>, and the exponent of the first\<close>
  "round_digits r n =
     (let e = log10_floor r; d = round_half_even (r / pow10 (e - int n + 1))
      in if d = 10 ^ n then (d div 10, e + 1) else (d, e))"

fun shortest_digits :: "nat \<Rightarrow> int \<Rightarrow> rat \<Rightarrow> nat \<Rightarrow> nat \<Rightarrow> int \<times> int" where
  \<comment> \<open>the fewest digits that read back as the same number; 17 are always enough\<close>
  "shortest_digits p emin r n 0 = round_digits r n"
| "shortest_digits p emin r n (Suc k) =
     (let (d, e) = round_digits r n
      in if round_bin p emin (of_int d * pow10 (e - int n + 1)) = r then (d, e)
         else shortest_digits p emin r (Suc n) k)"

definition pad_zeros :: "nat \<Rightarrow> string \<Rightarrow> string" where
  "pad_zeros n s = replicate (n - length s) CHR ''0'' @ s"

definition fmt_g :: "nat \<Rightarrow> int \<Rightarrow> rat \<Rightarrow> string" where
  \<comment> \<open>\<^verbatim>\<open>strconv\<close>'s format \<open>g\<close> with the shortest precision, of a magnitude\<close>
  "fmt_g p emin r =
     (if r = 0 then ''0'' else
      let (d, e) = shortest_digits p emin r 1 16;
          ds = rev (dropWhile (\<lambda>c. c = CHR ''0'') (rev (int_str d)))
      in if e < -4 \<or> 6 \<le> e then
           take 1 ds @ (if length ds \<le> 1 then [] else ''.'' @ drop 1 ds) @ ''e''
             @ (if e < 0 then ''-'' else ''+'') @ pad_zeros 2 (int_str \<bar>e\<bar>)
         else if e < 0 then ''0.'' @ replicate (nat (- e) - 1) CHR ''0'' @ ds
         else if length ds \<le> nat e + 1 then ds @ replicate (nat e + 1 - length ds) CHR ''0''
         else take (nat e + 1) ds @ ''.'' @ drop (nat e + 1) ds)"

definition fmt_bits :: "nat \<Rightarrow> int \<Rightarrow> f64 \<Rightarrow> string" where
  "fmt_bits p emin x =
     (case x of NaN \<Rightarrow> ''NaN''
      | FInf s \<Rightarrow> (if s then ''-Inf'' else ''+Inf'')
      | Fin s m \<Rightarrow> (if s then ''-'' else []) @ fmt_g p emin m)"

text \<open>\<^verbatim>\<open>%v\<close> of a \<^verbatim>\<open>float64\<close> and of a \<^verbatim>\<open>float32\<close>.\<close>

definition fmt_v :: "f64 \<Rightarrow> string" where "fmt_v = fmt_bits 53 (-1074)"
definition fmt_v32 :: "f64 \<Rightarrow> string" where "fmt_v32 = fmt_bits 24 (-149)"

text \<open>\<^verbatim>\<open>%.nf\<close> and \<^verbatim>\<open>strconv.FormatFloat(v, 'f', n, 64)\<close>: the exact value rounded to \<open>n\<close> places.\<close>

definition fmt_fixed :: "nat \<Rightarrow> f64 \<Rightarrow> string" where
  "fmt_fixed n x =
     (case x of NaN \<Rightarrow> ''NaN''
      | FInf s \<Rightarrow> (if s then ''-Inf'' else ''+Inf'')
      | Fin s m \<Rightarrow>
          let d = round_half_even (m * pow10 (int n));
              ds = pad_zeros (n + 1) (int_str d);
              k = length ds - n
          in (if s then ''-'' else []) @ take k ds @ (if n = 0 then [] else ''.'' @ drop k ds))"

section \<open>Parsing\<close>

text \<open>
  \<^verbatim>\<open>strconv.ParseFloat(s, 64)\<close> with \<^const>\<open>None\<close> for an error, range errors included.
  Decimal literals, infinities and \<^verbatim>\<open>NaN\<close>; the exponent saturates as in \<^verbatim>\<open>readFloat\<close>.
  Hexadecimal literals are not among the inputs modelled.
\<close>

definition strip_sign :: "string \<Rightarrow> bool \<times> string" where
  "strip_sign s =
     (if has_prefix s ''-'' then (True, tl s) else if has_prefix s ''+'' then (False, tl s)
      else (False, s))"

definition parse_exponent :: "string \<Rightarrow> int option" where
  "parse_exponent s =
     (case s of [] \<Rightarrow> Some 0
      | c # r \<Rightarrow>
          if c \<noteq> CHR ''e'' \<and> c \<noteq> CHR ''E'' then None
          else let (neg, ds) = strip_sign r; v = min 10000 (digits_val ds)
               in if ds = [] \<or> \<not> list_all is_digit ds then None
                  else Some (if neg then - v else v))"

definition parse_decimal :: "string \<Rightarrow> rat option" where
  "parse_decimal s =
     (let ip = takeWhile is_digit s; r = dropWhile is_digit s;
          dot = has_prefix r ''.'';
          fp = (if dot then takeWhile is_digit (tl r) else []);
          r' = (if dot then dropWhile is_digit (tl r) else r)
      in if ip @ fp = [] then None
         else map_option (\<lambda>e. of_int (digits_val (ip @ fp)) * pow10 (e - int (length fp)))
                (parse_exponent r'))"

definition parse_float :: "string \<Rightarrow> f64 option" where
  "parse_float s =
     (let (neg, u) = strip_sign s; l = to_lower u
      in if l = ''inf'' \<or> l = ''infinity'' then Some (FInf neg)
         else if to_lower s = ''nan'' then Some NaN
         else case parse_decimal u of None \<Rightarrow> None
              | Some r \<Rightarrow> (case mk_f64 neg r of FInf _ \<Rightarrow> None | x \<Rightarrow> Some x))"

end
