(* ===== verification/Go_Any.thy ===== *)
theory Go_Any
  imports Go_Float
begin

text \<open>
  Values of Go's type \<^verbatim>\<open>any\<close> as the programs use it: decoded JSON and YAML, and the values
  the collectors put into an observation.  A constructor is a dynamic type; \<^verbatim>\<open>map[string]any\<close>
  is an association list.  \<open>sprint\<close> is \<^verbatim>\<open>fmt.Sprint\<close> of one operand (the verb \<^verbatim>\<open>%v\<close>).
\<close>

datatype any =
    VNil
  | VBool bool
  | VF64 f64
  | VF32 f64 \<comment> \<open>a \<^verbatim>\<open>float32\<close>, kept as the binary64 number of the same value\<close>
  | VInt int
  | VInt64 int
  | VStr string
  | VList "any list"
  | VMap "(string, any) gmap"

fun sprint :: "any \<Rightarrow> string" where
  "sprint VNil = ''<nil>''"
| "sprint (VBool b) = (if b then ''true'' else ''false'')"
| "sprint (VF64 x) = fmt_v x"
| "sprint (VF32 x) = fmt_v32 x"
| "sprint (VInt i) = int_str i"
| "sprint (VInt64 i) = int_str i"
| "sprint (VStr s) = s"
| "sprint (VList xs) = ''['' @ join '' '' (map sprint xs) @ '']''"
| "sprint (VMap m) =
     ''map['' @ join '' '' (map (\<lambda>(k, s). k @ '':'' @ s)
                          (sort_key fst (map (\<lambda>(k, v). (k, sprint v)) m))) @ '']''"

text \<open>The type assertions \<^verbatim>\<open>v, _ := x.(T)\<close>: the zero value when the dynamic type differs.\<close>

definition as_str :: "any option \<Rightarrow> string" where
  "as_str x = (case x of Some (VStr s) \<Rightarrow> s | _ \<Rightarrow> [])"

definition as_map :: "any option \<Rightarrow> (string, any) gmap option" where
  "as_map x = (case x of Some (VMap m) \<Rightarrow> Some m | _ \<Rightarrow> None)"

definition as_list :: "any option \<Rightarrow> any list" where
  "as_list x = (case x of Some (VList l) \<Rightarrow> l | _ \<Rightarrow> [])"

text \<open>Reading a missing key of a \<^verbatim>\<open>map[string]any\<close> gives \<^verbatim>\<open>nil\<close>.\<close>

definition any_at :: "(string, any) gmap \<Rightarrow> string \<Rightarrow> any" where
  "any_at m k = (case mget m k of Some v \<Rightarrow> v | None \<Rightarrow> VNil)"

lemma any_at_Nil [simp]: "any_at [] k = VNil"
  by (simp add: any_at_def)

lemma any_at_Cons [simp]: "any_at ((a, v) # m) k = (if k = a then v else any_at m k)"
  by (simp add: any_at_def)

end
