(* ===== verification/Go_Time.thy ===== *)
theory Go_Time
  imports Go_Any "HOL-Library.Monad_Syntax"
begin

text \<open>
  \<^verbatim>\<open>time.Time\<close>: an instant in nanoseconds since the Unix epoch and a location, which is a
  function from the instant (in seconds) to the offset east of UTC in force.  The process's own
  location (\<^verbatim>\<open>time.Local\<close>) is an argument of the parser, as it is read from the machine.
\<close>

type_synonym zone = "int \<Rightarrow> int"

record gtime =
  t_ns :: int
  t_zone :: zone

definition utc :: zone where "utc = (\<lambda>_. 0)"

definition unix_sec :: "gtime \<Rightarrow> int" where
  "unix_sec t = t_ns t div 10 ^ 9"

section \<open>Calendar\<close>

text \<open>The proleptic Gregorian calendar: days since 1970-01-01 of a date, and back.\<close>

definition days_of_civil :: "int \<Rightarrow> int \<Rightarrow> int \<Rightarrow> int" where
  "days_of_civil y m d =
     (let y' = (if m \<le> 2 then y - 1 else y);
          era = y' div 400; yoe = y' mod 400;
          doy = (153 * (if 2 < m then m - 3 else m + 9) + 2) div 5 + d - 1
      in era * 146097 + yoe * 365 + yoe div 4 - yoe div 100 + doy - 719468)"

definition civil_of_days :: "int \<Rightarrow> int \<times> int \<times> int" where
  "civil_of_days z =
     (let era = (z + 719468) div 146097; doe = (z + 719468) mod 146097;
          yoe = (doe - doe div 1460 + doe div 36524 - doe div 146096) div 365;
          doy = doe - (365 * yoe + yoe div 4 - yoe div 100);
          mp = (5 * doy + 2) div 153;
          d = doy - (153 * mp + 2) div 5 + 1;
          m = (if mp < 10 then mp + 3 else mp - 9)
      in ((if m \<le> 2 then yoe + era * 400 + 1 else yoe + era * 400), m, d))"

definition is_leap :: "int \<Rightarrow> bool" where
  "is_leap y \<longleftrightarrow> y mod 4 = 0 \<and> (y mod 100 \<noteq> 0 \<or> y mod 400 = 0)"

definition days_in :: "int \<Rightarrow> int \<Rightarrow> int" where
  "days_in m y =
     (if m = 2 then (if is_leap y then 29 else 28) else if m \<in> {4, 6, 9, 11} then 30 else 31)"

section \<open>Parsing\<close>

definition lit :: "char \<Rightarrow> string \<Rightarrow> string option" where
  "lit c s = (case s of [] \<Rightarrow> None | x # r \<Rightarrow> if x = c then Some r else None)"

definition num_fixed :: "nat \<Rightarrow> string \<Rightarrow> (int \<times> string) option" where
  "num_fixed n s =
     (let ds = take n s
      in if length ds = n \<and> list_all is_digit ds then Some (digits_val ds, drop n s) else None)"

definition num_12 :: "string \<Rightarrow> (int \<times> string) option" where
  \<comment> \<open>\<^verbatim>\<open>getnum(s, false)\<close>: two digits, or one where the second is none\<close>
  "num_12 s = (case num_fixed 2 s of Some r \<Rightarrow> Some r | None \<Rightarrow> num_fixed 1 s)"

definition frac_ns :: "string \<Rightarrow> int \<times> string" where
  \<comment> \<open>an optional fraction of a second; digits after the ninth are dropped\<close>
  "frac_ns s =
     (case s of
        c # x # r \<Rightarrow>
          if (c = CHR ''.'' \<or> c = CHR '','') \<and> is_digit x then
            let ds = takeWhile is_digit (x # r); u = take 9 ds
            in (digits_val u * 10 ^ (9 - length u), dropWhile is_digit (x # r))
          else (0, s)
      | _ \<Rightarrow> (0, s))"

definition zone_suffix :: "string \<Rightarrow> int option" where
  "zone_suffix s =
     (if s = ''Z'' then Some 0 else
      case s of [] \<Rightarrow> None
      | c # r \<Rightarrow> do {
          (h, r) \<leftarrow> num_fixed 2 r;
          r \<leftarrow> lit CHR '':'' r;
          (m, r) \<leftarrow> num_fixed 2 r;
          if r = [] \<and> h \<le> 24 \<and> m \<le> 60 then
            (if c = CHR ''+'' then Some ((h * 60 + m) * 60)
             else if c = CHR 0x2D then Some (- ((h * 60 + m) * 60)) else None)
          else None })"

definition parse_stamp :: "string \<Rightarrow> (int \<times> int \<times> string) option" where
  \<comment> \<open>\<open>2006-01-02T15:04:05\<close> and a fraction: the seconds as if in UTC, the nanoseconds, the rest\<close>
  "parse_stamp s = do {
     (y, s) \<leftarrow> num_fixed 4 s; s \<leftarrow> lit CHR 0x2D s;
     (mo, s) \<leftarrow> num_fixed 2 s; s \<leftarrow> lit CHR 0x2D s;
     (d, s) \<leftarrow> num_fixed 2 s; s \<leftarrow> lit CHR ''T'' s;
     (h, s) \<leftarrow> num_12 s; s \<leftarrow> lit CHR '':'' s;
     (mi, s) \<leftarrow> num_fixed 2 s; s \<leftarrow> lit CHR '':'' s;
     (sec, s) \<leftarrow> num_fixed 2 s;
     let (ns, s) = frac_ns s;
     if 1 \<le> mo \<and> mo \<le> 12 \<and> 1 \<le> d \<and> d \<le> days_in mo y \<and> h < 24 \<and> mi < 60 \<and> sec < 60
     then Some (days_of_civil y mo d * 86400 + h * 3600 + mi * 60 + sec, ns, s) else None }"

definition parse_rfc3339 :: "zone \<Rightarrow> string \<Rightarrow> gtime option" where
  "parse_rfc3339 local s = do {
     (sec, ns, r) \<leftarrow> parse_stamp s;
     off \<leftarrow> zone_suffix r;
     let u = sec - off;
     Some \<lparr>t_ns = u * 10 ^ 9 + ns,
           t_zone = (if r = ''Z'' then utc else if local u = off then local else (\<lambda>_. off))\<rparr> }"

definition parse_naive :: "string \<Rightarrow> gtime option" where
  \<comment> \<open>the layout without a zone: UTC\<close>
  "parse_naive s = do {
     (sec, ns, r) \<leftarrow> parse_stamp s;
     if r = [] then Some \<lparr>t_ns = sec * 10 ^ 9 + ns, t_zone = utc\<rparr> else None }"

section \<open>Formatting and arithmetic\<close>

definition pad2 :: "int \<Rightarrow> string" where
  "pad2 i = pad_zeros 2 (int_str i)"

definition local_sec :: "gtime \<Rightarrow> int" where
  "local_sec t = unix_sec t + t_zone t (unix_sec t)"

definition fmt_date :: "gtime \<Rightarrow> string" where
  "fmt_date t =
     (let (y, m, d) = civil_of_days (local_sec t div 86400)
      in pad_zeros 4 (int_str y) @ ''-'' @ pad2 m @ ''-'' @ pad2 d)"

definition fmt_minute :: "gtime \<Rightarrow> string" where
  \<comment> \<open>\<open>2006-01-02T15:04\<close>\<close>
  "fmt_minute t =
     (let s = local_sec t mod 86400
      in fmt_date t @ ''T'' @ pad2 (s div 3600) @ '':'' @ pad2 (s mod 3600 div 60))"

definition fmt_rfc3339 :: "gtime \<Rightarrow> string" where
  "fmt_rfc3339 t =
     (let off = t_zone t (unix_sec t); a = \<bar>off\<bar> div 60
      in fmt_minute t @ '':'' @ pad2 (local_sec t mod 60) @
         (if off = 0 then ''Z''
          else (if off < 0 then ''-'' else ''+'') @ pad2 (a div 60) @ '':'' @ pad2 (a mod 60)))"

text \<open>
  \<^verbatim>\<open>t.Before(u)\<close>; \<^verbatim>\<open>t.Sub(u)\<close>, which saturates at the ends of \<^verbatim>\<open>int64\<close>;
  \<^verbatim>\<open>d.Hours()\<close>; \<^verbatim>\<open>t.AddDate(0, 0, n)\<close>, which keeps the wall clock of the location
  (\<^verbatim>\<open>time.Date\<close> looks the offset up at the wall clock and again at the result).
\<close>

definition t_before :: "gtime \<Rightarrow> gtime \<Rightarrow> bool" where
  "t_before t u \<longleftrightarrow> t_ns t < t_ns u"

definition t_sub :: "gtime \<Rightarrow> gtime \<Rightarrow> int" where
  "t_sub t u = max (- (2 ^ 63)) (min (2 ^ 63 - 1) (t_ns t - t_ns u))"

definition go_div :: "int \<Rightarrow> int \<Rightarrow> int" where
  \<comment> \<open>Go's integer division truncates towards zero\<close>
  "go_div a b = sgn a * sgn b * (\<bar>a\<bar> div \<bar>b\<bar>)"

definition go_mod :: "int \<Rightarrow> int \<Rightarrow> int" where
  "go_mod a b = a - b * go_div a b"

definition hours :: "int \<Rightarrow> f64" where
  "hours d =
     f_add (f_of_int (go_div d 3600000000000))
       (f_div (f_of_int (go_mod d 3600000000000)) (f_num 3600000000000))"

definition add_days :: "int \<Rightarrow> gtime \<Rightarrow> gtime" where
  "add_days n t =
     (let w = local_sec t + n * 86400; o1 = t_zone t w;
          u = (if o1 = 0 then w else w - t_zone t (w - o1))
      in t\<lparr>t_ns := u * 10 ^ 9 + t_ns t mod 10 ^ 9\<rparr>)"

text \<open>In a location with one offset, \<open>n\<close> days are \<open>n * 24\<close> hours.\<close>

lemma add_days_fixed:
  assumes "t_zone t = (\<lambda>_. off)"
  shows "t_ns (add_days n t) = t_ns t + n * 86400 * 10 ^ 9"
proof -
  have "t_ns t = t_ns t div 10 ^ 9 * 10 ^ 9 + t_ns t mod 10 ^ 9" by simp
  with assms show ?thesis
    by (simp add: add_days_def local_sec_def unix_sec_def Let_def algebra_simps)
qed

end
