(* ===== verification/HR_Model.thy ===== *)
theory HR_Model
  imports Go_Time
begin

text \<open>
  The data model of the health report, \<^verbatim>\<open>src/tools/internal/healthreport/model.go\<close>,
  and the rule file of \<^verbatim>\<open>severity.go\<close>.  Pointers to observations are positions in the
  slice that holds them; an in-place update of a field is an update of the list at that position.
\<close>

section \<open>Severities\<close>

definition severities :: "string list" where
  "severities = [''info'', ''warn'', ''crit'']"

fun index_from :: "nat \<Rightarrow> string \<Rightarrow> string list \<Rightarrow> int" where
  "index_from i s [] = -1"
| "index_from i s (x # xs) = (if x = s then int i else index_from (Suc i) s xs)"

definition severity_rank :: "string \<Rightarrow> int" where
  "severity_rank s = (let r = index_from 0 s severities in if r < 0 then 0 else r)"

text \<open>
  Selecting the best of a list by a rank, scanning from the left and replacing the current best
  only by something strictly better.  \<open>worst\<close> and \<^verbatim>\<open>worstNew\<close> (render.go) are such scans.
\<close>

locale best_scan =
  fixes better :: "'a \<Rightarrow> 'a \<Rightarrow> bool" \<comment> \<open>the first is strictly better than the second\<close>
    and rank :: "'a \<Rightarrow> int"
    and pick :: "'a list \<Rightarrow> 'a option"
  assumes better_rank: "better x y \<longleftrightarrow> rank y < rank x"
    and pick_Nil: "pick [] = None"
    and pick_snoc: "pick (xs @ [x]) =
      (case pick xs of None \<Rightarrow> Some x | Some b \<Rightarrow> if better x b then Some x else Some b)"
begin

lemma pick_None: "pick xs = None \<longleftrightarrow> xs = []"
  by (induction xs rule: rev_induct) (auto simp: pick_Nil pick_snoc split: option.splits)

lemma pick_in: "pick xs = Some b \<Longrightarrow> b \<in> set xs"
  by (induction xs arbitrary: b rule: rev_induct)
    (auto simp: pick_Nil pick_snoc split: option.splits if_splits)

lemma pick_max: "pick xs = Some b \<Longrightarrow> x \<in> set xs \<Longrightarrow> rank x \<le> rank b"
proof (induction xs arbitrary: b rule: rev_induct)
  case (snoc y ys)
  show ?case
  proof (cases "pick ys")
    case None
    with snoc.prems show ?thesis by (auto simp: pick_None pick_snoc pick_Nil)
  next
    case (Some c)
    with snoc.prems snoc.IH [OF Some] show ?thesis
      by (fastforce simp: pick_snoc better_rank split: if_splits)
  qed
qed (simp add: pick_Nil)

lemma pick_first:
  "pick xs = Some b \<Longrightarrow> \<exists>us vs. xs = us @ b # vs \<and> (\<forall>u \<in> set us. rank u < rank b)"
proof (induction xs arbitrary: b rule: rev_induct)
  case (snoc y ys)
  show ?case
  proof (cases "pick ys")
    case None
    with snoc.prems have "ys = []" "b = y" by (simp_all add: pick_None pick_snoc pick_Nil)
    then show ?thesis by (intro exI [of _ "[]"]) simp
  next
    case (Some c)
    show ?thesis
    proof (cases "better y c")
      case True
      with snoc.prems Some have "b = y" by (simp add: pick_snoc)
      moreover from True pick_max [OF Some] have "\<forall>u \<in> set ys. rank u < rank y"
        by (force simp: better_rank)
      ultimately show ?thesis by auto
    next
      case False
      with snoc.prems Some have "b = c" by (simp add: pick_snoc)
      with snoc.IH [OF Some] show ?thesis by (metis append_Cons append_assoc)
    qed
  qed
qed (simp add: pick_Nil)

end

text \<open>\<open>Worst\<close>: unknown severities are skipped; with none left the result is \<open>info\<close>.\<close>

definition known_rank :: "string \<Rightarrow> int" where
  "known_rank s = index_from 0 s severities"

definition worst_step :: "string \<Rightarrow> int \<times> string \<Rightarrow> int \<times> string" where
  "worst_step s = (\<lambda>(best, w).
     let rank = known_rank s
     in if rank < 0 then (best, w) else if best < rank then (rank, s) else (best, w))"

definition worst :: "string list \<Rightarrow> string" where
  "worst vs = snd (fold worst_step vs (-1, ''info''))"

definition worst_known :: "string list \<Rightarrow> string option" where
  "worst_known xs =
     fold (\<lambda>x acc. case acc of None \<Rightarrow> Some x
                   | Some b \<Rightarrow> if known_rank b < known_rank x then Some x else Some b) xs None"

interpretation wk: best_scan "\<lambda>x y. known_rank y < known_rank x" known_rank worst_known
  by unfold_locales (auto simp: worst_known_def)

lemma known_rank_cases:
  "known_rank s = (if s = ''info'' then 0 else if s = ''warn'' then 1 else if s = ''crit'' then 2 else -1)"
  by (simp add: known_rank_def severities_def)

lemma severity_rank_cases:
  "severity_rank s = (if s = ''warn'' then 1 else if s = ''crit'' then 2 else 0)"
  by (simp add: severity_rank_def severities_def)

lemma worst_fold:
  "fold worst_step vs (-1, ''info'') =
     (case worst_known (filter (\<lambda>s. 0 \<le> known_rank s) vs) of
        None \<Rightarrow> (-1, ''info'') | Some b \<Rightarrow> (known_rank b, b))"
proof (induction vs rule: rev_induct)
  case (snoc x xs)
  show ?case
  proof (cases "0 \<le> known_rank x")
    case True
    with snoc show ?thesis
      by (auto simp: worst_step_def wk.pick_snoc Let_def split: option.splits)
  next
    case False
    with snoc show ?thesis by (auto simp: worst_step_def Let_def split: option.splits)
  qed
qed (simp add: worst_known_def)

lemma worst_eq:
  "worst vs =
     (case worst_known (filter (\<lambda>s. 0 \<le> known_rank s) vs) of None \<Rightarrow> ''info'' | Some b \<Rightarrow> b)"
  by (simp add: worst_def worst_fold split: option.splits)

section \<open>Container names\<close>

text \<open>
  \<open>EphemeralContainer\<close> is the pattern \<open>(-run-[0-9a-f]+$|^healthreport$|_run_[0-9]+$)\<close>: a
  nonempty tail of hexadecimal digits after \<open>-run-\<close>, the name itself, or a nonempty tail of
  decimal digits after \<open>_run_\<close>.  Neither separator ends in a character of its tail, so the
  longest tail is the one to look at.
\<close>

definition is_hex_digit :: "char \<Rightarrow> bool" where
  "is_hex_digit c \<longleftrightarrow> is_digit c \<or> (CHR ''a'' \<le> c \<and> c \<le> CHR ''f'')"

definition ends_with_run :: "string \<Rightarrow> (char \<Rightarrow> bool) \<Rightarrow> string \<Rightarrow> bool" where
  "ends_with_run sep P name =
     (let r = rev name; tail = takeWhile P r
      in tail \<noteq> [] \<and> has_prefix (dropWhile P r) (rev sep))"

definition is_ephemeral :: "string \<Rightarrow> bool" where
  "is_ephemeral name \<longleftrightarrow>
     name \<noteq> [] \<and>
     (ends_with_run ''-run-'' is_hex_digit name \<or> name = ''healthreport'' \<or>
      ends_with_run ''_run_'' is_digit name)"

lemma ends_with_run_iff:
  assumes "sep \<noteq> []" "\<not> P (last sep)"
  shows "ends_with_run sep P name \<longleftrightarrow> (\<exists>u t. name = u @ sep @ t \<and> t \<noteq> [] \<and> list_all P t)"
proof
  assume "ends_with_run sep P name"
  then have ne: "takeWhile P (rev name) \<noteq> []"
    and pre: "prefix (rev sep) (dropWhile P (rev name))"
    by (simp_all add: ends_with_run_def has_prefix_iff Let_def)
  from pre obtain w where w: "dropWhile P (rev name) = rev sep @ w" by (auto simp: prefix_def)
  have "rev name = takeWhile P (rev name) @ rev sep @ w" by (simp flip: w)
  then have "name = rev w @ sep @ rev (takeWhile P (rev name))"
    by (metis append_assoc rev_append rev_rev_ident)
  moreover have "list_all P (rev (takeWhile P (rev name)))"
    by (auto simp: list_all_iff dest: set_takeWhileD)
  ultimately show "\<exists>u t. name = u @ sep @ t \<and> t \<noteq> [] \<and> list_all P t"
    using ne by (metis rev_is_Nil_conv)
next
  assume "\<exists>u t. name = u @ sep @ t \<and> t \<noteq> [] \<and> list_all P t"
  then obtain u t where n: "name = u @ sep @ t" and t: "t \<noteq> []" "list_all P t" by blast
  from assms obtain c s where s: "sep = s @ [c]" "\<not> P c" by (metis append_butlast_last_id)
  have "rev name = rev t @ c # rev s @ rev u" by (simp add: n s)
  with t s(2) show "ends_with_run sep P name"
    by (simp add: ends_with_run_def s has_prefix_def Let_def list_all_iff takeWhile_append dropWhile_append)
qed

section \<open>Observations and collector results\<close>

record observation =
  o_id :: string
  o_collector :: string
  o_subject :: string
  o_kind :: string
  o_message :: string
  o_severity :: string
  o_value :: any
  o_unit :: any
  o_threshold :: any
  o_evidence :: "(string, any) gmap"
  o_notice :: bool
  o_previous_value :: any
  o_first_seen :: any

definition new_observation :: "string \<Rightarrow> string \<Rightarrow> string \<Rightarrow> string \<Rightarrow> string \<Rightarrow> observation" where
  "new_observation i c s k msg =
     \<lparr>o_id = i, o_collector = c, o_subject = s, o_kind = k, o_message = msg,
      o_severity = ''info'', o_value = VNil, o_unit = VNil, o_threshold = VNil, o_evidence = [],
      o_notice = False, o_previous_value = VNil, o_first_seen = VNil\<rparr>"

text \<open>\<open>Data\<close> is a pointer to a collector's own data type; it is a parameter of the record.\<close>

record 'd collector_result =
  c_name :: string
  c_status :: string \<comment> \<open>\<open>ok\<close>, \<open>error\<close> or \<open>unavailable\<close>\<close>
  c_error :: string
  c_duration :: f64
  c_data :: "'d option"
  c_observations :: "observation list"

definition new_collector_result :: "string \<Rightarrow> 'd collector_result" where
  "new_collector_result name =
     \<lparr>c_name = name, c_status = ''ok'', c_error = [], c_duration = f_zero, c_data = None,
      c_observations = []\<rparr>"

text \<open>
  \<open>round\<close>: \<^verbatim>\<open>math.Pow(10, places)\<close> is exact for the small exponents used.  \<open>ToDict\<close> gives
  the persisted fields; \<open>data\<close> stays a parameter.
\<close>

definition round_places :: "f64 \<Rightarrow> nat \<Rightarrow> f64" where
  "round_places v places = (let mult = f_num (10 ^ places) in f_div (f_round (f_mul v mult)) mult)"

definition to_dict :: "('d option \<Rightarrow> any) \<Rightarrow> 'd collector_result \<Rightarrow> (string, any) gmap" where
  "to_dict data_json r =
     [(''status'', VStr (c_status r)),
      (''error'', if c_error r \<noteq> [] then VStr (c_error r) else VNil),
      (''duration_s'', VF64 (round_places (c_duration r) 3)),
      (''data'', data_json (c_data r))]"

end
