(* ===== verification/HR_Severity.thy ===== *)
theory HR_Severity
  imports HR_Model
begin

text \<open>
  Severity classification, \<^verbatim>\<open>src/tools/internal/healthreport/severity.go\<close>: one rule per kind
  of observation, applied before anything else reads the severity.  \<open>classify\<close> returns the
  severity together with the observation as the Go function leaves it (\<open>Notice\<close>, \<open>Threshold\<close>
  and \<open>Message\<close> are assigned through the pointer).
\<close>

section \<open>Rules and values\<close>

record rule =
  ru_type :: string
  ru_direction :: string
  ru_warn :: "f64 option"
  ru_crit :: "f64 option"
  ru_min_age_days :: "f64 option"
  ru_spike_factor :: "f64 option"
  ru_spike_floor :: "f64 option"
  ru_spike_level :: string
  ru_crit_values :: "any list"
  ru_warn_values :: "any list"
  ru_ok_values :: "any list"
  ru_level :: string
  ru_subjects :: "string list"
  ru_notice :: "f64 option"

definition no_rule :: rule where
  \<comment> \<open>the zero value, what \<^verbatim>\<open>rules.Rules[kind]\<close> gives for an unknown kind\<close>
  "no_rule =
     \<lparr>ru_type = [], ru_direction = [], ru_warn = None, ru_crit = None, ru_min_age_days = None,
      ru_spike_factor = None, ru_spike_floor = None, ru_spike_level = [], ru_crit_values = [],
      ru_warn_values = [], ru_ok_values = [], ru_level = [], ru_subjects = [], ru_notice = None\<rparr>"

type_synonym rules_file = "(string, rule) gmap"

definition false_strings :: "string list" where
  "false_strings = [''false'', ''0'', ''no'', ''none'', ''null'', []]"

fun numeric :: "any \<Rightarrow> f64 option" where
  "numeric (VBool _) = None"
| "numeric (VF64 x) = Some x"
| "numeric (VF32 x) = Some x"
| "numeric (VInt i) = Some (f_of_int i)"
| "numeric (VInt64 i) = Some (f_of_int i)"
| "numeric (VStr s) = parse_float s"
| "numeric _ = None"

fun truthy :: "any \<Rightarrow> bool" where
  "truthy (VBool b) = b"
| "truthy VNil = False"
| "truthy (VF64 x) = (\<not> f_eq x f_zero)"
| "truthy (VF32 x) = (\<not> f_eq x f_zero)"
| "truthy (VInt i) = (i \<noteq> 0)"
| "truthy (VInt64 i) = (i \<noteq> 0)"
| "truthy v = (to_lower (trim_space (sprint v)) \<notin> set false_strings)"

definition parse_iso_time :: "zone \<Rightarrow> string \<Rightarrow> gtime option" where
  \<comment> \<open>the layouts \<open>RFC3339Nano\<close> and \<open>RFC3339\<close> accept the same strings\<close>
  "parse_iso_time local s =
     (case parse_rfc3339 local s of Some t \<Rightarrow> Some t | None \<Rightarrow> parse_naive s)"

text \<open>The instant does not depend on the location of the process, only the location does.\<close>

lemma parse_iso_time_instant:
  "map_option t_ns (parse_iso_time l s) = map_option t_ns (parse_iso_time l' s)"
  by (auto simp: parse_iso_time_def parse_rfc3339_def Let_def
      split: option.splits Option.bind_splits prod.splits)

definition age_days :: "any \<Rightarrow> gtime option \<Rightarrow> f64 option" where
  "age_days first_seen now =
     (case (first_seen, now) of
        (VStr s, Some n) \<Rightarrow>
          if s = [] then None
          else map_option (\<lambda>seen_at. f_div (hours (t_sub n seen_at)) (f_num 24)) (parse_iso_time utc s)
      | _ \<Rightarrow> None)"

definition values_contain :: "any list \<Rightarrow> string \<Rightarrow> bool" where
  "values_contain vs want \<longleftrightarrow> list_ex (\<lambda>v. sprint v = want) vs"

definition format_thousands :: "f64 \<Rightarrow> string" where
  "format_thousands v =
     (let s0 = fmt_fixed 0 v; neg = has_prefix s0 ''-'';
          s = (if neg then tl s0 else s0);
          out = concat (map (\<lambda>i. (if 0 < i \<and> (length s - i) mod 3 = 0 then '','' else []) @ [s ! i])
                          [0..<length s])
      in if neg then ''-'' @ out else out)"

section \<open>Classification\<close>

definition or_default :: "string \<Rightarrow> string \<Rightarrow> string" where
  "or_default s def = (if s = [] then def else s)"

definition breached :: "string \<Rightarrow> f64 \<Rightarrow> f64 \<Rightarrow> bool" where
  "breached direction v limit \<longleftrightarrow>
     (direction = ''above'' \<and> f_gt v limit) \<or> (direction = ''below'' \<and> f_lt v limit)"

definition age_gated :: "rule \<Rightarrow> observation \<Rightarrow> gtime option \<Rightarrow> bool" where
  \<comment> \<open>a minimum age is set and the observation has not reached it (or has no known age)\<close>
  "age_gated rule obs now \<longleftrightarrow>
     (case ru_min_age_days rule of None \<Rightarrow> False
      | Some m \<Rightarrow> (case age_days (o_first_seen obs) now of None \<Rightarrow> True | Some age \<Rightarrow> f_lt age m))"

definition levels :: "rule \<Rightarrow> (string \<times> f64 option) list" where
  "levels rule = [(''crit'', ru_crit rule), (''warn'', ru_warn rule)]"

fun first_breach :: "string \<Rightarrow> f64 \<Rightarrow> (string \<times> f64 option) list \<Rightarrow> (string \<times> f64) option" where
  \<comment> \<open>the loop over \<open>[]string{"crit", "warn"}\<close> up to its first breached limit\<close>
  "first_breach direction v [] = None"
| "first_breach direction v ((level, limit) # ls) =
     (case limit of None \<Rightarrow> first_breach direction v ls
      | Some l \<Rightarrow> if breached direction v l then Some (level, l) else first_breach direction v ls)"

definition classify_threshold :: "observation \<Rightarrow> rule \<Rightarrow> gtime option \<Rightarrow> string \<times> observation" where
  "classify_threshold obs rule now =
     (case numeric (o_value obs) of None \<Rightarrow> (''info'', obs)
      | Some v \<Rightarrow>
          let direction = or_default (ru_direction rule) ''above''
          in case first_breach direction v (levels rule) of
               Some (level, limit) \<Rightarrow>
                 if age_gated rule obs now then (''info'', obs)
                 else (level, obs\<lparr>o_threshold := VF64 limit\<rparr>)
             | None \<Rightarrow>
                 (case ru_notice rule of None \<Rightarrow> (''info'', obs)
                  | Some n \<Rightarrow>
                      if breached direction v n
                      then (''info'', obs\<lparr>o_notice := True, o_threshold := VF64 n\<rparr>)
                      else (''info'', obs)))"

definition spikes :: "rule \<Rightarrow> f64 \<Rightarrow> f64 option \<Rightarrow> bool" where
  "spikes rule v previous =
     (let factor = (case ru_spike_factor rule of Some f \<Rightarrow> f | None \<Rightarrow> f_num 3);
          floor = (case ru_spike_floor rule of Some f \<Rightarrow> f | None \<Rightarrow> f_zero)
      in case previous of None \<Rightarrow> False
         | Some p \<Rightarrow> f_gt p f_zero \<and> f_ge v floor \<and> f_ge v (f_mul p factor))"

definition spike_message :: "observation \<Rightarrow> f64 \<Rightarrow> f64 \<Rightarrow> string" where
  "spike_message obs v p =
     o_message obs @ '' '' @ em_dash @ '' up '' @ fmt_fixed 1 (f_div v p) @ ''x from ''
       @ format_thousands p"

definition classify_spike :: "observation \<Rightarrow> rule \<Rightarrow> string \<times> observation" where
  "classify_spike obs rule =
     (case numeric (o_value obs) of None \<Rightarrow> (''info'', obs)
      | Some v \<Rightarrow>
          (case first_breach (or_default (ru_direction rule) ''above'') v (levels rule) of
             Some (level, limit) \<Rightarrow> (level, obs\<lparr>o_threshold := VF64 limit\<rparr>)
           | None \<Rightarrow>
               if spikes rule v (numeric (o_previous_value obs)) then
                 (or_default (ru_spike_level rule) ''warn'',
                  obs\<lparr>o_message := spike_message obs v (the (numeric (o_previous_value obs)))\<rparr>)
               else (''info'', obs)))"

definition match_severity :: "observation \<Rightarrow> rule \<Rightarrow> bool \<Rightarrow> gtime option \<Rightarrow> string" where
  \<comment> \<open>the cases \<open>equals\<close> to \<open>new_only\<close> of the switch, which assign no field of the observation\<close>
  "match_severity obs rule is_new now =
     (let level = or_default (ru_level rule) ''warn'' in
      if ru_type rule = ''equals'' then
        (if values_contain (ru_crit_values rule) (sprint (o_value obs)) then ''crit''
         else if values_contain (ru_warn_values rule) (sprint (o_value obs)) then ''warn''
         else ''info'')
      else if ru_type rule = ''not_equals'' then
        (if \<not> values_contain (ru_ok_values rule) (sprint (o_value obs)) then level else ''info'')
      else if ru_type rule = ''truthy'' then (if truthy (o_value obs) then level else ''info'')
      else if ru_type rule = ''falsy'' then (if \<not> truthy (o_value obs) then level else ''info'')
      else if ru_type rule = ''present'' then (if age_gated rule obs now then ''info'' else level)
      else if ru_type rule = ''new_only'' then (if is_new then level else ''info'')
      else ''info'')"

definition classify :: "observation \<Rightarrow> rule \<Rightarrow> bool \<Rightarrow> gtime option \<Rightarrow> string \<times> observation" where
  "classify obs0 rule is_new now =
     (let obs = obs0\<lparr>o_notice := False\<rparr> in
      if ru_type rule = [] then (''info'', obs)
      else if ru_subjects rule \<noteq> [] \<and> o_subject obs \<notin> set (ru_subjects rule) then (''info'', obs)
      else if ru_type rule = ''threshold'' then classify_threshold obs rule now
      else if ru_type rule = ''threshold_or_spike'' then classify_spike obs rule
      else (match_severity obs rule is_new now, obs))"

definition rule_for :: "rules_file \<Rightarrow> string \<Rightarrow> rule" where
  "rule_for rules kind = (case mget rules kind of Some r \<Rightarrow> r | None \<Rightarrow> no_rule)"

definition apply_one :: "rules_file \<Rightarrow> (string \<Rightarrow> bool) \<Rightarrow> gtime option \<Rightarrow> observation \<Rightarrow> observation" where
  "apply_one rules new_ids now obs =
     (let (sev, obs') = classify obs (rule_for rules (o_kind obs)) (new_ids (o_id obs)) now
      in obs'\<lparr>o_severity := sev\<rparr>)"

definition apply_rules :: "observation list \<Rightarrow> rules_file \<Rightarrow> (string \<Rightarrow> bool) \<Rightarrow> gtime option \<Rightarrow> observation list" where
  "apply_rules observations rules new_ids now = map (apply_one rules new_ids now) observations"

section \<open>Lemmas\<close>

text \<open>What classification writes: only the notice flag, the threshold and the message.\<close>

definition reclassified :: "observation \<Rightarrow> observation \<Rightarrow> bool" where
  "reclassified obs obs' \<longleftrightarrow>
     obs' = obs\<lparr>o_notice := o_notice obs', o_threshold := o_threshold obs', o_message := o_message obs'\<rparr>"

lemma reclassified_refl: "reclassified obs obs"
  by (simp add: reclassified_def)

lemma reclassified_notice: "reclassified obs (obs\<lparr>o_notice := n\<rparr>)"
  by (simp add: reclassified_def)

lemma reclassified_trans: "reclassified a b \<Longrightarrow> reclassified b c \<Longrightarrow> reclassified a c"
  by (cases a; cases b; cases c) (simp add: reclassified_def)

lemma threshold_reclassified: "reclassified obs (snd (classify_threshold obs rule now))"
  by (simp add: classify_threshold_def reclassified_def Let_def split: option.splits prod.splits)

lemma spike_reclassified: "reclassified obs (snd (classify_spike obs rule))"
  by (simp add: classify_spike_def reclassified_def split: option.splits prod.splits)

text \<open>The two value rules are functions of their own; every other branch only picks a severity.\<close>

lemma match_levels:
  "match_severity obs rule is_new now \<in> {''info'', ''warn'', ''crit'', or_default (ru_level rule) ''warn''}"
  by (simp add: match_severity_def Let_def)

lemma classify_branches:
  "classify obs rule is_new now \<in>
     {classify_threshold (obs\<lparr>o_notice := False\<rparr>) rule now, classify_spike (obs\<lparr>o_notice := False\<rparr>) rule,
      (''info'', obs\<lparr>o_notice := False\<rparr>),
      (match_severity (obs\<lparr>o_notice := False\<rparr>) rule is_new now, obs\<lparr>o_notice := False\<rparr>)}"
  by (simp add: classify_def Let_def)

lemma classify_reclassified: "reclassified obs (snd (classify obs rule is_new now))"
  using classify_branches [of obs rule is_new now]
    reclassified_trans [OF reclassified_notice [of obs False] threshold_reclassified]
    reclassified_trans [OF reclassified_notice [of obs False] spike_reclassified]
    reclassified_notice [of obs False]
  by (auto simp del: fst_conv)

lemma reclassified_frame [go_frame]:
  assumes "reclassified obs obs'"
  shows "o_id obs' = o_id obs" "o_kind obs' = o_kind obs" "o_subject obs' = o_subject obs"
    "o_value obs' = o_value obs" "o_severity obs' = o_severity obs"
    "o_first_seen obs' = o_first_seen obs" "o_previous_value obs' = o_previous_value obs"
    "o_collector obs' = o_collector obs" "o_unit obs' = o_unit obs" "o_evidence obs' = o_evidence obs"
  by (subst assms [unfolded reclassified_def], simp)+

lemma apply_one_eq:
  "apply_one rules new_ids now obs =
     (snd (classify obs (rule_for rules (o_kind obs)) (new_ids (o_id obs)) now))
       \<lparr>o_severity := fst (classify obs (rule_for rules (o_kind obs)) (new_ids (o_id obs)) now)\<rparr>"
  by (simp add: apply_one_def Let_def split_beta)

lemma apply_one_frame [go_frame, simp]:
  "o_id (apply_one rules new_ids now obs) = o_id obs"
  "o_kind (apply_one rules new_ids now obs) = o_kind obs"
  "o_subject (apply_one rules new_ids now obs) = o_subject obs"
  "o_value (apply_one rules new_ids now obs) = o_value obs"
  "o_first_seen (apply_one rules new_ids now obs) = o_first_seen obs"
  "o_previous_value (apply_one rules new_ids now obs) = o_previous_value obs"
  using reclassified_frame [OF classify_reclassified] by (simp_all add: apply_one_eq)

lemma first_breach_cases:
  assumes "first_breach d v (levels rule) = Some (level, l)"
  shows "breached d v l \<and>
    (level = ''crit'' \<and> ru_crit rule = Some l \<or>
     level = ''warn'' \<and> ru_warn rule = Some l \<and> (\<forall>c. ru_crit rule = Some c \<longrightarrow> \<not> breached d v c))"
  using assms by (auto simp: levels_def split: option.splits if_splits)

lemma first_breach_level:
  "first_breach d v (levels rule) = Some (level, l) \<Longrightarrow> level \<in> {''crit'', ''warn''}"
  by (auto dest: first_breach_cases)

text \<open>Every severity a rule can produce.\<close>

definition rule_levels :: "rule \<Rightarrow> string set" where
  "rule_levels rule =
     {''info'', ''warn'', ''crit''} \<union> {or_default (ru_level rule) ''warn'', or_default (ru_spike_level rule) ''warn''}"

lemma threshold_levels: "fst (classify_threshold obs rule now) \<in> {''info'', ''warn'', ''crit''}"
  by (auto simp: classify_threshold_def Let_def dest!: first_breach_level
      split: option.splits prod.splits if_splits)

lemma spike_levels:
  "fst (classify_spike obs rule) \<in> {''info'', ''warn'', ''crit'', or_default (ru_spike_level rule) ''warn''}"
  by (auto simp: classify_spike_def dest!: first_breach_level split: option.splits prod.splits if_splits)

lemma classify_levels: "fst (classify obs rule is_new now) \<in> rule_levels rule"
  using classify_branches [of obs rule is_new now]
    threshold_levels [of "obs\<lparr>o_notice := False\<rparr>" rule now]
    spike_levels [of "obs\<lparr>o_notice := False\<rparr>" rule]
    match_levels [of "obs\<lparr>o_notice := False\<rparr>" rule is_new now]
  by (auto simp: rule_levels_def)

lemma threshold_notice:
  "\<not> o_notice obs \<Longrightarrow> o_notice (snd (classify_threshold obs rule now)) \<Longrightarrow>
     fst (classify_threshold obs rule now) = ''info''"
  by (auto simp: classify_threshold_def Let_def split: option.splits prod.splits if_splits)

lemma spike_notice: "o_notice (snd (classify_spike obs rule)) = o_notice obs"
  by (auto simp: classify_spike_def split: option.splits prod.splits if_splits)

lemma classify_notice: "o_notice (snd (classify obs rule is_new now)) \<Longrightarrow> fst (classify obs rule is_new now) = ''info''"
  using classify_branches [of obs rule is_new now]
    threshold_notice [of "obs\<lparr>o_notice := False\<rparr>" rule now]
    spike_notice [of "obs\<lparr>o_notice := False\<rparr>" rule]
  by auto

lemma breached_mono:
  "breached ''above'' v l \<Longrightarrow> f_le v w \<Longrightarrow> breached ''above'' w l"
  by (auto simp: breached_def intro: f_lt_le_trans)

lemma first_breach_mono:
  assumes "f_le v w" "first_breach ''above'' v (levels rule) = Some (level, l)"
  shows "\<exists>level' l'. first_breach ''above'' w (levels rule) = Some (level', l')
           \<and> severity_rank level \<le> severity_rank level'"
proof -
  have m: "breached ''above'' w x" if "breached ''above'' v x" for x
    using that assms(1) by (rule breached_mono)
  from assms(2) show ?thesis
    by (cases "ru_crit rule"; cases "ru_warn rule")
      (auto simp: levels_def severity_rank_cases m split: if_splits)
qed

lemma classify_threshold_mono:
  assumes "f_le v w" "ru_direction rule \<in> {[], ''above''}"
    and "numeric (o_value obs) = Some v" "numeric (o_value obs') = Some w"
    and "o_first_seen obs' = o_first_seen obs"
  shows "severity_rank (fst (classify_threshold obs rule now)) \<le>
         severity_rank (fst (classify_threshold obs' rule now))"
proof -
  have g: "age_gated rule obs' now = age_gated rule obs now"
    unfolding age_gated_def assms(5) ..
  have d: "or_default (ru_direction rule) ''above'' = ''above''"
    using assms(2) by (auto simp: or_default_def)
  have z: "severity_rank ''info'' = 0" "0 \<le> severity_rank s" for s
    by (simp_all add: severity_rank_cases)
  show ?thesis
  proof (cases "first_breach ''above'' v (levels rule)")
    case None
    then have "fst (classify_threshold obs rule now) = ''info''"
      using assms(3) by (simp add: classify_threshold_def Let_def d split: option.split)
    then show ?thesis by (simp add: z)
  next
    case (Some x)
    obtain level l where x: "x = (level, l)" by (cases x)
    from first_breach_mono [OF assms(1) Some [unfolded x]] obtain level' l' where
      "first_breach ''above'' w (levels rule) = Some (level', l')"
      "severity_rank level \<le> severity_rank level'" by blast
    with Some x assms(3,4) show ?thesis
      by (simp add: classify_threshold_def Let_def d g)
  qed
qed

section \<open>Properties\<close>

text \<open>
  A threshold rule is monotone in the measured value: of two observations of the same
  kind, subject and first-seen date, the one with the larger value never gets the milder severity
  under a rule whose direction is \<open>above\<close> (or not given), whatever limits the rule states and in
  whatever order they are.
\<close>

theorem threshold_monotone:
  assumes "ru_type rule = ''threshold''" "ru_direction rule \<in> {[], ''above''}"
    and "numeric (o_value obs) = Some v" "numeric (o_value obs') = Some w" "f_le v w"
    and "o_subject obs' = o_subject obs" "o_first_seen obs' = o_first_seen obs"
  shows "severity_rank (fst (classify obs rule is_new now)) \<le>
         severity_rank (fst (classify obs' rule is_new' now))"
  using assms
    classify_threshold_mono [OF assms(5) assms(2), of "obs\<lparr>o_notice := False\<rparr>" "obs'\<lparr>o_notice := False\<rparr>" now]
  by (simp add: classify_def Let_def)

definition sample_rule :: rule where
  "sample_rule = no_rule\<lparr>ru_type := ''threshold'', ru_warn := Some (f_num 80), ru_crit := Some (f_num 90),
                         ru_min_age_days := Some (f_num 7)\<rparr>"

definition sample_value :: "any \<Rightarrow> string \<Rightarrow> observation" where
  "sample_value v first_seen =
     (new_observation ''disk'' ''c'' ''s'' ''k'' ''m'')\<lparr>o_value := v, o_first_seen := VStr first_seen\<rparr>"

theorem threshold_monotone_witness:
  "severity_rank (fst (classify (sample_value (VInt 85) []) (sample_rule\<lparr>ru_min_age_days := None\<rparr>) False None)) = 1 \<and>
   1 \<le> severity_rank (fst (classify (sample_value (VInt 95) []) (sample_rule\<lparr>ru_min_age_days := None\<rparr>) True None))"
proof -
  have "severity_rank (fst (classify (sample_value (VInt 85) []) (sample_rule\<lparr>ru_min_age_days := None\<rparr>) False None)) = 1"
    by code_simp
  moreover have "f_le (f_of_int 85) (f_of_int 95)" by code_simp
  ultimately show ?thesis
    using threshold_monotone [of "sample_rule\<lparr>ru_min_age_days := None\<rparr>" "sample_value (VInt 85) []"
        "f_of_int 85" "sample_value (VInt 95) []" "f_of_int 95" False None True]
    by (simp add: sample_rule_def no_rule_def sample_value_def new_observation_def)
qed

text \<open>
  Claim C10. Classification writes nothing but the severity, the notice flag, the threshold and
  the message of each observation, in place; a notice is only ever attached to the severity
  \<open>info\<close>; and every severity is \<open>info\<close>, \<open>warn\<close>, \<open>crit\<close> or one of the two levels the rule of
  that kind names itself.
\<close>

theorem apply_rules_sound:
  "let os = apply_rules observations rules new_ids now in
   map (\<lambda>x. x\<lparr>o_severity := [], o_notice := False, o_threshold := VNil, o_message := []\<rparr>) os =
   map (\<lambda>x. x\<lparr>o_severity := [], o_notice := False, o_threshold := VNil, o_message := []\<rparr>) observations \<and>
   set (filter o_notice os) \<subseteq> {x. o_severity x = ''info''} \<and>
   list_all (\<lambda>x. o_severity x \<in> rule_levels (rule_for rules (o_kind x))) os"
proof -
  have e: "(apply_one rules new_ids now x)\<lparr>o_severity := [], o_notice := False, o_threshold := VNil, o_message := []\<rparr> =
      x\<lparr>o_severity := [], o_notice := False, o_threshold := VNil, o_message := []\<rparr>" for x
    unfolding apply_one_eq
    by (subst classify_reclassified [unfolded reclassified_def]) simp
  have n: "o_notice (apply_one rules new_ids now x) \<Longrightarrow> o_severity (apply_one rules new_ids now x) = ''info''" for x
    by (auto simp: apply_one_eq dest: classify_notice)
  have l: "o_severity (apply_one rules new_ids now x) \<in> rule_levels (rule_for rules (o_kind x))" for x
    using classify_levels by (simp add: apply_one_eq)
  show ?thesis
    using n l by (auto simp: apply_rules_def Let_def e list_all_iff)
qed

text \<open>
  A minimum age really gates: under a rule with \<open>min_age_days\<close> of the types that read it
  (\<open>threshold\<close> and \<open>present\<close>), an observation that has no readable first-seen date, or one younger
  than the minimum, is classified as info whatever its value.
\<close>

theorem min_age_gates:
  assumes "ru_type rule \<in> {''threshold'', ''present''}" "ru_min_age_days rule = Some m"
    and "age_days (o_first_seen obs) now = None \<or>
         (\<exists>age. age_days (o_first_seen obs) now = Some age \<and> f_lt age m)"
  shows "fst (classify obs rule is_new now) = ''info''"
proof -
  have g: "age_gated rule (obs\<lparr>o_notice := False\<rparr>) now"
    using assms(2,3) by (auto simp: age_gated_def)
  have t: "fst (classify_threshold (obs\<lparr>o_notice := False\<rparr>) rule now) = ''info''"
    by (simp add: classify_threshold_def Let_def g split: option.split)
  from assms(1) consider "ru_type rule = ''threshold''" | "ru_type rule = ''present''" by blast
  then show ?thesis
    by cases (simp_all add: classify_def match_severity_def Let_def t g)
qed

theorem min_age_gates_witness:
  "fst (classify (sample_value (VInt 99) ''2026-01-01T00:00:00Z'') sample_rule False
          (parse_iso_time utc ''2026-01-05T00:00:00Z'')) = ''info'' \<and>
   fst (classify (sample_value (VInt 99) ''2026-01-01T00:00:00Z'') sample_rule False
          (parse_iso_time utc ''2026-01-09T00:00:00Z'')) = ''crit''"
proof
  have a: "age_days (VStr ''2026-01-01T00:00:00Z'') (parse_iso_time utc ''2026-01-05T00:00:00Z'') = Some (f_num 4)"
    "f_lt (f_num 4) (f_num 7)"
    by code_simp+
  show "fst (classify (sample_value (VInt 99) ''2026-01-01T00:00:00Z'') sample_rule False
          (parse_iso_time utc ''2026-01-05T00:00:00Z'')) = ''info''"
    by (rule min_age_gates [where m = "f_num 7"])
      (use a in \<open>simp_all add: sample_rule_def sample_value_def\<close>)
  show "fst (classify (sample_value (VInt 99) ''2026-01-01T00:00:00Z'') sample_rule False
          (parse_iso_time utc ''2026-01-09T00:00:00Z'')) = ''crit''"
    by code_simp
qed

text \<open>
  A spike needs a history: without a positive numeric value from the last run a
  \<open>threshold_or_spike\<close> rule is decided by its limits alone and never rewrites the message, so a
  first sighting cannot be reported as a jump; with one, a value that is below the spike floor or
  below the factor times the last value is no spike either.
\<close>

theorem spike_needs_history:
  assumes "ru_type rule = ''threshold_or_spike''" "numeric (o_value obs) = Some v"
    and "case numeric (o_previous_value obs) of None \<Rightarrow> True
         | Some p \<Rightarrow> \<not> f_gt p f_zero \<or>
             \<not> f_ge v (case ru_spike_floor rule of Some f \<Rightarrow> f | None \<Rightarrow> f_zero) \<or>
             \<not> f_ge v (f_mul p (case ru_spike_factor rule of Some f \<Rightarrow> f | None \<Rightarrow> f_num 3))"
  shows "o_message (snd (classify obs rule is_new now)) = o_message obs \<and>
    (fst (classify obs rule is_new now) = ''info'' \<or>
     (\<exists>l. breached (or_default (ru_direction rule) ''above'') v l \<and>
       (fst (classify obs rule is_new now) = ''crit'' \<and> ru_crit rule = Some l \<or>
        fst (classify obs rule is_new now) = ''warn'' \<and> ru_warn rule = Some l)))"
proof -
  let ?obs = "obs\<lparr>o_notice := False\<rparr>"
  have no: "\<not> spikes rule v (numeric (o_previous_value obs))"
    using assms(3) by (cases "numeric (o_previous_value obs)") (auto simp: spikes_def Let_def)
  have m: "o_message (snd (classify_spike ?obs rule)) = o_message obs"
    using no assms(2) by (simp add: classify_spike_def split: option.split)
  have s: "fst (classify_spike ?obs rule) = ''info'' \<or>
     (\<exists>l. breached (or_default (ru_direction rule) ''above'') v l \<and>
       (fst (classify_spike ?obs rule) = ''crit'' \<and> ru_crit rule = Some l \<or>
        fst (classify_spike ?obs rule) = ''warn'' \<and> ru_warn rule = Some l))"
    using no assms(2) by (auto simp: classify_spike_def dest!: first_breach_cases split: option.split)
  from m s assms(1) show ?thesis by (simp add: classify_def Let_def)
qed

theorem spike_needs_history_witness:
  "fst (classify (sample_value (VInt 50) []) (no_rule\<lparr>ru_type := ''threshold_or_spike''\<rparr>) False None) = ''info'' \<and>
   fst (classify ((sample_value (VInt 50) [])\<lparr>o_previous_value := VInt 10\<rparr>)
          (no_rule\<lparr>ru_type := ''threshold_or_spike''\<rparr>) False None) = ''warn''"
proof
  show "fst (classify (sample_value (VInt 50) []) (no_rule\<lparr>ru_type := ''threshold_or_spike''\<rparr>) False None) = ''info''"
    using spike_needs_history [of "no_rule\<lparr>ru_type := ''threshold_or_spike''\<rparr>" "sample_value (VInt 50) []"
        "f_of_int 50" False None]
    by (simp add: sample_value_def new_observation_def no_rule_def)
  show "fst (classify ((sample_value (VInt 50) [])\<lparr>o_previous_value := VInt 10\<rparr>)
          (no_rule\<lparr>ru_type := ''threshold_or_spike''\<rparr>) False None) = ''warn''"
    by code_simp
qed

text \<open>
  \<open>Worst\<close> is the maximum of the severities it is given: the result is one of them (or
  \<open>info\<close> when none is a severity), and none of them has a higher rank; in particular the order in
  which the observations arrive does not matter.
\<close>

theorem worst_is_maximum:
  "(worst vs \<in> set vs \<or> worst vs = ''info'') \<and> worst vs \<in> {''info'', ''warn'', ''crit''} \<and>
   list_all (\<lambda>s. severity_rank s \<le> severity_rank (worst vs)) vs \<and> worst (rev vs) = worst vs"
proof -
  let ?xs = "filter (\<lambda>s. 0 \<le> known_rank s) vs"
  have general: "(worst us \<in> set us \<or> worst us = ''info'') \<and> worst us \<in> {''info'', ''warn'', ''crit''} \<and>
      (\<forall>s \<in> set us. severity_rank s \<le> severity_rank (worst us))" for us
  proof (cases "worst_known (filter (\<lambda>s. 0 \<le> known_rank s) us)")
    case None
    then have "\<forall>s \<in> set us. known_rank s < 0" by (auto simp: wk.pick_None filter_empty_conv)
    with None show ?thesis
      by (auto simp: worst_eq severity_rank_cases known_rank_cases split: if_splits)
  next
    case (Some b)
    from wk.pick_in [OF Some] wk.pick_max [OF Some] have
      "b \<in> set us" "0 \<le> known_rank b" "\<forall>s \<in> set us. 0 \<le> known_rank s \<longrightarrow> known_rank s \<le> known_rank b"
      by auto
    with Some show ?thesis
      by (auto simp: worst_eq severity_rank_cases known_rank_cases split: if_splits)
  qed
  have "severity_rank (worst vs) = severity_rank (worst (rev vs))"
  proof (rule antisym)
    show "severity_rank (worst vs) \<le> severity_rank (worst (rev vs))"
      using general [of vs] general [of "rev vs"] by (auto simp: severity_rank_cases)
    show "severity_rank (worst (rev vs)) \<le> severity_rank (worst vs)"
      using general [of vs] general [of "rev vs"] by (auto simp: severity_rank_cases)
  qed
  then have "worst (rev vs) = worst vs"
    using general [of vs] general [of "rev vs"] by (auto simp: severity_rank_cases)
  with general [of vs] show ?thesis by (simp add: list_all_iff)
qed

end
