(* ===== verification/HR_Diff.thy ===== *)
theory HR_Diff
  imports HR_Severity
begin

text \<open>
  Comparison with the last run and the long-lived seen-state,
  \<^verbatim>\<open>src/tools/internal/healthreport/diff.go\<close>.  \<open>compute\<close> takes the observations of this
  run, last run's observations and the seen-state, and returns what the Go function returns and
  mutates: the observations with their first-seen dates, the new seen-state and the diff.

  \<open>currentActionable\<close> maps an id to a pointer; here to a position and the observation found
  there.  \<open>compute\<close> writes only \<open>FirstSeen\<close> through these pointers and reads every other field,
  so reading the observation as it was at the start is reading through the pointer.
\<close>

section \<open>Data\<close>

record seen_record =
  r_first_seen :: string
  r_last_seen :: string
  r_count :: int
  r_last_actionable_run :: "string option"
  r_severity :: string
  r_kind :: string
  r_subject :: string
  r_last_value :: any
  r_resolved_at :: string

type_synonym seen_state = "(string, seen_record) gmap"

record prev_observation =
  p_id :: string
  p_severity :: string

type_synonym previous_facts = "prev_observation list"

record severity_transition =
  tr_id :: string
  tr_from :: string
  tr_to :: string

record diff_result =
  d_new :: "string list"
  d_reopened :: "string list"
  d_worsened :: "severity_transition list"
  d_improved :: "severity_transition list"
  d_resolved :: "string list"
  d_persisting :: "string list"

definition empty_diff :: diff_result where
  "empty_diff = \<lparr>d_new = [], d_reopened = [], d_worsened = [], d_improved = [], d_resolved = [],
                 d_persisting = []\<rparr>"

section \<open>Operations\<close>

definition actionable :: "string \<Rightarrow> bool" where
  "actionable sev \<longleftrightarrow> sev = ''warn'' \<or> sev = ''crit''"

definition previous_ids :: "previous_facts \<Rightarrow> (string, bool) gmap" where
  "previous_ids previous =
     fold (\<lambda>e. mput (p_id e) True) (filter (\<lambda>e. actionable (p_severity e)) previous) []"

definition attach_previous_value :: "seen_state \<Rightarrow> observation \<Rightarrow> observation" where
  "attach_previous_value seen obs =
     (case mget seen (o_id obs) of None \<Rightarrow> obs
      | Some r \<Rightarrow>
          let o1 = obs\<lparr>o_previous_value := r_last_value r\<rparr>
          in if r_first_seen r \<noteq> [] then o1\<lparr>o_first_seen := VStr (r_first_seen r)\<rparr> else o1)"

definition attach_previous_values :: "observation list \<Rightarrow> seen_state \<Rightarrow> observation list" where
  "attach_previous_values observations seen = map (attach_previous_value seen) observations"

fun is_number :: "any \<Rightarrow> bool" where
  "is_number (VF64 _) = True"
| "is_number (VF32 _) = True"
| "is_number (VInt _) = True"
| "is_number (VInt64 _) = True"
| "is_number _ = False"

definition remember_value :: "observation \<Rightarrow> seen_record \<Rightarrow> seen_record" where
  "remember_value obs r = (if is_number (o_value obs) then r\<lparr>r_last_value := o_value obs\<rparr> else r)"

definition previous_by_id :: "previous_facts \<Rightarrow> (string, prev_observation) gmap" where
  "previous_by_id previous = fold (\<lambda>e. mput (p_id e) e) previous []"

definition current_actionable :: "observation list \<Rightarrow> (string, nat \<times> observation) gmap" where
  "current_actionable observations =
     fold (\<lambda>(i, obs). mput (o_id obs) (i, obs))
       (filter (\<lambda>(i, obs). actionable (o_severity obs)) (enumerate 0 observations)) []"

text \<open>The three outcomes of the \<open>if\<close> chain on an actionable id.\<close>

datatype verdict = Persists | Reopens | Appears

definition verdict_of :: "bool \<Rightarrow> seen_record option \<Rightarrow> verdict" where
  "verdict_of was_actionable rec =
     (if was_actionable then Persists
      else case rec of
             Some r \<Rightarrow> if r_last_actionable_run r \<noteq> None then Reopens else Appears
           | None \<Rightarrow> Appears)"

definition note_diff :: "prev_observation option \<Rightarrow> verdict \<Rightarrow> observation \<Rightarrow> string \<Rightarrow> diff_result \<Rightarrow> diff_result" where
  "note_diff previous_entry v obs obs_id d =
     (case v of
        Persists \<Rightarrow>
          let d1 = d\<lparr>d_persisting := d_persisting d @ [obs_id]\<rparr>;
              before_sev = (case previous_entry of
                          Some e \<Rightarrow> if p_severity e \<noteq> [] then p_severity e else ''info''
                        | None \<Rightarrow> ''info'');
              tr = \<lparr>tr_id = obs_id, tr_from = before_sev, tr_to = o_severity obs\<rparr>
          in if severity_rank before_sev < severity_rank (o_severity obs)
             then d1\<lparr>d_worsened := d_worsened d1 @ [tr]\<rparr>
             else if severity_rank (o_severity obs) < severity_rank before_sev
             then d1\<lparr>d_improved := d_improved d1 @ [tr]\<rparr>
             else d1
      | Reopens \<Rightarrow> d\<lparr>d_reopened := d_reopened d @ [obs_id]\<rparr>
      | Appears \<Rightarrow> d\<lparr>d_new := d_new d @ [obs_id]\<rparr>)"

definition record_actionable :: "string \<Rightarrow> bool \<Rightarrow> observation \<Rightarrow> seen_record option \<Rightarrow> string \<times> seen_record" where
  \<comment> \<open>the first-seen date the observation gets, and the record after the round\<close>
  "record_actionable now is_reopened obs rec =
     (case rec of
        Some r \<Rightarrow>
          let (fs, r1) =
                (if is_reopened then (now, r\<lparr>r_first_seen := now, r_resolved_at := []\<rparr>)
                 else if r_first_seen r \<noteq> [] then (r_first_seen r, r)
                 else (now, r));
              r2 = r1\<lparr>r_last_seen := now, r_count := r_count r1 + 1,
                      r_last_actionable_run := Some now, r_severity := o_severity obs\<rparr>
          in (fs, remember_value obs r2)
      | None \<Rightarrow>
          (now, remember_value obs
                  \<lparr>r_first_seen = now, r_last_seen = now, r_count = 1,
                   r_last_actionable_run = Some now, r_severity = o_severity obs,
                   r_kind = o_kind obs, r_subject = o_subject obs, r_last_value = VNil,
                   r_resolved_at = []\<rparr>))"

definition record_quiet :: "string \<Rightarrow> observation \<Rightarrow> seen_record option \<Rightarrow> string \<times> seen_record" where
  "record_quiet now obs rec =
     (case rec of
        Some r \<Rightarrow>
          ((if r_first_seen r \<noteq> [] then r_first_seen r else now),
           remember_value obs (r\<lparr>r_last_seen := now, r_count := r_count r + 1\<rparr>))
      | None \<Rightarrow>
          (now, remember_value obs
                  \<lparr>r_first_seen = now, r_last_seen = now, r_count = 1,
                   r_last_actionable_run = None, r_severity = o_severity obs,
                   r_kind = o_kind obs, r_subject = o_subject obs, r_last_value = VNil,
                   r_resolved_at = []\<rparr>))"

record compute_state =
  s_obs :: "observation list"
  s_seen :: seen_state
  s_diff :: diff_result

definition set_first_seen :: "nat \<Rightarrow> string \<Rightarrow> observation list \<Rightarrow> observation list" where
  "set_first_seen i fs os = os[i := (os ! i)\<lparr>o_first_seen := VStr fs\<rparr>]"

definition actionable_round ::
  "string \<Rightarrow> (string, prev_observation) gmap \<Rightarrow> (string, bool) gmap \<Rightarrow>
   (string, nat \<times> observation) gmap \<Rightarrow> string \<Rightarrow> compute_state \<Rightarrow> compute_state" where
  "actionable_round now by_id was cur obs_id st =
     (case mget cur obs_id of None \<Rightarrow> st
      | Some (i, obs) \<Rightarrow>
          let rec = mget (s_seen st) obs_id;
              v = verdict_of (mget was obs_id = Some True) rec;
              (fs, r) = record_actionable now (v = Reopens) obs rec
          in \<lparr>s_obs = set_first_seen i fs (s_obs st),
              s_seen = mput obs_id r (s_seen st),
              s_diff = note_diff (mget by_id obs_id) v obs obs_id (s_diff st)\<rparr>)"

definition resolved_ids :: "(string, bool) gmap \<Rightarrow> (string, nat \<times> observation) gmap \<Rightarrow> string list" where
  "resolved_ids was cur = sort (filter (\<lambda>i. \<not> mhas cur i) (mkeys was))"

definition resolve_round :: "string \<Rightarrow> string \<Rightarrow> seen_state \<Rightarrow> seen_state" where
  "resolve_round now = madjust (\<lambda>r. r\<lparr>r_resolved_at := now\<rparr>)"

definition quiet_round ::
  "string \<Rightarrow> (string, nat \<times> observation) gmap \<Rightarrow> nat \<times> observation \<Rightarrow> compute_state \<Rightarrow> compute_state" where
  "quiet_round now cur io st =
     (let (i, obs) = io in
      if mhas cur (o_id obs) then st
      else let (fs, r) = record_quiet now obs (mget (s_seen st) (o_id obs))
           in st\<lparr>s_obs := set_first_seen i fs (s_obs st), s_seen := mput (o_id obs) r (s_seen st)\<rparr>)"

definition compute ::
  "observation list \<Rightarrow> previous_facts \<Rightarrow> seen_state \<Rightarrow> string \<Rightarrow> compute_state" where
  "compute observations previous seen now =
     (let by_id = previous_by_id previous;
          cur = current_actionable observations;
          was = previous_ids previous;
          st1 = fold (actionable_round now by_id was cur) (sorted_keys cur)
                  \<lparr>s_obs = observations, s_seen = seen, s_diff = empty_diff\<rparr>;
          resolved = resolved_ids was cur;
          st2 = st1\<lparr>s_diff := (s_diff st1)\<lparr>d_resolved := resolved\<rparr>,
                    s_seen := fold (resolve_round now) resolved (s_seen st1)\<rparr>
      in fold (quiet_round now cur) (enumerate 0 observations) st2)"

text \<open>\<open>PruneSeen\<close>: the map after the deletions, and how many there were.\<close>

definition is_stale :: "zone \<Rightarrow> string \<Rightarrow> gtime \<Rightarrow> seen_record \<Rightarrow> bool" where
  "is_stale local now_iso cutoff r \<longleftrightarrow>
     \<not> (r_last_actionable_run r = Some now_iso) \<and> r_last_seen r \<noteq> [] \<and>
     (case parse_iso_time local (r_last_seen r) of None \<Rightarrow> False | Some t \<Rightarrow> t_before t cutoff)"

definition prune_seen :: "zone \<Rightarrow> seen_state \<Rightarrow> string \<Rightarrow> int \<Rightarrow> seen_state \<times> nat" where
  "prune_seen local seen now_iso retention_days =
     (case parse_iso_time local now_iso of None \<Rightarrow> (seen, 0)
      | Some now \<Rightarrow>
          let cutoff = add_days (- retention_days) now;
              stale = map fst (filter (\<lambda>(i, r). is_stale local now_iso cutoff r) seen)
          in (fold mdel stale seen, length stale))"

section \<open>Lemmas\<close>

subsection \<open>The maps built first\<close>

definition prev_actionable :: "previous_facts \<Rightarrow> string set" where
  "prev_actionable previous = p_id ` {e \<in> set previous. actionable (p_severity e)}"

definition now_actionable :: "observation list \<Rightarrow> string set" where
  "now_actionable observations = o_id ` {obs \<in> set observations. actionable (o_severity obs)}"

lemma map_ok_previous_ids [simp]: "map_ok (previous_ids previous)"
  unfolding previous_ids_def by (rule gm.inv_fold_put) simp

lemma dom_previous_ids [simp]: "dom (mget (previous_ids previous)) = prev_actionable previous"
  unfolding previous_ids_def
  by (subst gm.dom_fold_put) (auto simp: prev_actionable_def)

lemma previous_ids_True: "mget (previous_ids previous) k = Some True \<longleftrightarrow> k \<in> prev_actionable previous"
proof -
  have "mget (previous_ids previous) k = Some b \<Longrightarrow> b" for b
    unfolding previous_ids_def
    by (subst (asm) gm.get_fold_put) (auto split: option.splits)
  moreover have "k \<in> prev_actionable previous \<longleftrightarrow> (\<exists>b. mget (previous_ids previous) k = Some b)"
    by (simp flip: dom_previous_ids add: dom_def)
  ultimately show ?thesis by auto
qed

lemma current_actionable_fold:
  "current_actionable observations =
     fold (\<lambda>x. mput (o_id (snd x)) x)
       (filter (\<lambda>x. actionable (o_severity (snd x))) (enumerate 0 observations)) []"
  by (simp add: current_actionable_def case_prod_unfold)

lemma map_ok_current_actionable [simp]: "map_ok (current_actionable observations)"
  unfolding current_actionable_fold
  by (rule gm.inv_fold_put [where key = "\<lambda>x. o_id (snd x)" and val = "\<lambda>x. x"]) simp

lemma dom_current_actionable [simp]:
  "dom (mget (current_actionable observations)) = now_actionable observations"
proof -
  have "dom (mget (current_actionable observations)) =
      (\<lambda>x. o_id (snd x)) ` {x \<in> set (enumerate 0 observations). actionable (o_severity (snd x))}"
    unfolding current_actionable_fold
    by (subst gm.dom_fold_put [where key = "\<lambda>x. o_id (snd x)" and val = "\<lambda>x. x"]) simp
  also have "\<dots> = now_actionable observations"
  proof -
    have "set observations = snd ` set (enumerate 0 observations)"
      by (metis list.set_map map_snd_enumerate)
    then show ?thesis by (auto simp: now_actionable_def)
  qed
  finally show ?thesis .
qed

lemma mhas_current [simp]: "mhas (current_actionable observations) k \<longleftrightarrow> k \<in> now_actionable observations"
  by (simp add: mhas_iff)

lemma current_actionable_get:
  assumes "mget (current_actionable observations) k = Some (i, obs)"
  shows "i < length observations" "observations ! i = obs" "o_id obs = k" "actionable (o_severity obs)"
proof -
  let ?P = "\<lambda>x. actionable (o_severity (snd x))"
  let ?xs = "filter ?P (enumerate 0 observations)"
  have "mget (fold (\<lambda>x. mput (o_id (snd x)) x) ?xs []) k =
      (case find (\<lambda>x. o_id (snd x) = k) (rev ?xs) of Some x \<Rightarrow> Some x | None \<Rightarrow> None)"
    by (subst gm.get_fold_put [where key = "\<lambda>x. o_id (snd x)" and val = "\<lambda>x. x"])
      (simp split: option.split)
  with assms have "find (\<lambda>x. o_id (snd x) = k) (rev ?xs) = Some (i, obs)"
    by (simp add: current_actionable_fold split: option.splits)
  then have "(i, obs) \<in> set ?xs" "o_id obs = k"
    by (auto dest: find_SomeD)
  then show "i < length observations" "observations ! i = obs" "o_id obs = k" "actionable (o_severity obs)"
    by (auto simp: in_set_enumerate_eq)
qed

subsection \<open>The loop over the actionable ids\<close>

definition verdict_at :: "(string, bool) gmap \<Rightarrow> seen_state \<Rightarrow> string \<Rightarrow> verdict" where
  "verdict_at was seen k = verdict_of (mget was k = Some True) (mget seen k)"

definition act_upd ::
  "string \<Rightarrow> (string, bool) gmap \<Rightarrow> (string, nat \<times> observation) gmap \<Rightarrow> string \<Rightarrow>
   seen_record option \<Rightarrow> seen_record option" where
  "act_upd now was cur k rec =
     (case mget cur k of None \<Rightarrow> rec
      | Some (i, obs) \<Rightarrow>
          Some (snd (record_actionable now (verdict_of (mget was k = Some True) rec = Reopens) obs rec)))"

interpretation act: pointwise_loop "actionable_round now by_id was cur" "\<lambda>st. mget (s_seen st)"
  "act_upd now was cur" for now by_id was cur
  by unfold_locales
    (simp_all add: actionable_round_def act_upd_def Let_def split: option.split prod.split)

lemma note_diff_lists [go_step]:
  "d_new (note_diff e v obs k d) = d_new d @ (if v = Appears then [k] else [])"
  "d_reopened (note_diff e v obs k d) = d_reopened d @ (if v = Reopens then [k] else [])"
  "d_persisting (note_diff e v obs k d) = d_persisting d @ (if v = Persists then [k] else [])"
  "d_resolved (note_diff e v obs k d) = d_resolved d"
  by (cases v; simp add: note_diff_def Let_def)+

definition severity_before :: "prev_observation option \<Rightarrow> string" where
  "severity_before e =
     (case e of Some p \<Rightarrow> if p_severity p \<noteq> [] then p_severity p else ''info'' | None \<Rightarrow> ''info'')"

definition transition_of :: "prev_observation option \<Rightarrow> observation \<Rightarrow> string \<Rightarrow> severity_transition" where
  "transition_of e obs k = \<lparr>tr_id = k, tr_from = severity_before e, tr_to = o_severity obs\<rparr>"

lemma note_diff_transitions [go_step]:
  "d_worsened (note_diff e v obs k d) = d_worsened d @
     (if v = Persists \<and> severity_rank (severity_before e) < severity_rank (o_severity obs)
      then [transition_of e obs k] else [])"
  "d_improved (note_diff e v obs k d) = d_improved d @
     (if v = Persists \<and> severity_rank (o_severity obs) < severity_rank (severity_before e)
      then [transition_of e obs k] else [])"
  by (cases v; simp add: note_diff_def Let_def transition_of_def severity_before_def)+

lemma actionable_round_diff:
  assumes "mget cur k = Some (i, obs)"
  shows "s_diff (actionable_round now by_id was cur k st) =
    note_diff (mget by_id k) (verdict_at was (s_seen st) k) obs k (s_diff st)"
  using assms by (simp add: actionable_round_def verdict_at_def Let_def split: prod.split)

text \<open>Every list of the diff is what the rounds append, in the order of the ids.\<close>

lemma actionable_loop_lists:
  assumes f: "\<And>e v obs k d. f (note_diff e v obs k d) = f d @ g e v obs k"
  assumes "distinct ks" "set ks \<subseteq> dom (mget cur)"
  shows "f (s_diff (fold (actionable_round now by_id was cur) ks st)) =
    f (s_diff st) @ concat (map (\<lambda>k. g (mget by_id k) (verdict_at was (s_seen st) k)
                                        (snd (the (mget cur k))) k) ks)"
  using assms(2,3)
proof (induction ks arbitrary: st)
  case (Cons k ks)
  from Cons.prems obtain i obs where k: "mget cur k = Some (i, obs)" by force
  let ?st = "actionable_round now by_id was cur k st"
  have same: "verdict_at was (s_seen ?st) j = verdict_at was (s_seen st) j" if "j \<in> set ks" for j
  proof -
    from that Cons.prems have "j \<noteq> k" by auto
    then show ?thesis by (simp add: verdict_at_def act.step_other)
  qed
  have m: "map (\<lambda>j. g (mget by_id j) (verdict_at was (s_seen ?st) j) (snd (the (mget cur j))) j) ks
      = map (\<lambda>j. g (mget by_id j) (verdict_at was (s_seen st) j) (snd (the (mget cur j))) j) ks"
    by (rule map_cong) (simp_all add: same)
  from Cons k show ?case by (simp add: actionable_round_diff f m del: map_eq_conv)
qed simp

subsection \<open>The loop over the other observations\<close>

lemma quiet_round_diff [go_frame, simp]: "s_diff (quiet_round now cur io st) = s_diff st"
  by (simp add: quiet_round_def Let_def split: prod.split)

lemma quiet_loop_diff [go_frame, simp]: "s_diff (fold (quiet_round now cur) ios st) = s_diff st"
  by (induction ios arbitrary: st) auto

lemma quiet_round_seen:
  "mget (s_seen (quiet_round now cur (i, obs) st)) k =
     (if k = o_id obs \<and> \<not> mhas cur k then Some (snd (record_quiet now obs (mget (s_seen st) k)))
      else mget (s_seen st) k)"
  by (auto simp: quiet_round_def Let_def split: prod.split)

lemma quiet_loop_other:
  assumes "mhas cur k \<or> k \<notin> o_id ` snd ` set ios"
  shows "mget (s_seen (fold (quiet_round now cur) ios st)) k = mget (s_seen st) k"
  using assms by (induction ios arbitrary: st) (auto simp: quiet_round_seen)

lemma remember_value_frame [go_frame, simp]:
  "r_first_seen (remember_value obs r) = r_first_seen r"
  "r_last_seen (remember_value obs r) = r_last_seen r"
  "r_count (remember_value obs r) = r_count r"
  "r_last_actionable_run (remember_value obs r) = r_last_actionable_run r"
  "r_severity (remember_value obs r) = r_severity r"
  "r_kind (remember_value obs r) = r_kind r"
  "r_subject (remember_value obs r) = r_subject r"
  "r_resolved_at (remember_value obs r) = r_resolved_at r"
  by (simp_all add: remember_value_def)

lemma record_quiet_fields:
  "r_last_seen (snd (record_quiet now obs rec)) = now"
  "r_last_actionable_run (snd (record_quiet now obs rec)) = Option.bind rec r_last_actionable_run"
  "r_first_seen (snd (record_quiet now obs rec)) = (case rec of None \<Rightarrow> now | Some r \<Rightarrow> r_first_seen r)"
  "r_count (snd (record_quiet now obs rec)) = (case rec of None \<Rightarrow> 1 | Some r \<Rightarrow> r_count r + 1)"
  by (simp_all add: record_quiet_def split: option.split)

text \<open>An id of a quiet observation has a record afterwards, and nothing but an actionable
  sighting changes when it was last actionable or first seen.\<close>

lemma quiet_loop_in:
  assumes "\<not> mhas cur k" "k \<in> o_id ` snd ` set ios"
  obtains r where "mget (s_seen (fold (quiet_round now cur) ios st)) k = Some r"
    "r_last_seen r = now"
    "r_last_actionable_run r = Option.bind (mget (s_seen st) k) r_last_actionable_run"
    "r_first_seen r = (case mget (s_seen st) k of None \<Rightarrow> now | Some r \<Rightarrow> r_first_seen r)"
proof -
  have "\<exists>r. mget (s_seen (fold (quiet_round now cur) ios st)) k = Some r \<and> r_last_seen r = now \<and>
      r_last_actionable_run r = Option.bind (mget (s_seen st) k) r_last_actionable_run \<and>
      r_first_seen r = (case mget (s_seen st) k of None \<Rightarrow> now | Some r \<Rightarrow> r_first_seen r)"
    using assms
  proof (induction ios arbitrary: st)
    case (Cons io ios)
    obtain i obs where io: "io = (i, obs)" by (cases io)
    let ?st = "quiet_round now cur io st"
    show ?case
    proof (cases "k \<in> o_id ` snd ` set ios")
      case True
      from Cons.IH [OF Cons.prems(1) True, of ?st] Cons.prems(1) show ?thesis
        by (cases "mget (s_seen st) k")
          (auto simp: io quiet_round_seen record_quiet_fields split: if_splits)
    next
      case False
      with Cons.prems have k: "k = o_id obs" by (auto simp: io)
      with Cons.prems False quiet_loop_other [of cur k ios now ?st] show ?thesis
        by (simp add: io quiet_round_seen record_quiet_fields)
    qed
  qed simp
  then show ?thesis using that by blast
qed

subsection \<open>The whole of \<open>compute\<close>\<close>

definition actionable_keys :: "observation list \<Rightarrow> string list" where
  "actionable_keys observations = sorted_keys (current_actionable observations)"

lemma set_actionable_keys [simp]: "set (actionable_keys observations) = now_actionable observations"
  by (simp add: actionable_keys_def)

lemma distinct_actionable_keys [simp]: "distinct (actionable_keys observations)"
  by (simp add: actionable_keys_def)

lemma sorted_actionable_keys [simp]: "sorted (actionable_keys observations)"
  by (simp add: actionable_keys_def)

definition verdict_in :: "previous_facts \<Rightarrow> seen_state \<Rightarrow> string \<Rightarrow> verdict" where
  "verdict_in previous seen k = verdict_of (k \<in> prev_actionable previous) (mget seen k)"

lemma verdict_in_at: "verdict_at (previous_ids previous) seen k = verdict_in previous seen k"
  by (simp add: verdict_at_def verdict_in_def previous_ids_True)

definition obs_at :: "observation list \<Rightarrow> string \<Rightarrow> observation" where
  "obs_at observations k = snd (the (mget (current_actionable observations) k))"

lemma compute_diff_lists:
  assumes f: "\<And>e v obs k d. f (note_diff e v obs k d) = f d @ g e v obs k"
    and nil: "f empty_diff = []" and res: "\<And>d r. f (d\<lparr>d_resolved := r\<rparr>) = f d"
  shows "f (s_diff (compute observations previous seen now)) =
    concat (map (\<lambda>k. g (mget (previous_by_id previous) k) (verdict_in previous seen k)
                       (obs_at observations k) k) (actionable_keys observations))"
  using actionable_loop_lists [where f = f and g = g, OF f, of "actionable_keys observations"
      "current_actionable observations" now "previous_by_id previous" "previous_ids previous"
      "\<lparr>s_obs = observations, s_seen = seen, s_diff = empty_diff\<rparr>"]
  by (simp add: compute_def Let_def res nil verdict_in_at obs_at_def flip: actionable_keys_def)

lemma concat_filter: "concat (map (\<lambda>k. if P k then [h k] else []) ks) = map h (filter P ks)"
  by (induction ks) auto

lemma compute_lists:
  fixes observations previous seen now
  defines "d \<equiv> s_diff (compute observations previous seen now)"
  defines "pick \<equiv> \<lambda>v. filter (\<lambda>k. verdict_in previous seen k = v) (actionable_keys observations)"
  shows "d_new d = pick Appears" "d_reopened d = pick Reopens" "d_persisting d = pick Persists"
  unfolding d_def pick_def
  using compute_diff_lists [where f = d_new, OF note_diff_lists(1)]
    compute_diff_lists [where f = d_reopened, OF note_diff_lists(2)]
    compute_diff_lists [where f = d_persisting, OF note_diff_lists(3)]
  by (simp_all add: concat_filter [where h = "\<lambda>k. k", simplified] empty_diff_def)

lemma compute_resolved:
  "d_resolved (s_diff (compute observations previous seen now)) =
     resolved_ids (previous_ids previous) (current_actionable observations)"
  by (simp add: compute_def Let_def)

lemma resolved_ids_eq:
  "set (resolved_ids (previous_ids previous) (current_actionable observations)) =
     prev_actionable previous - now_actionable observations"
  "sorted (resolved_ids was cur)"
  "map_ok was \<Longrightarrow> distinct (resolved_ids was cur)"
  by (auto simp: resolved_ids_def mkeys_dom map_ok_def)

text \<open>The seen-state after the three stages.\<close>

lemma compute_seen:
  fixes observations previous seen now
  defines "cur \<equiv> current_actionable observations" and "was \<equiv> previous_ids previous"
  defines "seen1 \<equiv> s_seen (fold (actionable_round now (previous_by_id previous) was cur)
      (sorted_keys cur) \<lparr>s_obs = observations, s_seen = seen, s_diff = empty_diff\<rparr>)"
  shows "mget seen1 k = (if k \<in> now_actionable observations then act_upd now was cur k (mget seen k)
                         else mget seen k)"
    and "k \<in> now_actionable observations \<Longrightarrow>
      mget (s_seen (compute observations previous seen now)) k = act_upd now was cur k (mget seen k)"
proof -
  have s1: "mget seen1 k = (if k \<in> now_actionable observations then act_upd now was cur k (mget seen k)
                         else mget seen k)" for k
    unfolding seen1_def by (subst act.loop_view) (simp_all add: cur_def)
  then show "mget seen1 k = (if k \<in> now_actionable observations then act_upd now was cur k (mget seen k)
                         else mget seen k)" .
  assume k: "k \<in> now_actionable observations"
  then have nr: "k \<notin> set (resolved_ids was cur)"
    by (simp add: was_def cur_def resolved_ids_eq(1))
  from k show "mget (s_seen (compute observations previous seen now)) k
      = act_upd now was cur k (mget seen k)"
    using s1 [of k]
    by (simp add: compute_def Let_def cur_def was_def seen1_def quiet_loop_other resolve_round_def
        adjust_loop.loop_other [OF nr [unfolded was_def cur_def]])
qed

subsection \<open>Every observed id has a record afterwards\<close>

lemma act_upd_dom: "act_upd now was cur k rec = None \<longleftrightarrow> rec = None \<and> mget cur k = None"
  by (auto simp: act_upd_def split: option.split)

lemma map_ok_rounds [simp]:
  "map_ok (s_seen st) \<Longrightarrow> map_ok (s_seen (actionable_round now by_id was cur k st))"
  "map_ok (s_seen st) \<Longrightarrow> map_ok (s_seen (quiet_round now cur io st))"
  by (auto simp: actionable_round_def quiet_round_def Let_def gm.inv_put split: option.split prod.split)

lemma map_ok_act_loop:
  "map_ok (s_seen st) \<Longrightarrow> map_ok (s_seen (fold (actionable_round now by_id was cur) ks st))"
  by (induction ks arbitrary: st) simp_all

lemma map_ok_quiet_loop:
  "map_ok (s_seen st) \<Longrightarrow> map_ok (s_seen (fold (quiet_round now cur) ios st))"
  by (induction ios arbitrary: st) simp_all

lemma map_ok_compute: "map_ok seen \<Longrightarrow> map_ok (s_seen (compute observations previous seen now))"
  by (simp add: compute_def Let_def resolve_round_def map_ok_act_loop map_ok_quiet_loop map_ok_fold_madjust)

text \<open>The state before the last loop, as a map.\<close>

definition seen_before_quiet ::
  "observation list \<Rightarrow> previous_facts \<Rightarrow> seen_state \<Rightarrow> string \<Rightarrow> string \<Rightarrow> seen_record option" where
  "seen_before_quiet observations previous seen now k =
     (let r = (if k \<in> now_actionable observations
               then act_upd now (previous_ids previous) (current_actionable observations) k (mget seen k)
               else mget seen k)
      in if k \<in> prev_actionable previous - now_actionable observations
         then map_option (\<lambda>r. r\<lparr>r_resolved_at := now\<rparr>) r else r)"

lemma compute_quiet_form:
  obtains st where
    "compute observations previous seen now =
       fold (quiet_round now (current_actionable observations)) (enumerate 0 observations) st"
    "\<And>k. mget (s_seen st) k = seen_before_quiet observations previous seen now k"
proof -
  let ?was = "previous_ids previous" and ?cur = "current_actionable observations"
  let ?st1 = "fold (actionable_round now (previous_by_id previous) ?was ?cur) (sorted_keys ?cur)
      \<lparr>s_obs = observations, s_seen = seen, s_diff = empty_diff\<rparr>"
  let ?st = "?st1\<lparr>s_diff := (s_diff ?st1)\<lparr>d_resolved := resolved_ids ?was ?cur\<rparr>,
      s_seen := fold (resolve_round now) (resolved_ids ?was ?cur) (s_seen ?st1)\<rparr>"
  have "mget (s_seen ?st) k = seen_before_quiet observations previous seen now k" for k
    using compute_seen(1) [of now previous observations seen k]
    by (simp add: resolve_round_def adjust_loop.loop_view resolved_ids_eq seen_before_quiet_def Let_def)
  with that [of ?st] show ?thesis by (simp add: compute_def Let_def)
qed

lemma snd_enumerate: "snd ` set (enumerate n xs) = set xs"
  by (metis list.set_map map_snd_enumerate)

lemma compute_seen_quiet:
  assumes "k \<notin> now_actionable observations" "k \<in> o_id ` set observations"
  obtains r where "mget (s_seen (compute observations previous seen now)) k = Some r"
    "r_last_seen r = now"
    "r_last_actionable_run r = Option.bind (mget seen k) r_last_actionable_run"
    "r_first_seen r = (case mget seen k of None \<Rightarrow> now | Some r \<Rightarrow> r_first_seen r)"
proof -
  obtain st where c: "compute observations previous seen now =
       fold (quiet_round now (current_actionable observations)) (enumerate 0 observations) st"
    and st: "\<And>k. mget (s_seen st) k = seen_before_quiet observations previous seen now k"
    by (rule compute_quiet_form [of observations previous seen now]) blast
  have same: "Option.bind (mget (s_seen st) k) r_last_actionable_run = Option.bind (mget seen k) r_last_actionable_run"
    "(case mget (s_seen st) k of None \<Rightarrow> now | Some r \<Rightarrow> r_first_seen r) =
       (case mget seen k of None \<Rightarrow> now | Some r \<Rightarrow> r_first_seen r)"
    using assms(1) by (cases "mget seen k"; simp add: st seen_before_quiet_def Let_def)+
  from assms have "\<not> mhas (current_actionable observations) k"
    "k \<in> o_id ` snd ` set (enumerate 0 observations)"
    by (simp_all add: snd_enumerate)
  then obtain r where "mget (s_seen (compute observations previous seen now)) k = Some r"
    "r_last_seen r = now"
    "r_last_actionable_run r = Option.bind (mget (s_seen st) k) r_last_actionable_run"
    "r_first_seen r = (case mget (s_seen st) k of None \<Rightarrow> now | Some r \<Rightarrow> r_first_seen r)"
    unfolding c by (rule quiet_loop_in)
  then show ?thesis using that same by simp
qed

lemma compute_seen_absent:
  assumes "k \<notin> o_id ` set observations"
  shows "mget (s_seen (compute observations previous seen now)) k =
    (if k \<in> prev_actionable previous then map_option (\<lambda>r. r\<lparr>r_resolved_at := now\<rparr>) (mget seen k)
     else mget seen k)"
proof -
  obtain st where c: "compute observations previous seen now =
       fold (quiet_round now (current_actionable observations)) (enumerate 0 observations) st"
    and st: "\<And>k. mget (s_seen st) k = seen_before_quiet observations previous seen now k"
    by (rule compute_quiet_form [of observations previous seen now]) blast
  from assms have "k \<notin> now_actionable observations" by (auto simp: now_actionable_def)
  with assms show ?thesis
    unfolding c by (subst quiet_loop_other) (simp_all add: snd_enumerate st seen_before_quiet_def)
qed

lemma compute_seen_act:
  assumes "k \<in> now_actionable observations"
  shows "mget (s_seen (compute observations previous seen now)) k =
    Some (snd (record_actionable now (verdict_in previous seen k = Reopens)
                 (obs_at observations k) (mget seen k)))"
proof -
  from assms obtain x where "mget (current_actionable observations) k = Some x"
    by (metis dom_current_actionable domD)
  with compute_seen(2) [OF assms] show ?thesis
    by (cases x) (simp add: act_upd_def verdict_in_def previous_ids_True obs_at_def)
qed

lemma record_actionable_fields:
  "r_last_seen (snd (record_actionable now reo obs rec)) = now"
  "r_last_actionable_run (snd (record_actionable now reo obs rec)) = Some now"
  "r_severity (snd (record_actionable now reo obs rec)) = o_severity obs"
  "r_count (snd (record_actionable now reo obs rec)) = (case rec of None \<Rightarrow> 1 | Some r \<Rightarrow> r_count r + 1)"
  "r_first_seen (snd (record_actionable now reo obs rec)) =
     (case rec of None \<Rightarrow> now | Some r \<Rightarrow> if reo then now else r_first_seen r)"
  "r_resolved_at (snd (record_actionable now reo obs rec)) =
     (case rec of None \<Rightarrow> [] | Some r \<Rightarrow> if reo then [] else r_resolved_at r)"
  by (simp_all add: record_actionable_def split: option.split)

lemma dom_compute_seen:
  "dom (mget (s_seen (compute observations previous seen now))) = dom (mget seen) \<union> o_id ` set observations"
proof (rule set_eqI)
  fix k
  show "k \<in> dom (mget (s_seen (compute observations previous seen now))) \<longleftrightarrow>
        k \<in> dom (mget seen) \<union> o_id ` set observations"
  proof (cases "k \<in> o_id ` set observations")
    case True
    then have "mget (s_seen (compute observations previous seen now)) k \<noteq> None"
      by (cases "k \<in> now_actionable observations")
        (simp add: compute_seen_act, rule compute_seen_quiet [of k observations previous seen now], auto)
    with True show ?thesis by (auto simp: dom_def)
  next
    case False
    then show ?thesis
      by (cases "mget seen k") (auto simp: compute_seen_absent dom_def)
  qed
qed

subsection \<open>Pruning\<close>

lemma fold_mdel: "fold mdel ks m = filter (\<lambda>x. fst x \<notin> set ks) m"
proof (induction ks arbitrary: m)
  case (Cons k ks)
  have "mdel k m = filter (\<lambda>x. fst x \<noteq> k) m"
    by (simp add: mdel_def AList.delete_eq case_prod_unfold eq_commute)
  with Cons [of "mdel k m"] show ?case by (simp add: conj_commute)
qed simp

lemma prune_filter:
  assumes "map_ok m"
  shows "fold mdel (map fst (filter P m)) m = filter (\<lambda>x. \<not> P x) m"
proof -
  have "fst x \<in> set (map fst (filter P m)) \<longleftrightarrow> P x" if "x \<in> set m" for x
  proof
    assume "fst x \<in> set (map fst (filter P m))"
    then obtain y where "y \<in> set m" "P y" "fst y = fst x" by auto
    with that assms have "y = x" by (auto simp: map_ok_def mkeys_def distinct_map dest: inj_onD)
    with \<open>P y\<close> show "P x" by simp
  qed (use that in force)
  then show ?thesis by (simp add: fold_mdel cong: filter_cong)
qed

lemma mget_filter:
  assumes "map_ok m"
  shows "mget (filter P m) k = (case mget m k of Some v \<Rightarrow> if P (k, v) then Some v else None | None \<Rightarrow> None)"
  using assms
proof (induction m)
  case (Cons x m)
  then have ok: "map_ok m" and nin: "fst x \<notin> set (mkeys m)" by (auto simp: map_ok_def mkeys_def)
  then have "mget m (fst x) = None" by (simp add: mkeys_mget)
  with Cons.IH [OF ok] show ?case by (cases x) auto
qed simp

lemma prune_seen_eq:
  fixes days :: int and local :: zone and now_iso :: string
  assumes "map_ok seen" "parse_iso_time local now_iso = Some now"
  defines "stale \<equiv> \<lambda>(i, r). is_stale local now_iso (add_days (- days) now) r"
  shows "prune_seen local seen now_iso days =
           (filter (\<lambda>x. \<not> stale x) seen, length (filter stale seen))"
  using assms(2) prune_filter [OF assms(1), of stale]
  by (simp add: prune_seen_def Let_def stale_def)

lemma map_ok_filter: "map_ok m \<Longrightarrow> map_ok (filter P m)"
  by (simp add: map_ok_def mkeys_def distinct_map_filter)

lemma prune_seen_map_ok:
  assumes "map_ok seen"
  shows "map_ok (fst (prune_seen local seen now_iso days))"
proof (cases "parse_iso_time local now_iso")
  case None
  with assms show ?thesis by (simp add: prune_seen_def)
next
  case (Some now)
  show ?thesis by (simp add: prune_seen_eq [OF assms Some] map_ok_filter [OF assms])
qed

lemma prune_seen_keeps_actionable:
  assumes "map_ok seen" "mget seen k = Some r" "r_last_actionable_run r = Some now_iso"
  shows "mget (fst (prune_seen local seen now_iso days)) k = Some r"
proof (cases "parse_iso_time local now_iso")
  case (Some now)
  show ?thesis
    unfolding prune_seen_eq [OF assms(1) Some]
    using assms by (simp add: mget_filter is_stale_def)
qed (simp add: prune_seen_def assms)

lemma prune_seen_sub:
  assumes "map_ok seen" "mget (fst (prune_seen local seen now_iso days)) k = Some r"
  shows "mget seen k = Some r"
proof (cases "parse_iso_time local now_iso")
  case (Some now)
  from assms(2) show ?thesis
    unfolding prune_seen_eq [OF assms(1) Some]
    using assms(1) by (simp add: mget_filter split: option.splits if_splits)
qed (use assms in \<open>simp add: prune_seen_def\<close>)

subsection \<open>What \<open>compute\<close> leaves of the observations\<close>

definition no_date :: "observation \<Rightarrow> observation" where
  "no_date obs = obs\<lparr>o_first_seen := VNil\<rparr>"

lemma no_date_fields [simp]:
  "no_date (obs\<lparr>o_first_seen := v\<rparr>) = no_date obs"
  by (simp add: no_date_def)

lemma set_first_seen_frame [simp]: "map no_date (set_first_seen i fs os) = map no_date os"
proof (cases "i < length os")
  case True
  then have "map no_date os ! i = no_date (os ! i)" by simp
  then show ?thesis by (metis list_update_id map_update no_date_fields set_first_seen_def)
qed (simp add: set_first_seen_def not_less list_update_beyond)

lemma round_obs_frame [go_frame, simp]:
  "map no_date (s_obs (actionable_round now by_id was cur k st)) = map no_date (s_obs st)"
  "map no_date (s_obs (quiet_round now cur io st)) = map no_date (s_obs st)"
  by (simp_all add: actionable_round_def quiet_round_def Let_def split: option.split prod.split
      del: map_eq_conv)

lemma act_loop_obs [simp]:
  "map no_date (s_obs (fold (actionable_round now by_id was cur) ks st)) = map no_date (s_obs st)"
  by (induction ks arbitrary: st) (simp_all del: map_eq_conv)

lemma quiet_loop_obs [simp]:
  "map no_date (s_obs (fold (quiet_round now cur) ios st)) = map no_date (s_obs st)"
  by (induction ios arbitrary: st) (simp_all del: map_eq_conv)

lemma compute_obs_frame:
  "map no_date (s_obs (compute observations previous seen now)) = map no_date observations"
  by (simp add: compute_def Let_def del: map_eq_conv)

lemma no_date_proj:
  assumes "map no_date xs = map no_date ys"
  shows "map o_id xs = map o_id ys" "map o_severity xs = map o_severity ys"
    "map o_subject xs = map o_subject ys" "map o_kind xs = map o_kind ys"
proof -
  have "o_id = o_id \<circ> no_date" "o_severity = o_severity \<circ> no_date"
    "o_subject = o_subject \<circ> no_date" "o_kind = o_kind \<circ> no_date"
    by (simp_all add: fun_eq_iff no_date_def)
  then show "map o_id xs = map o_id ys" "map o_severity xs = map o_severity ys"
    "map o_subject xs = map o_subject ys" "map o_kind xs = map o_kind ys"
    using assms by (metis map_map)+
qed

lemma verdict_in_iff:
  "verdict_in previous seen k = Persists \<longleftrightarrow> k \<in> prev_actionable previous"
  "verdict_in previous seen k = Reopens \<longleftrightarrow>
     k \<notin> prev_actionable previous \<and> Option.bind (mget seen k) r_last_actionable_run \<noteq> None"
  "verdict_in previous seen k = Appears \<longleftrightarrow>
     k \<notin> prev_actionable previous \<and> Option.bind (mget seen k) r_last_actionable_run = None"
  by (auto simp: verdict_in_def verdict_of_def split: option.splits)

lemma now_actionable_iff:
  "k \<in> now_actionable observations \<longleftrightarrow> (\<exists>x \<in> set observations. o_id x = k \<and> actionable (o_severity x))"
  "k \<in> prev_actionable previous \<longleftrightarrow> (\<exists>e \<in> set previous. p_id e = k \<and> actionable (p_severity e))"
  by (auto simp: now_actionable_def prev_actionable_def)

section \<open>Properties\<close>

text \<open>
  Claim C1. The diff is an exact account of the actionable ids: \<open>new\<close>, \<open>reopened\<close> and
  \<open>persisting\<close> are pairwise disjoint and together are the ids that are warn or crit now,
  \<open>persisting\<close> and \<open>resolved\<close> split the ids that were actionable last run, and each of the
  four lists is sorted and free of duplicates.
\<close>

theorem compute_partition:
  "let d = s_diff (compute observations previous seen now);
       n = set (d_new d); r = set (d_reopened d); p = set (d_persisting d);
       now_ids = o_id ` {x \<in> set observations. actionable (o_severity x)};
       was_ids = p_id ` {e \<in> set previous. actionable (p_severity e)}
   in n \<union> r \<union> p = now_ids \<and> n \<inter> r = {} \<and> n \<inter> p = {} \<and> r \<inter> p = {} \<and>
      p = now_ids \<inter> was_ids \<and> set (d_resolved d) = was_ids - now_ids \<and>
      list_all (\<lambda>l. sorted l \<and> distinct l) [d_new d, d_reopened d, d_persisting d, d_resolved d]"
  by (auto simp: Let_def compute_lists compute_resolved resolved_ids_eq verdict_in_iff sorted_wrt_filter
      simp flip: prev_actionable_def now_actionable_def)

text \<open>
  An actionable id is reported as new exactly when it was not actionable last run and
  no record says it ever was, and as reopened exactly when a record says so: the two differ only
  in \<open>last_actionable_run\<close>, so an id that merely existed at info level is new when it is first a
  warning.
\<close>

theorem compute_new_reopened_iff:
  "let d = s_diff (compute observations previous seen now);
       fresh = (\<exists>x \<in> set observations. o_id x = k \<and> actionable (o_severity x)) \<and>
               \<not> (\<exists>e \<in> set previous. p_id e = k \<and> actionable (p_severity e));
       ever = Option.bind (mget seen k) r_last_actionable_run
   in (k \<in> set (d_new d) \<longleftrightarrow> fresh \<and> ever = None) \<and>
      (k \<in> set (d_reopened d) \<longleftrightarrow> fresh \<and> ever \<noteq> None)"
  by (auto simp: Let_def compute_lists verdict_in_iff simp flip: now_actionable_iff)

lemma compute_transition_lists:
  "d_worsened (s_diff (compute observations previous seen now)) =
     map (\<lambda>k. transition_of (mget (previous_by_id previous) k) (obs_at observations k) k)
       (filter (\<lambda>k. k \<in> prev_actionable previous \<and>
            severity_rank (severity_before (mget (previous_by_id previous) k)) <
            severity_rank (o_severity (obs_at observations k))) (actionable_keys observations))"
  "d_improved (s_diff (compute observations previous seen now)) =
     map (\<lambda>k. transition_of (mget (previous_by_id previous) k) (obs_at observations k) k)
       (filter (\<lambda>k. k \<in> prev_actionable previous \<and>
            severity_rank (o_severity (obs_at observations k)) <
            severity_rank (severity_before (mget (previous_by_id previous) k)))
         (actionable_keys observations))"
proof -
  show "d_worsened (s_diff (compute observations previous seen now)) =
     map (\<lambda>k. transition_of (mget (previous_by_id previous) k) (obs_at observations k) k)
       (filter (\<lambda>k. k \<in> prev_actionable previous \<and>
            severity_rank (severity_before (mget (previous_by_id previous) k)) <
            severity_rank (o_severity (obs_at observations k))) (actionable_keys observations))"
    by (subst compute_diff_lists [where f = d_worsened, OF note_diff_transitions(1)])
      (simp_all add: empty_diff_def verdict_in_iff concat_filter)
  show "d_improved (s_diff (compute observations previous seen now)) =
     map (\<lambda>k. transition_of (mget (previous_by_id previous) k) (obs_at observations k) k)
       (filter (\<lambda>k. k \<in> prev_actionable previous \<and>
            severity_rank (o_severity (obs_at observations k)) <
            severity_rank (severity_before (mget (previous_by_id previous) k)))
         (actionable_keys observations))"
    by (subst compute_diff_lists [where f = d_improved, OF note_diff_transitions(2)])
      (simp_all add: empty_diff_def verdict_in_iff concat_filter)
qed

lemma previous_by_id_get:
  assumes "distinct (map p_id previous)" "e \<in> set previous"
  shows "mget (previous_by_id previous) (p_id e) = Some e"
proof -
  obtain x where f: "find (\<lambda>x. p_id x = p_id e) (rev previous) = Some x"
    using assms(2) by (cases "find (\<lambda>x. p_id x = p_id e) (rev previous)") (auto simp: find_None_iff)
  then have "x \<in> set previous" "p_id x = p_id e" by (auto dest: find_SomeD)
  with assms have "x = e" by (auto simp: distinct_map dest: inj_onD)
  with f show ?thesis
    unfolding previous_by_id_def
    by (subst gm.get_fold_put [where key = p_id and val = "\<lambda>x. x"]) simp
qed

text \<open>
  Severity transitions are reported for persisting problems only and always in the
  direction they claim: for a problem that was warn or crit last run and is now, with unambiguous
  ids, it is listed as worsened exactly when its severity rank rose and as improved exactly when
  it fell, with the two severities it moved between.
\<close>

theorem compute_transitions:
  assumes "distinct (map p_id previous)" "e \<in> set previous" "actionable (p_severity e)"
    and "distinct (map o_id observations)" "x \<in> set observations" "actionable (o_severity x)"
    and "o_id x = p_id e"
  defines "t \<equiv> \<lparr>tr_id = o_id x, tr_from = p_severity e, tr_to = o_severity x\<rparr>"
  shows "let d = s_diff (compute observations previous seen now)
    in (t \<in> set (d_worsened d) \<longleftrightarrow> severity_rank (p_severity e) < severity_rank (o_severity x)) \<and>
       (t \<in> set (d_improved d) \<longleftrightarrow> severity_rank (o_severity x) < severity_rank (p_severity e))"
proof -
  have e: "mget (previous_by_id previous) (o_id x) = Some e"
    using assms by (simp add: previous_by_id_get)
  have sev: "severity_before (Some e) = p_severity e"
    using assms(3) by (auto simp: severity_before_def actionable_def)
  have xk: "o_id x \<in> now_actionable observations" using assms(5,6) by (auto simp: now_actionable_def)
  then obtain i y where y: "mget (current_actionable observations) (o_id x) = Some (i, y)"
    by (metis dom_current_actionable domD prod.exhaust)
  from current_actionable_get [OF this] assms(4,5) have "y = x"
    by (metis distinct_map inj_onD nth_mem)
  with y have o: "obs_at observations (o_id x) = x" by (simp add: obs_at_def)
  have p: "o_id x \<in> prev_actionable previous" using assms(2,3,7) by (auto simp: prev_actionable_def)
  show ?thesis
    using xk p e sev o
    by (auto simp: Let_def compute_transition_lists transition_of_def t_def image_iff)
qed

definition sample_observation :: "string \<Rightarrow> string \<Rightarrow> observation" where
  "sample_observation i sev = (new_observation i ''c'' ''s'' ''k'' ''m'')\<lparr>o_severity := sev\<rparr>"

theorem compute_transitions_witness:
  "let d = s_diff (compute [sample_observation ''disk'' ''crit''] [\<lparr>p_id = ''disk'', p_severity = ''warn''\<rparr>]
                     [] ''2026-01-02T00:00:00Z'')
   in \<lparr>tr_id = ''disk'', tr_from = ''warn'', tr_to = ''crit''\<rparr> \<in> set (d_worsened d) \<and>
      \<lparr>tr_id = ''disk'', tr_from = ''warn'', tr_to = ''crit''\<rparr> \<notin> set (d_improved d)"
  using compute_transitions [of "[\<lparr>p_id = ''disk'', p_severity = ''warn''\<rparr>]"
      "\<lparr>p_id = ''disk'', p_severity = ''warn''\<rparr>" "[sample_observation ''disk'' ''crit'']"
      "sample_observation ''disk'' ''crit''" "[]" "''2026-01-02T00:00:00Z''"]
  by (simp add: sample_observation_def new_observation_def actionable_def severity_rank_cases Let_def)

text \<open>
  After a run every id that is actionable in it has a record dated with this run: last
  seen and last actionable now, its count one higher, its severity the current one.  The
  first-seen date and the resolution date of an old record are kept, unless the id is reopened:
  then it counts as first seen now and is no longer resolved.
\<close>

theorem compute_actionable_record:
  assumes "distinct (map o_id observations)" "x \<in> set observations" "actionable (o_severity x)"
  shows "let st = compute observations previous seen now; k = o_id x in
    \<exists>r. mget (s_seen st) k = Some r \<and> r_last_seen r = now \<and> r_last_actionable_run r = Some now \<and>
      r_severity r = o_severity x \<and>
      (case mget seen k of
         None \<Rightarrow> r_count r = 1 \<and> r_first_seen r = now \<and> r_resolved_at r = [] \<and> k \<notin> set (d_reopened (s_diff st))
       | Some r0 \<Rightarrow> r_count r = r_count r0 + 1 \<and>
           (if k \<in> set (d_reopened (s_diff st)) then r_first_seen r = now \<and> r_resolved_at r = []
            else r_first_seen r = r_first_seen r0 \<and> r_resolved_at r = r_resolved_at r0))"
proof -
  from assms have k: "o_id x \<in> now_actionable observations" by (auto simp: now_actionable_def)
  then obtain i y where y: "mget (current_actionable observations) (o_id x) = Some (i, y)"
    by (metis dom_current_actionable domD prod.exhaust)
  from current_actionable_get [OF this] assms(1,2) have "y = x"
    by (metis distinct_map inj_onD nth_mem)
  with y have o: "obs_at observations (o_id x) = x" by (simp add: obs_at_def)
  have reo: "o_id x \<in> set (d_reopened (s_diff (compute observations previous seen now))) \<longleftrightarrow>
      verdict_in previous seen (o_id x) = Reopens"
    using k by (simp add: compute_lists)
  show ?thesis
    using compute_seen_act [OF k, of previous seen now] reo
    by (cases "mget seen (o_id x)") (simp_all add: record_actionable_fields o Let_def verdict_in_iff)
qed

text \<open>The witness is a reopened problem: known, resolved, and back.\<close>

definition resolved_record :: seen_record where
  "resolved_record = \<lparr>r_first_seen = ''2026-01-01T00:00:00Z'', r_last_seen = ''2026-01-09T00:00:00Z'',
     r_count = 9, r_last_actionable_run = Some ''2026-01-09T00:00:00Z'', r_severity = ''warn'',
     r_kind = ''k'', r_subject = ''s'', r_last_value = VNil, r_resolved_at = ''2026-01-10T00:00:00Z''\<rparr>"

theorem compute_actionable_record_witness:
  "let st = compute [sample_observation ''disk'' ''warn''] [] [(''disk'', resolved_record)] ''2026-01-20T00:00:00Z''
   in \<exists>r. mget (s_seen st) ''disk'' = Some r \<and> r_count r = 10 \<and> r_resolved_at r = [] \<and>
        r_first_seen r = ''2026-01-20T00:00:00Z''"
  using compute_actionable_record [of "[sample_observation ''disk'' ''warn'']"
      "sample_observation ''disk'' ''warn''" "[]" "[(''disk'', resolved_record)]"
      "''2026-01-20T00:00:00Z''"]
  by (simp add: sample_observation_def new_observation_def actionable_def resolved_record_def Let_def
      compute_lists verdict_in_iff now_actionable_iff split: if_splits) blast

text \<open>
  The seen-state never forgets in a run: the ids with a record afterwards are the ids
  that had one and the ids observed now, whatever their severity; and a run changes of the observations nothing but their first-seen dates.
\<close>

theorem compute_remembers:
  "let st = compute observations previous seen now in
   dom (mget (s_seen st)) = dom (mget seen) \<union> o_id ` set observations \<and>
   length (s_obs st) = length observations \<and>
   map (\<lambda>x. x\<lparr>o_first_seen := VNil\<rparr>) (s_obs st) = map (\<lambda>x. x\<lparr>o_first_seen := VNil\<rparr>) observations"
proof -
  have "length (s_obs (compute observations previous seen now)) = length observations"
    using compute_obs_frame [of observations previous seen now] by (metis length_map)
  then show ?thesis
    using compute_obs_frame [of observations previous seen now]
    by (simp add: Let_def dom_compute_seen no_date_def [abs_def] del: map_eq_conv)
qed

text \<open>
  Pruning removes exactly the records whose last sighting can be read as a time before
  the cutoff and that are not actionable in this very run, and returns their number; a time of
  the run that cannot be read prunes nothing.
\<close>

theorem prune_seen_exact:
  assumes "map_ok seen"
  shows "let (kept, n) = prune_seen local seen now_iso days;
             gone = (\<lambda>r. \<exists>now t. parse_iso_time local now_iso = Some now \<and>
                       r_last_actionable_run r \<noteq> Some now_iso \<and> r_last_seen r \<noteq> [] \<and>
                       parse_iso_time local (r_last_seen r) = Some t \<and>
                       t_before t (add_days (- days) now))
         in map_ok kept \<and> length kept + n = length seen \<and>
            (\<forall>k. mget kept k = (case mget seen k of None \<Rightarrow> None
                                | Some r \<Rightarrow> if gone r then None else Some r))"
proof (cases "parse_iso_time local now_iso")
  case None
  with assms show ?thesis by (simp add: prune_seen_def split: option.split)
next
  case (Some now)
  have g: "is_stale local now_iso cutoff r \<longleftrightarrow> (\<exists>t. r_last_actionable_run r \<noteq> Some now_iso \<and>
      r_last_seen r \<noteq> [] \<and> parse_iso_time local (r_last_seen r) = Some t \<and> t_before t cutoff)" for r cutoff
    by (auto simp: is_stale_def split: option.split)
  have "length (filter (\<lambda>x. \<not> P x) seen) + length (filter P seen) = length seen" for P
    using sum_length_filter_compl [of P seen] by simp
  with Some assms show ?thesis
    by (simp add: prune_seen_eq [OF assms Some] map_ok_filter mget_filter g split: option.split) blast
qed

theorem prune_seen_exact_witness:
  "fst (prune_seen utc [(''disk'', resolved_record)] ''2026-06-01T00:00:00Z'' 60) = [] \<and>
   map_ok (fst (prune_seen utc [(''disk'', resolved_record)] ''2026-06-01T00:00:00Z'' 60))"
proof -
  have "map_ok [(''disk'', resolved_record)]" by (simp add: map_ok_def mkeys_def)
  from prune_seen_exact [OF this, of utc "''2026-06-01T00:00:00Z''" 60]
  have "map_ok (fst (prune_seen utc [(''disk'', resolved_record)] ''2026-06-01T00:00:00Z'' 60))"
    by (simp add: case_prod_unfold Let_def)
  moreover have "fst (prune_seen utc [(''disk'', resolved_record)] ''2026-06-01T00:00:00Z'' 60) = []"
    by code_simp
  ultimately show ?thesis by simp
qed

end
