(* ===== verification/HR_Run.thy ===== *)
theory HR_Run
  imports HR_Diff
begin

text \<open>
  One run of the report, \<^verbatim>\<open>src/tools/internal/healthreport/run.go\<close>, and the state it leaves on
  disk (\<open>LoadPrevious\<close>, \<open>LoadSeen\<close> and \<open>Save\<close> of \<^verbatim>\<open>diff.go\<close>).

  A collector is a function of the configuration and the rules whose call returns a result, returns
  a nil pointer, or panics; collectors are not part of this file and are parameters.  The
  \<open>for range\<close> loops over the result map run in an order Go leaves open: the model runs them in the
  order of the association list, and the properties hold for every such list.  The state directory
  is a record of the files the report keeps there; whether a file operation succeeds is a parameter
  of \<open>save\<close>, so every error path is a branch.
\<close>

section \<open>Collectors\<close>

datatype 'd outcome = Returns "'d collector_result option" | Panics string

type_synonym ('c, 'd) collector_fn = "'c \<Rightarrow> rules_file \<Rightarrow> 'd outcome"
type_synonym 'd results = "(string, 'd collector_result) gmap"

definition nil_deref :: string where
  "nil_deref = ''runtime error: invalid memory address or nil pointer dereference''"

definition panic_result :: "string \<Rightarrow> string \<Rightarrow> f64 \<Rightarrow> 'd collector_result" where
  "panic_result name r elapsed =
     \<lparr>c_name = name, c_status = ''error'', c_error = ''panic: '' @ r, c_duration = elapsed,
      c_data = None, c_observations = []\<rparr>"

definition run_collector ::
  "string \<Rightarrow> ('c, 'd) collector_fn \<Rightarrow> 'c \<Rightarrow> rules_file \<Rightarrow> f64 \<Rightarrow> 'd collector_result" where
  "run_collector name fn cfg rules elapsed =
     (case fn cfg rules of
        Panics r \<Rightarrow> panic_result name r elapsed
      | Returns None \<Rightarrow> panic_result name nil_deref elapsed
      | Returns (Some result) \<Rightarrow> result\<lparr>c_name := name, c_duration := elapsed\<rparr>)"

definition run_collectors ::
  "(string, ('c, 'd) collector_fn) gmap \<Rightarrow> (string \<Rightarrow> f64) \<Rightarrow> 'c \<Rightarrow> rules_file \<Rightarrow> string list \<Rightarrow> 'd results" where
  "run_collectors registry elapsed cfg rules names =
     fold (\<lambda>name results.
             case mget registry name of None \<Rightarrow> results
             | Some fn \<Rightarrow> mput name (run_collector name fn cfg rules (elapsed name)) results) names []"

definition health_observation :: "string \<Rightarrow> 'd collector_result \<Rightarrow> observation" where
  "health_observation name result =
     (new_observation (''collector_failed.'' @ name @ ''.'') ''collector_health'' name ''collector_failed''
        (''collector '' @ name @ '' did not complete: '' @ c_error result))
       \<lparr>o_value := VStr (c_status result),
        o_evidence := [(''status'', VStr (c_status result)), (''error'', VStr (c_error result))]\<rparr>"

definition collector_health :: "'d results \<Rightarrow> observation list" where
  "collector_health results =
     map (\<lambda>name. health_observation name (the (mget results name)))
       (filter (\<lambda>name. c_status (the (mget results name)) \<noteq> ''ok'') (sorted_keys results))"

definition as_float :: "any \<Rightarrow> f64" where
  "as_float v = (case numeric v of Some f \<Rightarrow> f | None \<Rightarrow> f_zero)"

definition wd_disk_id :: string where "wd_disk_id = ''disk_usage.wd-mycloud./mnt/HD/HD_a2''"

definition wd_cloud_backup_target_usage :: "observation list \<Rightarrow> observation list" where
  "wd_cloud_backup_target_usage observations =
     (case find (\<lambda>obs. o_id obs = wd_disk_id) observations of None \<Rightarrow> []
      | Some disk_usage \<Rightarrow>
          if list_ex (\<lambda>obs. o_kind obs = ''backup_target_usage'' \<and> o_subject obs = ''nas'' \<and>
                            mget (o_evidence obs) ''kind'' = Some (VStr ''wd_cloud'')) observations
          then []
          else [(new_observation ''backup_target_usage.nas.wd-cloud'' ''ssh_facts'' ''nas'' ''backup_target_usage''
                  (''backup target wd-cloud is '' @ fmt_fixed 1 (as_float (o_value disk_usage)) @
                   ''% full (derived from wd-mycloud'' @ [CHR 39] @ ''s own disk usage - rclone has no quota API over SFTP)''))
                 \<lparr>o_value := o_value disk_usage, o_unit := VStr ''percent'',
                  o_evidence := [(''kind'', VStr ''wd_cloud''), (''source'', VStr (o_id disk_usage))]\<rparr>])"

section \<open>Facts\<close>

record run_info =
  ri_id :: string
  ri_started_at :: string
  ri_host :: string

record summary =
  su_crit :: nat
  su_warn :: nat
  su_info :: nat
  su_failed :: "string list"
  su_pruned :: nat

record 'd facts =
  f_schema :: int
  f_run :: run_info
  f_collectors :: "'d results"
  f_observations :: "observation list"
  f_diff :: diff_result
  f_summary :: summary
  f_llm_status :: string
  f_delivery_errors :: "string list"

section \<open>The state directory\<close>

text \<open>
  \<open>sd_history\<close> are the files of the history directory by name, its subdirectories left out.  A
  missing file is \<open>None\<close>: \<open>readJSON\<close> gives the zero value for it.  Files somebody else damaged are
  not modelled.
\<close>

record 'd state_dir =
  sd_latest :: "'d facts option"
  sd_previous :: "'d facts option"
  sd_seen :: "seen_state option"
  sd_history :: "(string, 'd facts option) gmap"

text \<open>Numbers come back from JSON as floats; a null or missing value as nil.\<close>

fun json_any :: "any \<Rightarrow> any" where
  "json_any (VInt i) = VF64 (f_of_int i)"
| "json_any (VInt64 i) = VF64 (f_of_int i)"
| "json_any (VF32 x) = VF64 x"
| "json_any v = v"

definition load_previous :: "'d state_dir \<Rightarrow> previous_facts" where
  "load_previous sd =
     (case sd_latest sd of None \<Rightarrow> []
      | Some f \<Rightarrow> map (\<lambda>x. \<lparr>p_id = o_id x, p_severity = o_severity x\<rparr>) (f_observations f))"

definition load_seen :: "'d state_dir \<Rightarrow> seen_state" where
  "load_seen sd =
     (case sd_seen sd of None \<Rightarrow> []
      | Some m \<Rightarrow> map (\<lambda>(k, r). (k, r\<lparr>r_last_value := json_any (r_last_value r)\<rparr>)) m)"

definition first_run_ids :: "'d state_dir \<Rightarrow> string \<Rightarrow> bool" where
  "first_run_ids sd k = mhas (load_seen sd) k"

section \<open>Assembling a run\<close>

definition gather :: "'d results \<Rightarrow> observation list" where
  "gather results =
     (let os1 = concat (map (\<lambda>(name, result). c_observations result) results);
          os2 = os1 @ collector_health results
      in os2 @ wd_cloud_backup_target_usage os2)"

definition candidate_new :: "seen_state \<Rightarrow> observation list \<Rightarrow> string \<Rightarrow> bool" where
  "candidate_new seen observations k \<longleftrightarrow>
     seen \<noteq> [] \<and> list_ex (\<lambda>obs. o_id obs = k \<and> \<not> mhas seen (o_id obs)) observations"

definition severity_count :: "string \<Rightarrow> observation list \<Rightarrow> nat" where
  "severity_count sev observations = length (filter (\<lambda>obs. o_severity obs = sev) observations)"

definition failed_collectors :: "'d results \<Rightarrow> string list" where
  "failed_collectors results =
     sort (map fst (filter (\<lambda>(name, result). c_status result \<noteq> ''ok'') results))"

definition classified :: "rules_file \<Rightarrow> 'd results \<Rightarrow> seen_state \<Rightarrow> gtime \<Rightarrow> observation list" where
  "classified rules results seen now =
     (let os = gather results
      in apply_rules (attach_previous_values os seen) rules (candidate_new seen os) (Some now))"

definition assemble ::
  "string \<Rightarrow> rules_file \<Rightarrow> 'd results \<Rightarrow> gtime \<Rightarrow> 'd state_dir \<Rightarrow> 'd facts \<times> seen_state" where
  "assemble hostname rules results now sd =
     (let seen = load_seen sd;
          now_iso = fmt_rfc3339 now;
          st = compute (classified rules results seen now) (load_previous sd) seen now_iso
      in (\<lparr>f_schema = 1,
           f_run = \<lparr>ri_id = fmt_minute now, ri_started_at = now_iso, ri_host = hostname\<rparr>,
           f_collectors = results, f_observations = s_obs st, f_diff = s_diff st,
           f_summary = \<lparr>su_crit = severity_count ''crit'' (s_obs st), su_warn = severity_count ''warn'' (s_obs st),
                        su_info = severity_count ''info'' (s_obs st),
                        su_failed = failed_collectors results, su_pruned = 0\<rparr>,
           f_llm_status = ''not_run'', f_delivery_errors = []\<rparr>,
          s_seen st))"

section \<open>Saving\<close>

text \<open>
  The file operations of \<open>Save\<close> that can fail.  A write is \<open>writeJSONAtomic\<close>: encode, write to a
  temporary file, rename; a failure in any of them leaves the target as it was.
\<close>

datatype io_op = MkHistory | MkSeen | RenameLatest | WriteLatest | WriteSeen | WriteHistory string | RemoveHistory string

definition history_stamp :: "string \<Rightarrow> string" where
  "history_stamp run_id = filter (\<lambda>c. c \<noteq> CHR ''-'') (if 10 < length run_id then take 10 run_id else run_id)"

definition history_name :: "string \<Rightarrow> string" where
  "history_name stamp = ''facts-'' @ stamp @ ''.json''"

definition prune_history :: "(io_op \<Rightarrow> bool) \<Rightarrow> nat \<Rightarrow> (string, 'f) gmap \<Rightarrow> (string, 'f) gmap" where
  "prune_history ok keep dir =
     (let names = sort (filter (\<lambda>n. 6 < length n \<and> take 6 n = ''facts-'') (mkeys dir))
      in if length names \<le> keep then dir
         else fold (\<lambda>n d. if ok (RemoveHistory n) then mdel n d else d) (take (length names - keep) names) dir)"

definition save_files ::
  "(io_op \<Rightarrow> bool) \<Rightarrow> 'd facts \<Rightarrow> seen_state \<Rightarrow> nat \<Rightarrow> 'd state_dir \<Rightarrow> io_op option \<times> 'd state_dir" where
  \<comment> \<open>from the first rename on: the operation that failed, if any, and the files afterwards\<close>
  "save_files ok facts seen history_days sd =
     (if sd_latest sd \<noteq> None \<and> \<not> ok RenameLatest then (Some RenameLatest, sd) else
      let sd1 = (case sd_latest sd of None \<Rightarrow> sd
                 | Some f \<Rightarrow> sd\<lparr>sd_latest := None, sd_previous := Some f\<rparr>) in
      if \<not> ok WriteLatest then (Some WriteLatest, sd1) else
      let sd2 = sd1\<lparr>sd_latest := Some facts\<rparr> in
      if \<not> ok WriteSeen then (Some WriteSeen, sd2) else
      let sd3 = sd2\<lparr>sd_seen := Some seen\<rparr>;
          stamp = history_stamp (ri_id (f_run facts)) in
      if stamp \<noteq> [] \<and> \<not> ok (WriteHistory stamp) then (Some (WriteHistory stamp), sd3) else
      let h = (if stamp \<noteq> [] then mput (history_name stamp) (Some facts) (sd_history sd3) else sd_history sd3)
      in (None, sd3\<lparr>sd_history := prune_history ok history_days h\<rparr>))"

definition retention_days :: int where "retention_days = 60"

definition save ::
  "(io_op \<Rightarrow> bool) \<Rightarrow> zone \<Rightarrow> 'd facts \<Rightarrow> seen_state \<Rightarrow> nat \<Rightarrow> 'd state_dir \<Rightarrow>
   io_op option \<times> 'd facts \<times> seen_state \<times> 'd state_dir" where
  "save ok local facts seen history_days sd =
     (if \<not> ok MkHistory then (Some MkHistory, facts, seen, sd) else
      if \<not> ok MkSeen then (Some MkSeen, facts, seen, sd) else
      let (kept, n) = prune_seen local seen (ri_started_at (f_run facts)) retention_days;
          facts' = (if 0 < n then facts\<lparr>f_summary := (f_summary facts)\<lparr>su_pruned := n\<rparr>\<rparr> else facts);
          (err, sd') = save_files ok facts' kept history_days sd
      in (err, facts', kept, sd'))"

section \<open>A run from state to state\<close>

text \<open>
  The part of \<^verbatim>\<open>cmd/healthreport/main.go\<close> from \<open>Assemble\<close> to \<open>Save\<close>: the narrative and the
  delivery in between only set the LLM status and the delivery errors; a dry run writes a file of
  its own and leaves the state as it is.
\<close>

record 'd run_input =
  in_results :: "'d results"
  in_now :: gtime
  in_llm_status :: string
  in_delivery_errors :: "string list"
  in_dry_run :: bool
  in_ok :: "io_op \<Rightarrow> bool"

definition history_days :: nat where "history_days = 30"

definition run_facts :: "string \<Rightarrow> rules_file \<Rightarrow> 'd run_input \<Rightarrow> 'd state_dir \<Rightarrow> 'd facts \<times> seen_state" where
  "run_facts hostname rules inp sd =
     (let (facts, seen) = assemble hostname rules (in_results inp) (in_now inp) sd
      in (facts\<lparr>f_llm_status := in_llm_status inp, f_delivery_errors := in_delivery_errors inp\<rparr>, seen))"

definition run_once ::
  "zone \<Rightarrow> string \<Rightarrow> rules_file \<Rightarrow> 'd run_input \<Rightarrow> 'd state_dir \<Rightarrow> io_op option \<times> 'd state_dir" where
  "run_once local hostname rules inp sd =
     (let (facts, seen) = run_facts hostname rules inp sd
      in if in_dry_run inp then (None, sd)
         else let (err, _, _, sd') = save (in_ok inp) local facts seen history_days sd in (err, sd'))"

text \<open>The states a sequence of runs can reach from an empty directory, whatever fails in them.\<close>

definition empty_dir :: "'d state_dir" where
  "empty_dir = \<lparr>sd_latest = None, sd_previous = None, sd_seen = None, sd_history = []\<rparr>"

inductive reaches :: "zone \<Rightarrow> string \<Rightarrow> rules_file \<Rightarrow> 'd state_dir \<Rightarrow> bool"
  for local hostname rules where
  start: "reaches local hostname rules empty_dir"
| step: "reaches local hostname rules sd \<Longrightarrow> map_ok (in_results inp) \<Longrightarrow>
    run_once local hostname rules inp sd = (err, sd') \<Longrightarrow> reaches local hostname rules sd'"

section \<open>Lemmas\<close>

subsection \<open>Collecting\<close>

lemma run_collectors_get:
  "mget (run_collectors registry elapsed cfg rules names) name =
     (if name \<in> set names
      then map_option (\<lambda>fn. run_collector name fn cfg rules (elapsed name)) (mget registry name) else None)"
proof (induction names rule: rev_induct)
  case (snoc n names)
  then show ?case by (auto simp: run_collectors_def split: option.split)
qed (simp add: run_collectors_def)

lemma run_collectors_ok [simp]: "map_ok (run_collectors registry elapsed cfg rules names)"
  by (induction names rule: rev_induct) (auto simp: run_collectors_def split: option.split)

subsection \<open>Loading\<close>

lemma mget_map_val: "mget (map (\<lambda>(k, v). (k, f v)) m) k = map_option f (mget m k)"
  by (induction m) auto

lemma mkeys_map_val: "mkeys (map (\<lambda>(k, v). (k, f v)) m) = mkeys m"
  by (induction m) (auto simp: mkeys_def)

lemma map_ok_map_val: "map_ok (map (\<lambda>(k, v). (k, f v)) m) \<longleftrightarrow> map_ok m"
  by (simp add: map_ok_def mkeys_map_val)

lemma load_seen_get:
  "mget (load_seen sd) k = map_option (\<lambda>r. r\<lparr>r_last_value := json_any (r_last_value r)\<rparr>)
     (case sd_seen sd of None \<Rightarrow> None | Some m \<Rightarrow> mget m k)"
  by (auto simp: load_seen_def mget_map_val split: option.split)

lemma load_seen_ok: "(case sd_seen sd of None \<Rightarrow> True | Some m \<Rightarrow> map_ok m) \<Longrightarrow> map_ok (load_seen sd)"
  by (auto simp: load_seen_def map_ok_map_val split: option.splits)

lemma prev_actionable_load:
  "prev_actionable (load_previous sd) =
     (case sd_latest sd of None \<Rightarrow> {} | Some f \<Rightarrow> now_actionable (f_observations f))"
  by (cases "sd_latest sd") (auto simp: load_previous_def set_eq_iff now_actionable_iff)

subsection \<open>Classification keeps the observations\<close>

lemma attach_frame [simp]: "o_id (attach_previous_value seen obs) = o_id obs"
  "o_kind (attach_previous_value seen obs) = o_kind obs"
  "o_subject (attach_previous_value seen obs) = o_subject obs"
  "o_value (attach_previous_value seen obs) = o_value obs"
  by (simp_all add: attach_previous_value_def Let_def split: option.split)

lemma classified_ids [simp]: "map o_id (classified rules results seen now) = map o_id (gather results)"
  by (simp add: classified_def apply_rules_def attach_previous_values_def Let_def)

lemma o_id_classified [simp]:
  "o_id ` set (classified rules results seen now) = o_id ` set (gather results)"
  by (metis classified_ids list.set_map)

lemma run_facts_simps [simp]:
  "f_diff (fst (run_facts hostname rules inp sd)) =
     s_diff (compute (classified rules (in_results inp) (load_seen sd) (in_now inp))
       (load_previous sd) (load_seen sd) (fmt_rfc3339 (in_now inp)))"
  "snd (run_facts hostname rules inp sd) =
     s_seen (compute (classified rules (in_results inp) (load_seen sd) (in_now inp))
       (load_previous sd) (load_seen sd) (fmt_rfc3339 (in_now inp)))"
  "f_observations (fst (run_facts hostname rules inp sd)) =
     s_obs (compute (classified rules (in_results inp) (load_seen sd) (in_now inp))
       (load_previous sd) (load_seen sd) (fmt_rfc3339 (in_now inp)))"
  "ri_started_at (f_run (fst (run_facts hostname rules inp sd))) = fmt_rfc3339 (in_now inp)"
  by (simp_all add: run_facts_def assemble_def Let_def)

lemma now_actionable_compute:
  "now_actionable (s_obs (compute observations previous seen now)) = now_actionable observations"
proof -
  have "zip (map o_id (s_obs (compute observations previous seen now)))
            (map o_severity (s_obs (compute observations previous seen now))) =
        zip (map o_id observations) (map o_severity observations)"
    using no_date_proj [OF compute_obs_frame [of observations previous seen now]] by simp
  moreover have "now_actionable os = fst ` {p \<in> set (zip (map o_id os) (map o_severity os)). actionable (snd p)}" for os
    by (force simp: now_actionable_def zip_map_map zip_same_conv_map image_iff)
  ultimately show ?thesis by simp
qed

subsection \<open>Saving\<close>

lemma save_files_cases:
  assumes "save_files ok facts seen days sd = (err, sd')"
  shows "err = Some RenameLatest \<and> sd' = sd \<or>
     err = Some WriteLatest \<and> sd_seen sd' = sd_seen sd \<and> sd_history sd' = sd_history sd \<and>
       sd_latest sd' = None \<and> sd_previous sd' = (if sd_latest sd = None then sd_previous sd else sd_latest sd) \<or>
     sd_latest sd' = Some facts \<and> sd_previous sd' = (if sd_latest sd = None then sd_previous sd else sd_latest sd) \<and>
       (err = Some WriteSeen \<and> sd_seen sd' = sd_seen sd \<and> sd_history sd' = sd_history sd \<or>
        (err = None \<or> (\<exists>s. err = Some (WriteHistory s) \<and> sd_history sd' = sd_history sd)) \<and>
          sd_seen sd' = Some seen)"
  using assms
  by (cases "sd_latest sd") (auto simp: save_files_def Let_def split: if_splits)

lemma save_unfold:
  assumes "save ok local facts seen days sd = (err, facts', kept, sd')"
  shows "err \<in> {Some MkHistory, Some MkSeen} \<and> sd' = sd \<and> facts' = facts \<and> kept = seen \<or>
    kept = fst (prune_seen local seen (ri_started_at (f_run facts)) retention_days) \<and>
    f_observations facts' = f_observations facts \<and> f_diff facts' = f_diff facts \<and>
    f_run facts' = f_run facts \<and>
    save_files ok facts' kept days sd = (err, sd')"
  using assms by (auto simp: save_def Let_def split: if_splits prod.splits)

subsection \<open>Ids that were once actionable\<close>

definition known_actionable :: "'d state_dir \<Rightarrow> string \<Rightarrow> bool" where
  "known_actionable sd k \<longleftrightarrow> Option.bind (mget (load_seen sd) k) r_last_actionable_run \<noteq> None"

lemma known_actionable_seen:
  "known_actionable sd k \<longleftrightarrow>
     (case sd_seen sd of None \<Rightarrow> False | Some m \<Rightarrow> Option.bind (mget m k) r_last_actionable_run \<noteq> None)"
  by (cases "sd_seen sd")
    (auto simp: known_actionable_def load_seen_get Option.bind_eq_None_conv split: option.splits)

lemma new_not_known:
  assumes "k \<in> set (d_new (f_diff (fst (run_facts hostname rules inp sd))))"
  shows "\<not> known_actionable sd k"
  using assms by (simp add: compute_lists verdict_in_iff known_actionable_def)

definition actionable_in :: "string \<Rightarrow> rules_file \<Rightarrow> 'd run_input \<Rightarrow> 'd state_dir \<Rightarrow> string set" where
  \<comment> \<open>the ids reported as warn or crit by the run\<close>
  "actionable_in hostname rules inp sd = now_actionable (f_observations (fst (run_facts hostname rules inp sd)))"

lemma actionable_in_eq:
  "actionable_in hostname rules inp sd =
     now_actionable (classified rules (in_results inp) (load_seen sd) (in_now inp))"
  by (simp add: actionable_in_def now_actionable_compute)

definition seen_ok :: "'d state_dir \<Rightarrow> bool" where
  "seen_ok sd \<longleftrightarrow> (case sd_seen sd of None \<Rightarrow> True | Some m \<Rightarrow> map_ok m)"

lemma seen_ok_load [simp]: "seen_ok sd \<Longrightarrow> map_ok (load_seen sd)"
  by (simp add: seen_ok_def load_seen_ok)

lemma run_seen_ok: "seen_ok sd \<Longrightarrow> map_ok (snd (run_facts hostname rules inp sd))"
  by (simp add: map_ok_compute)

lemma actionable_recorded:
  assumes "k \<in> actionable_in hostname rules inp sd"
  shows "\<exists>r. mget (snd (run_facts hostname rules inp sd)) k = Some r \<and>
     r_last_actionable_run r = Some (fmt_rfc3339 (in_now inp))"
  using assms by (simp add: actionable_in_eq compute_seen_act record_actionable_fields)

text \<open>What a run that wrote the seen-state left in it.\<close>

lemma run_once_seen:
  assumes "run_once local hostname rules inp sd = (err, sd')"
  shows "sd_seen sd' = sd_seen sd \<or>
    \<not> in_dry_run inp \<and> sd_seen sd' = Some (fst (prune_seen local (snd (run_facts hostname rules inp sd))
       (fmt_rfc3339 (in_now inp)) retention_days))"
proof (cases "in_dry_run inp")
  case False
  obtain facts seen where f: "run_facts hostname rules inp sd = (facts, seen)" by fastforce
  obtain e facts' kept sd'' where s: "save (in_ok inp) local facts seen history_days sd = (e, facts', kept, sd'')"
    by (metis prod.exhaust)
  have st: "ri_started_at (f_run facts) = fmt_rfc3339 (in_now inp)"
    using run_facts_simps(4) [of hostname rules inp sd] by (simp add: f)
  from assms False f s have "sd' = sd''" by (simp add: run_once_def)
  with save_unfold [OF s] False f st show ?thesis
    by (auto dest!: save_files_cases)
qed (use assms in \<open>simp add: run_once_def case_prod_unfold\<close>)

lemma run_once_ok:
  assumes "run_once local hostname rules inp sd = (None, sd')" "\<not> in_dry_run inp"
  shows "sd_seen sd' = Some (fst (prune_seen local (snd (run_facts hostname rules inp sd))
       (fmt_rfc3339 (in_now inp)) retention_days)) \<and>
    (\<exists>f. sd_latest sd' = Some f \<and> f_observations f = f_observations (fst (run_facts hostname rules inp sd))) \<and>
    sd_previous sd' = (if sd_latest sd = None then sd_previous sd else sd_latest sd)"
proof -
  obtain facts seen where f: "run_facts hostname rules inp sd = (facts, seen)" by fastforce
  obtain e facts' kept sd'' where s: "save (in_ok inp) local facts seen history_days sd = (e, facts', kept, sd'')"
    by (metis prod.exhaust)
  have st: "ri_started_at (f_run facts) = fmt_rfc3339 (in_now inp)"
    using run_facts_simps(4) [of hostname rules inp sd] by (simp add: f)
  from assms f s have "sd' = sd''" "e = None" by (simp_all add: run_once_def)
  with save_unfold [OF s] f st show ?thesis
    by (auto dest!: save_files_cases)
qed

lemma run_once_seen_ok:
  assumes "seen_ok sd" "run_once local hostname rules inp sd = (err, sd')"
  shows "seen_ok sd'"
  using run_once_seen [OF assms(2)] assms(1) run_seen_ok [OF assms(1)]
  by (auto simp: seen_ok_def prune_seen_map_ok)

lemma reaches_seen_ok: "reaches local hostname rules sd \<Longrightarrow> seen_ok sd"
proof (induction rule: reaches.induct)
  case start
  show ?case by (simp add: seen_ok_def empty_dir_def)
next
  case (step sd inp err sd')
  then show ?case by (blast intro: run_once_seen_ok)
qed

lemma run_known_actionable:
  assumes "seen_ok sd" "run_once local hostname rules inp sd = (None, sd')" "\<not> in_dry_run inp"
    and "k \<in> actionable_in hostname rules inp sd"
  shows "known_actionable sd' k"
proof -
  from actionable_recorded [OF assms(4)] obtain r where
    "mget (snd (run_facts hostname rules inp sd)) k = Some r"
    "r_last_actionable_run r = Some (fmt_rfc3339 (in_now inp))" by blast
  with prune_seen_keeps_actionable [OF run_seen_ok [OF assms(1)] this] run_once_ok [OF assms(2,3)]
  show ?thesis by (simp add: known_actionable_seen)
qed

lemma run_once_all_ok: "(\<And>x. in_ok inp x) \<Longrightarrow> fst (run_once local hostname rules inp sd) = None"
  by (simp add: run_once_def save_def save_files_def Let_def case_prod_unfold)

lemma previous_of_run:
  assumes "run_once local hostname rules inp sd = (None, sd')" "\<not> in_dry_run inp"
  shows "prev_actionable (load_previous sd') = actionable_in hostname rules inp sd"
  using run_once_ok [OF assms] by (auto simp: prev_actionable_load actionable_in_def)

end
