(* ===== verification/HR_Run_Props.thy ===== *)
theory HR_Run_Props
  imports HR_Run
begin

text \<open>
  The properties of runs: of single runs, of consecutive runs, and of every state a sequence of
  runs can reach.
\<close>

section \<open>Properties\<close>

text \<open>
  Consecutive runs are chained: after a run that saved its state, the next run (of any
  results, under any rules) reports as persisting exactly the ids actionable in both, as resolved
  those actionable only in the first, and as new or reopened those actionable only in the second.
\<close>

theorem run_diff_chain:
  assumes "run_once local hostname rules inp sd = (None, sd')" "\<not> in_dry_run inp"
  shows "let d = f_diff (fst (run_facts hostname' rules' inp' sd'));
             before = actionable_in hostname rules inp sd;
             after = actionable_in hostname' rules' inp' sd'
         in set (d_persisting d) = before \<inter> after \<and> set (d_resolved d) = before - after \<and>
            set (d_new d) \<union> set (d_reopened d) = after - before"
  using previous_of_run [OF assms]
  by (auto simp: Let_def compute_lists compute_resolved resolved_ids_eq verdict_in_iff actionable_in_eq)

definition sample_input :: "observation list \<Rightarrow> string \<Rightarrow> unit run_input" where
  "sample_input os now =
     \<lparr>in_results = [(''c'', (new_collector_result ''c'')\<lparr>c_observations := os\<rparr>)],
      in_now = \<lparr>t_ns = (case parse_iso_time utc now of Some t \<Rightarrow> t_ns t | None \<Rightarrow> 0), t_zone = utc\<rparr>,
      in_llm_status = ''ok'', in_delivery_errors = [], in_dry_run = False, in_ok = \<lambda>_. True\<rparr>"

definition present_rules :: rules_file where
  "present_rules = [(''k'', no_rule\<lparr>ru_type := ''present''\<rparr>)]"

definition sample_sighting :: observation where
  "sample_sighting = new_observation ''disk'' ''c'' ''s'' ''k'' ''m''"

lemma sample_actionable:
  "''disk'' \<in> actionable_in ''h'' present_rules (sample_input [sample_sighting] now) sd"
proof -
  have "list_ex (\<lambda>x. o_id x = ''disk'' \<and> actionable (o_severity x))
      (apply_rules (attach_previous_values [sample_sighting] seen) present_rules f t)" for seen f t
    by (simp add: apply_rules_def attach_previous_values_def present_rules_def apply_one_eq
        rule_for_def sample_sighting_def new_observation_def no_rule_def classify_def match_severity_def
        age_gated_def or_default_def actionable_def attach_previous_value_def Let_def
        split: option.split)
  moreover have "gather (in_results (sample_input [sample_sighting] now)) = [sample_sighting]"
    by (simp add: sample_input_def gather_def collector_health_def sorted_keys_def mkeys_def
        new_collector_result_def wd_cloud_backup_target_usage_def sample_sighting_def
        new_observation_def wd_disk_id_def Let_def)
  ultimately show ?thesis
    by (simp add: actionable_in_eq classified_def Let_def now_actionable_iff list_ex_iff)
qed

lemma sample_run:
  obtains sd' where
    "run_once utc ''h'' present_rules (sample_input [sample_sighting] now) sd = (None, sd')"
    "\<not> in_dry_run (sample_input [sample_sighting] now)"
  using run_once_all_ok [of "sample_input [sample_sighting] now" utc "''h''" present_rules sd]
  by (cases "run_once utc ''h'' present_rules (sample_input [sample_sighting] now) sd")
    (simp add: sample_input_def)

theorem run_diff_chain_witness:
  "\<exists>sd'. run_once utc ''h'' present_rules (sample_input [sample_sighting] ''2026-01-01T00:00:00Z'') empty_dir = (None, sd') \<and>
     ''disk'' \<in> set (d_persisting (f_diff (fst (run_facts ''h'' present_rules
       (sample_input [sample_sighting] ''2026-01-02T00:00:00Z'') sd'))))"
proof -
  obtain sd' where r:
    "run_once utc ''h'' present_rules (sample_input [sample_sighting] ''2026-01-01T00:00:00Z'') empty_dir = (None, sd')"
    "\<not> in_dry_run (sample_input [sample_sighting] ''2026-01-01T00:00:00Z'')" by (rule sample_run)
  from run_diff_chain [OF this, of "''h''" present_rules "sample_input [sample_sighting] ''2026-01-02T00:00:00Z''"]
  have "''disk'' \<in> set (d_persisting (f_diff (fst (run_facts ''h'' present_rules
       (sample_input [sample_sighting] ''2026-01-02T00:00:00Z'') sd'))))"
    by (simp only: Let_def) (simp add: sample_actionable)
  with r(1) show ?thesis by blast
qed

text \<open>
  Claim C2. Nothing is reported as brand new twice in a row: in every state the runs can reach,
  whatever failed before, an id that a saved run reports as warn or crit is not in the \<open>new\<close> list
  of the run after it, even though saving pruned the seen-state in between.
\<close>

theorem run_never_new_twice:
  assumes "reaches local hostname rules sd"
    and "run_once local hostname rules inp sd = (None, sd')" "\<not> in_dry_run inp"
    and "k \<in> actionable_in hostname rules inp sd"
  shows "k \<notin> set (d_new (f_diff (fst (run_facts hostname' rules' inp' sd'))))"
  using assms new_not_known [of k hostname' rules' inp' sd']
    run_known_actionable [OF reaches_seen_ok [OF assms(1)] assms(2,3,4)] by blast

theorem run_never_new_twice_witness:
  "\<exists>sd'. run_once utc ''h'' present_rules (sample_input [sample_sighting] ''2026-01-01T00:00:00Z'') empty_dir = (None, sd') \<and>
     ''disk'' \<notin> set (d_new (f_diff (fst (run_facts ''h'' present_rules
       (sample_input [sample_sighting] ''2026-04-01T00:00:00Z'') sd'))))"
proof -
  obtain sd' where r:
    "run_once utc ''h'' present_rules (sample_input [sample_sighting] ''2026-01-01T00:00:00Z'') empty_dir = (None, sd')"
    "\<not> in_dry_run (sample_input [sample_sighting] ''2026-01-01T00:00:00Z'')" by (rule sample_run)
  have e: "reaches utc ''h'' present_rules (empty_dir :: unit state_dir)" by (rule reaches.start)
  from run_never_new_twice [OF e r sample_actionable] r(1) show ?thesis by blast
qed

subsection \<open>What a failed save leaves\<close>


definition sample_facts :: "unit facts" where
  "sample_facts = fst (run_facts ''h'' present_rules (sample_input [] ''2026-01-01T00:00:00Z'') empty_dir)"


text \<open>
  Claim C7. The rotation happens before the write, so when writing the new facts fails the
  comparison basis is lost: in the next run every problem that is still actionable and has a
  record of having been so is reported as reopened, although it never went away.
\<close>

theorem write_failure_reopens:
  assumes "reaches local hostname rules sd" "\<not> in_dry_run inp"
    and "run_once local hostname rules inp sd = (Some WriteLatest, sd')"
    and "known_actionable sd k" "k \<in> actionable_in hostname' rules' inp' sd'"
  shows "k \<in> set (d_reopened (f_diff (fst (run_facts hostname' rules' inp' sd'))))"
proof -
  obtain facts seen where f: "run_facts hostname rules inp sd = (facts, seen)" by fastforce
  obtain e facts' kept sd'' where s: "save (in_ok inp) local facts seen history_days sd = (e, facts', kept, sd'')"
    by (metis prod.exhaust)
  from assms(2,3) f s have "sd' = sd''" "e = Some WriteLatest" by (simp_all add: run_once_def)
  with save_unfold [OF s] have "sd_latest sd' = None" "sd_seen sd' = sd_seen sd"
    by (auto dest!: save_files_cases)
  with assms(4) have "known_actionable sd' k" "prev_actionable (load_previous sd') = {}"
    by (simp_all add: known_actionable_seen prev_actionable_load)
  with assms(5) show ?thesis
    by (simp add: compute_lists verdict_in_iff known_actionable_def actionable_in_eq)
qed

theorem write_failure_reopens_witness:
  "\<exists>sd1 sd2. run_once utc ''h'' present_rules (sample_input [sample_sighting] ''2026-01-01T00:00:00Z'') empty_dir = (None, sd1) \<and>
     run_once utc ''h'' present_rules ((sample_input [sample_sighting] ''2026-01-02T00:00:00Z'')\<lparr>in_ok := \<lambda>x. x \<noteq> WriteLatest\<rparr>) sd1 =
       (Some WriteLatest, sd2) \<and>
     ''disk'' \<in> set (d_reopened (f_diff (fst (run_facts ''h'' present_rules
       (sample_input [sample_sighting] ''2026-01-03T00:00:00Z'') sd2))))"
proof -
  let ?i = "sample_input [sample_sighting] ''2026-01-01T00:00:00Z''"
  let ?j = "(sample_input [sample_sighting] ''2026-01-02T00:00:00Z'')\<lparr>in_ok := \<lambda>x. x \<noteq> WriteLatest\<rparr>"
  obtain sd1 where r: "run_once utc ''h'' present_rules ?i empty_dir = (None, sd1)" "\<not> in_dry_run ?i"
    by (rule sample_run)
  have e: "reaches utc ''h'' present_rules (empty_dir :: unit state_dir)" by (rule reaches.start)
  have ok: "map_ok (in_results ?i)" by (simp add: sample_input_def map_ok_def mkeys_def)
  have r1: "reaches utc ''h'' present_rules sd1" by (rule reaches.step [OF e ok r(1)])
  have known: "known_actionable sd1 ''disk''"
    by (rule run_known_actionable [OF reaches_seen_ok [OF e] r sample_actionable])
  obtain err sd2 where j: "run_once utc ''h'' present_rules ?j sd1 = (err, sd2)" by fastforce
  then have "err = Some WriteLatest"
    by (auto simp: run_once_def save_def save_files_def Let_def sample_input_def split: prod.splits if_splits)
  with j have j': "run_once utc ''h'' present_rules ?j sd1 = (Some WriteLatest, sd2)" by simp
  have "\<not> in_dry_run ?j" by (simp add: sample_input_def)
  from write_failure_reopens [OF r1 this j' known sample_actionable] r(1) j' show ?thesis by blast
qed

subsection \<open>The history directory\<close>

lemma fold_mdel_if: "(\<And>n. ok (RemoveHistory n)) \<Longrightarrow>
  fold (\<lambda>n d. if ok (RemoveHistory n) then mdel n d else d) ns d = fold mdel ns d"
  by simp

text \<open>
  Pruning the history keeps the newest files: with removals that succeed, of the files
  named \<open>facts-\<dots>\<close> exactly as many as asked for are left (or all, if there were fewer), every one
  kept sorts after every one removed, and no other file is touched.
\<close>

theorem prune_history_keeps_newest:
  assumes "map_ok dir" "\<And>n. ok (RemoveHistory n)"
  shows "let is_facts = (\<lambda>n. 6 < length n \<and> take 6 n = ''facts-'');
             dir' = prune_history ok keep dir;
             old = filter is_facts (mkeys dir); left = filter is_facts (mkeys dir')
         in length left = min keep (length old) \<and>
            (\<forall>k. mget dir' k = None \<or> mget dir' k = mget dir k) \<and>
            (\<forall>k. is_facts k \<or> mget dir' k = mget dir k) \<and>
            list_all (\<lambda>n. list_all (\<lambda>m. n \<le> m) left) (filter (\<lambda>n. n \<notin> set left) old)"
proof -
  define P where "P = (\<lambda>n :: string. 6 < length n \<and> take 6 n = ''facts-'')"
  define names where "names = sort (filter P (mkeys dir))"
  define gone where "gone = (if length names \<le> keep then [] else take (length names - keep) names)"
  have dn: "distinct names" "sorted names" "set names = {n \<in> set (mkeys dir). P n}"
    using assms(1) by (simp_all add: names_def map_ok_def)
  have pr: "prune_history ok keep dir = fold mdel gone dir"
    using assms(2) by (simp add: prune_history_def Let_def gone_def names_def P_def)
  have split: "names = gone @ drop (length gone) names"
    by (simp add: gone_def)
  have len: "length gone = length names - keep" by (simp add: gone_def)
  have gn: "set gone \<subseteq> {n \<in> set (mkeys dir). P n}"
    using dn(3) split by (metis Un_upper1 set_append)
  have keys: "mkeys (fold mdel gone dir) = filter (\<lambda>k. k \<notin> set gone) (mkeys dir)"
    by (simp add: fold_mdel mkeys_def filter_map comp_def)
  have left: "filter P (mkeys (fold mdel gone dir)) = filter (\<lambda>k. P k \<and> k \<notin> set gone) (mkeys dir)"
    by (simp add: keys conj_commute)
  have setleft: "set (filter P (mkeys (fold mdel gone dir))) = set (drop (length gone) names)"
  proof -
    have "set names = set gone \<union> set (drop (length gone) names)"
      by (metis split set_append)
    moreover have "set gone \<inter> set (drop (length gone) names) = {}"
      by (metis dn(1) split distinct_append)
    ultimately show ?thesis using dn(3) by (auto simp: left)
  qed
  have "length (filter P (mkeys (fold mdel gone dir))) = length (drop (length gone) names)"
  proof -
    have "distinct (filter P (mkeys (fold mdel gone dir)))" "distinct (drop (length gone) names)"
      using assms(1) dn(1) by (simp_all add: left map_ok_def)
    with setleft show ?thesis by (metis distinct_card)
  qed
  then have l: "length (filter P (mkeys (fold mdel gone dir))) = min keep (length (filter P (mkeys dir)))"
    by (simp add: len names_def)
  have g: "mget (fold mdel gone dir) k = (if k \<in> set gone then None else mget dir k)" for k
    by (rule gm.get_fold_del [OF assms(1)])
  have o: "n \<le> m" if "n \<in> set gone" "m \<in> set (drop (length gone) names)" for n m
    using dn(2) split that by (metis sorted_append)
  have "set (filter (\<lambda>n. n \<notin> set (filter P (mkeys (fold mdel gone dir)))) (filter P (mkeys dir))) \<subseteq> set gone"
    by (auto simp: left)
  with o setleft have ord: "list_all (\<lambda>n. list_all (\<lambda>m. n \<le> m) (filter P (mkeys (fold mdel gone dir))))
      (filter (\<lambda>n. n \<notin> set (filter P (mkeys (fold mdel gone dir)))) (filter P (mkeys dir)))"
    unfolding list_all_iff by blast
  have a: "\<forall>k. mget (fold mdel gone dir) k = None \<or> mget (fold mdel gone dir) k = mget dir k"
    by (simp add: g)
  have b: "\<forall>k. P k \<or> mget (fold mdel gone dir) k = mget dir k"
    using gn by (auto simp: g)
  from l a b ord show ?thesis
    unfolding Let_def pr P_def by blast
qed

theorem prune_history_keeps_newest_witness:
  "let dir = [(''facts-20260102.json'', ()), (''facts-20260101.json'', ()), (''notes'', ())];
       dir' = prune_history (\<lambda>_. True) 1 dir
   in length (filter (\<lambda>n. 6 < length n \<and> take 6 n = ''facts-'') (mkeys dir')) = 1 \<and>
      mget dir' ''notes'' = Some ()"
proof -
  have "map_ok [(''facts-20260102.json'', ()), (''facts-20260101.json'', ()), (''notes'', ())]"
    by (simp add: map_ok_def mkeys_def)
  from prune_history_keeps_newest [OF this, of "\<lambda>_. True" 1]
  have "length (filter (\<lambda>n. 6 < length n \<and> take 6 n = ''facts-'') (mkeys (prune_history (\<lambda>_. True) 1
          [(''facts-20260102.json'', ()), (''facts-20260101.json'', ()), (''notes'', ())]))) = 1"
    by (simp add: Let_def mkeys_def)
  moreover have "mget (prune_history (\<lambda>_. True) 1
          [(''facts-20260102.json'', ()), (''facts-20260101.json'', ()), (''notes'', ())]) ''notes'' = Some ()"
    by code_simp
  ultimately show ?thesis by (simp add: Let_def)
qed

subsection \<open>Broken collectors\<close>

lemma mem_results: "map_ok m \<Longrightarrow> mget m k = Some v \<longleftrightarrow> (k, v) \<in> set m"
  by (simp add: mget_def map_ok_def mkeys_def)

lemma failed_collectors_set:
  "map_ok results \<Longrightarrow> set (failed_collectors results) =
     {name. \<exists>result. mget results name = Some result \<and> c_status result \<noteq> ''ok''}"
  by (force simp: failed_collectors_def mem_results)

lemma collector_health_in:
  assumes "mget results name = Some result" "c_status result \<noteq> ''ok''"
  shows "health_observation name result \<in> set (collector_health results)"
proof -
  from assms have "name \<in> set (filter (\<lambda>n. c_status (the (mget results n)) \<noteq> ''ok'') (sorted_keys results))"
    by auto
  then have "health_observation name (the (mget results name)) \<in> set (collector_health results)"
    unfolding collector_health_def set_map by (rule imageI)
  with assms(1) show ?thesis by simp
qed

lemma run_obs_frame:
  "map o_id (f_observations (fst (run_facts hostname rules inp sd))) = map o_id (gather (in_results inp))"
  "map o_subject (f_observations (fst (run_facts hostname rules inp sd))) = map o_subject (gather (in_results inp))"
  using no_date_proj [OF compute_obs_frame]
  by (simp_all add: classified_def apply_rules_def attach_previous_values_def Let_def)

text \<open>
  A broken collector is never a clean bill of health: if a collector that was asked for
  panics or returns a nil pointer, the run goes on and the facts carry, whatever the other
  collectors return, the observation \<open>collector_failed.\<dots>\<close> about it and its name in the
  list of failed collectors.
\<close>

theorem broken_collector_reported:
  assumes "name \<in> set names" "mget registry name = Some fn"
    and "\<not> (\<exists>result. fn cfg rules = Returns (Some result))"
    and "in_results inp = run_collectors registry elapsed cfg rules names"
  shows "let f = fst (run_facts hostname rules inp sd)
    in (\<exists>x \<in> set (f_observations f). o_id x = ''collector_failed.'' @ name @ ''.'') \<and>
       name \<in> set (su_failed (f_summary f))"
proof -
  let ?r = "run_collector name fn cfg rules (elapsed name)"
  have get: "mget (in_results inp) name = Some ?r"
    using assms(1,2,4) by (simp add: run_collectors_get)
  have bad: "c_status ?r \<noteq> ''ok''"
    using assms(3) by (auto simp: run_collector_def panic_result_def split: outcome.split option.split)
  have ok: "map_ok (in_results inp)" by (simp add: assms(4))
  have "health_observation name ?r \<in> set (collector_health (in_results inp))"
    using get bad by (rule collector_health_in)
  then have "health_observation name ?r \<in> set (gather (in_results inp))"
    by (simp add: gather_def Let_def)
  then have "o_id (health_observation name ?r) \<in>
      set (map o_id (f_observations (fst (run_facts hostname rules inp sd))))"
    unfolding run_obs_frame by simp
  moreover have "o_id (health_observation name ?r) = ''collector_failed.'' @ name @ ''.''"
    by (simp add: health_observation_def new_observation_def)
  ultimately have 1: "\<exists>x \<in> set (f_observations (fst (run_facts hostname rules inp sd))).
      o_id x = ''collector_failed.'' @ name @ ''.''" by force
  have 2: "su_failed (f_summary (fst (run_facts hostname rules inp sd))) = failed_collectors (in_results inp)"
    by (simp add: run_facts_def assemble_def Let_def)
  from 1 show ?thesis using get bad by (simp add: 2 failed_collectors_set [OF ok])
qed

definition broken_registry :: "(string, (unit, unit) collector_fn) gmap" where
  "broken_registry = [(''logs'', \<lambda>_ _. Panics ''boom''), (''dmarc'', \<lambda>_ _. Returns (Some (new_collector_result ''dmarc'')))]"

definition broken_input :: "unit run_input" where
  "broken_input = (sample_input [] ''2026-01-01T00:00:00Z'')
     \<lparr>in_results := run_collectors broken_registry (\<lambda>_. f_zero) () [] [''logs'', ''dmarc'']\<rparr>"

theorem broken_collector_reported_witness:
  "''logs'' \<in> set (su_failed (f_summary (fst (run_facts ''h'' [] broken_input empty_dir)))) \<and>
   ''dmarc'' \<notin> set (su_failed (f_summary (fst (run_facts ''h'' [] broken_input empty_dir))))"
proof
  show "''logs'' \<in> set (su_failed (f_summary (fst (run_facts ''h'' [] broken_input empty_dir))))"
    using broken_collector_reported [of "''logs''" "[''logs'', ''dmarc'']" broken_registry "\<lambda>_ _. Panics ''boom''"
        "()" "[]" broken_input "\<lambda>_. f_zero" "''h''" empty_dir]
    by (simp add: broken_registry_def broken_input_def Let_def)
  have "su_failed (f_summary (fst (run_facts ''h'' [] broken_input empty_dir))) = [''logs'']"
    by code_simp
  then show "''dmarc'' \<notin> set (su_failed (f_summary (fst (run_facts ''h'' [] broken_input empty_dir))))"
    by simp
qed

subsection \<open>First sightings\<close>

lemma run_obs_from:
  assumes "x \<in> set (f_observations (fst (run_facts hostname rules inp sd)))"
  obtains z where "z \<in> set (gather (in_results inp))"
    "no_date x = no_date (apply_one rules (candidate_new (load_seen sd) (gather (in_results inp))) (Some (in_now inp))
       (attach_previous_value (load_seen sd) z))"
proof -
  have "map no_date (f_observations (fst (run_facts hostname rules inp sd))) =
      map no_date (classified rules (in_results inp) (load_seen sd) (in_now inp))"
    by (simp add: compute_obs_frame del: map_eq_conv)
  with assms have "no_date x \<in> set (map no_date (classified rules (in_results inp) (load_seen sd) (in_now inp)))"
    by (metis image_eqI list.set_map)
  with that show ?thesis
    by (auto simp: classified_def apply_rules_def attach_previous_values_def Let_def)
qed

lemma no_date_eqD:
  "no_date x = no_date y \<Longrightarrow> o_id x = o_id y \<and> o_kind x = o_kind y \<and> o_severity x = o_severity y"
  by (cases x; cases y) (simp add: no_date_def)

lemma classify_new_only:
  assumes "ru_type rule = ''new_only''" "ru_subjects rule = []"
  shows "fst (classify obs rule is_new now) = (if is_new then or_default (ru_level rule) ''warn'' else ''info'')"
  using assms by (simp add: classify_def match_severity_def Let_def)

text \<open>
  A \<open>new_only\<close> kind escalates on a first sighting and only then: an observation of such a
  kind has the level of its rule exactly when there is a seen-state and the id is not in it;
  on the very first run, when nothing is known, none escalates.
\<close>

theorem new_only_first_sighting:
  assumes "x \<in> set (f_observations (fst (run_facts hostname rules inp sd)))"
    and "ru_type (rule_for rules (o_kind x)) = ''new_only''" "ru_subjects (rule_for rules (o_kind x)) = []"
  shows "o_severity x =
    (if load_seen sd \<noteq> [] \<and> \<not> mhas (load_seen sd) (o_id x)
     then or_default (ru_level (rule_for rules (o_kind x))) ''warn'' else ''info'')"
proof -
  from run_obs_from [OF assms(1)] obtain z where z: "z \<in> set (gather (in_results inp))"
    "no_date x = no_date (apply_one rules (candidate_new (load_seen sd) (gather (in_results inp))) (Some (in_now inp))
       (attach_previous_value (load_seen sd) z))" .
  from no_date_eqD [OF z(2)] have k: "o_id x = o_id z" "o_kind x = o_kind z" by simp_all
  from no_date_eqD [OF z(2)] have "o_severity x = fst (classify (attach_previous_value (load_seen sd) z) (rule_for rules (o_kind z))
       (candidate_new (load_seen sd) (gather (in_results inp)) (o_id z)) (Some (in_now inp)))"
    by (simp add: apply_one_eq)
  note e = k this
  have c: "candidate_new (load_seen sd) (gather (in_results inp)) (o_id z) \<longleftrightarrow>
      load_seen sd \<noteq> [] \<and> \<not> mhas (load_seen sd) (o_id z)"
    using z(1) by (auto simp: candidate_new_def list_ex_iff)
  show ?thesis
    using assms(2,3) by (simp add: e classify_new_only c)
qed

theorem new_only_first_sighting_witness:
  "let f = fst (run_facts ''h'' [(''k'', no_rule\<lparr>ru_type := ''new_only''\<rparr>)]
                 (sample_input [sample_sighting] ''2026-01-01T00:00:00Z'') empty_dir)
   in list_all (\<lambda>x. o_severity x = ''info'') (f_observations f) \<and> f_observations f \<noteq> []"
proof -
  let ?rules = "[(''k'', no_rule\<lparr>ru_type := ''new_only''\<rparr>)]"
  let ?os = "f_observations (fst (run_facts ''h'' ?rules (sample_input [sample_sighting] ''2026-01-01T00:00:00Z'') empty_dir))"
  have k: "map o_kind ?os = [''k'']" by code_simp
  have kind: "o_kind x = ''k''" if "x \<in> set ?os" for x
  proof -
    from that have "o_kind x \<in> set (map o_kind ?os)" by simp
    then show ?thesis unfolding k by simp
  qed
  have "o_severity x = ''info''" if "x \<in> set ?os" for x
    using new_only_first_sighting [OF that] kind [OF that]
    by (simp add: rule_for_def no_rule_def load_seen_def empty_dir_def)
  moreover have "?os \<noteq> []" using k by auto
  ultimately show ?thesis by (simp add: Let_def list_all_iff)
qed

subsection \<open>A problem that comes back\<close>

text \<open>
  Five mornings of pending security updates on one host, under the rule the repository uses for
  them (a warning once they are a week old).  For each run: the severities, and the new, reopened
  and resolved ids.
\<close>

definition updates_rules :: rules_file where
  "updates_rules = [(''security_updates'', no_rule\<lparr>ru_type := ''threshold'', ru_direction := ''above'', ru_warn := Some (f_num 1),
     ru_min_age_days := Some (f_num 7)\<rparr>)]"

definition pending :: "observation list" where
  "pending = [(new_observation ''updates'' ''c'' ''host'' ''security_updates'' ''m'')\<lparr>o_value := VInt 2\<rparr>]"

fun story ::
  "(string \<times> observation list) list \<Rightarrow> unit state_dir \<Rightarrow>
   (string list \<times> string list \<times> string list \<times> string list) list" where
  "story [] sd = []"
| "story ((day, os) # ds) sd =
     (let inp = sample_input os day; f = fst (run_facts ''h'' updates_rules inp sd)
      in (map o_severity (f_observations f), d_new (f_diff f), d_reopened (f_diff f), d_resolved (f_diff f))
         # story ds (snd (run_once utc ''h'' updates_rules inp sd)))"


end
