(* ===== verification/HR_Narrative.thy ===== *)
theory HR_Narrative
  imports HR_Run
begin

text \<open>
  The narrative of the language model, \<^verbatim>\<open>src/tools/internal/healthreport/llm.go\<close>: what is sent to it,
  what of its answer is accepted, and the calls made around it.  The model server is a parameter: the
  outcome of loading it and of each chat request; \<open>parse\<close> is \<^verbatim>\<open>json.Unmarshal\<close>.  Keys are compared in
  ASCII lower case.
\<close>

section \<open>The contract\<close>

record top_issue =
  ti_id :: string
  ti_why :: string

record narrative =
  na_headline :: string
  na_assessment :: string
  na_issues :: "top_issue list"
  na_actions :: "string list"
  na_correlations :: "string list"

definition forbidden_keys :: "string list" where
  "forbidden_keys = [''severity'', ''level'', ''priority'', ''crit'', ''warn'', ''status'', ''verdict'']"

definition forbidden :: "string \<Rightarrow> bool" where
  "forbidden k \<longleftrightarrow> to_lower k \<in> set forbidden_keys"

fun strip_forbidden :: "any \<Rightarrow> any" where
  "strip_forbidden (VMap m) =
     VMap (filter (\<lambda>p. \<not> forbidden (fst p)) (map (\<lambda>(k, v). (k, strip_forbidden v)) m))"
| "strip_forbidden (VList vs) = VList (map strip_forbidden vs)"
| "strip_forbidden v = v"

definition accept_issue :: "(string \<Rightarrow> bool) \<Rightarrow> any \<Rightarrow> top_issue list" where
  \<comment> \<open>the loop body on one raw issue: none or one issue is appended\<close>
  "accept_issue valid_ids ri =
     (case ri of
        VMap issue \<Rightarrow>
          if valid_ids (as_str (mget issue ''observation_id''))
          then [\<lparr>ti_id = as_str (mget issue ''observation_id''),
                 ti_why = cut_to 300 (sprint (case mget issue ''why_it_matters'' of Some v \<Rightarrow> v | None \<Rightarrow> VNil))\<rparr>]
          else []
      | _ \<Rightarrow> [])"

fun collect_up_to :: "nat \<Rightarrow> ('a \<Rightarrow> 'b list) \<Rightarrow> 'a list \<Rightarrow> 'b list \<Rightarrow> 'b list" where
  \<comment> \<open>appends what each element gives and breaks as soon as there are \<open>limit\<close>\<close>
  "collect_up_to limit f [] acc = acc"
| "collect_up_to limit f (x # xs) acc =
     (let acc' = acc @ f x in
      if f x \<noteq> [] \<and> length acc' = limit then acc' else collect_up_to limit f xs acc')"

definition list_field :: "(string, any) gmap \<Rightarrow> string \<Rightarrow> any list" where
  "list_field m k = (case mget m k of Some (VList vs) \<Rightarrow> vs | _ \<Rightarrow> [])"

definition validate_narrative :: "any \<Rightarrow> (string \<Rightarrow> bool) \<Rightarrow> string + narrative" where
  "validate_narrative raw valid_ids =
     (case raw of
        VMap _ \<Rightarrow>
          let stripped = (case strip_forbidden raw of VMap m \<Rightarrow> m | _ \<Rightarrow> []);
              headline = as_str (mget stripped ''headline'');
              assessment = as_str (mget stripped ''assessment'')
          in if trim_space headline = [] then Inl ''missing headline''
             else if trim_space assessment = [] then Inl ''missing assessment''
             else Inr \<lparr>na_headline = cut_to 120 (trim_space headline),
                       na_assessment = cut_to 1200 (trim_space assessment),
                       na_issues = collect_up_to 3 (accept_issue valid_ids) (list_field stripped ''top_issues'') [],
                       na_actions = collect_up_to 5 (\<lambda>a. [cut_to 200 (sprint a)])
                                      (list_field stripped ''suggested_actions'') [],
                       na_correlations = collect_up_to 3 (\<lambda>c. [cut_to 200 (sprint c)])
                                      (list_field stripped ''correlations'') []\<rparr>
      | _ \<Rightarrow> Inl ''response is not an object'')"

section \<open>The input\<close>

definition obs_by_id :: "observation list \<Rightarrow> (string, observation) gmap" where
  "obs_by_id observations = fold (\<lambda>obs. mput (o_id obs) obs) observations []"

definition render_ids :: "(string, observation) gmap \<Rightarrow> string list \<Rightarrow> any" where
  "render_ids by_id ids =
     VList (concat (map (\<lambda>i. case mget by_id i of None \<Rightarrow> []
        | Some obs \<Rightarrow> [VMap [(''observation_id'', VStr i), (''severity'', VStr (o_severity obs)),
                             (''message'', VStr (o_message obs))]]) ids))"

definition build_llm_input :: "'d facts \<Rightarrow> (string, any) gmap" where
  "build_llm_input facts =
     (let by_id = obs_by_id (f_observations facts); diff = f_diff facts; su = f_summary facts;
          strs = (\<lambda>l. VList (map VStr l))
      in [(''date'', VStr (ri_id (f_run facts))),
          (''counts'', VMap ([(''crit'', VInt (su_crit su)), (''warn'', VInt (su_warn su)), (''info'', VInt (su_info su)),
                              (''collectors_failed'', strs (su_failed su))] @
                             (if su_pruned su = 0 then [] else [(''seen_pruned'', VInt (su_pruned su))]))),
          (''new'', render_ids by_id (d_new diff)),
          (''reopened'', render_ids by_id (d_reopened diff)),
          (''worsened'', VList (map (\<lambda>t. VMap [(''observation_id'', VStr (tr_id t)), (''from'', VStr (tr_from t)),
                (''to'', VStr (tr_to t)),
                (''message'', VStr (case mget by_id (tr_id t) of Some obs \<Rightarrow> o_message obs | None \<Rightarrow> []))])
             (d_worsened diff))),
          (''persisting_count'', VInt (length (d_persisting diff))),
          (''persisting_sample'', render_ids by_id (take 10 (d_persisting diff))),
          (''resolved'', render_ids by_id (d_resolved diff)),
          (''failed_collectors'', strs (su_failed su))])"

section \<open>The calls\<close>

datatype chat_reply = TransportError | HTTPError int | Reply any

record llm =
  llm_enabled :: bool
  llm_load :: bool \<comment> \<open>loading succeeds\<close>
  llm_chat :: "(string, any) gmap \<Rightarrow> nat \<Rightarrow> bool \<Rightarrow> chat_reply" \<comment> \<open>input, attempt, and whether the field \<open>think\<close> is sent\<close>
  llm_parse :: "string \<Rightarrow> any option"

datatype llm_call = CallLoad | CallChat nat bool | CallUnload

definition reply_content :: "any \<Rightarrow> string" where
  "reply_content response =
     (case response of
        VMap m \<Rightarrow> (case mget m ''message'' of Some (VMap msg) \<Rightarrow> as_str (mget msg ''content'') | _ \<Rightarrow> [])
      | _ \<Rightarrow> [])"

definition chat :: "llm \<Rightarrow> (string, any) gmap \<Rightarrow> nat \<Rightarrow> any option \<times> llm_call list" where
  \<comment> \<open>one attempt: a second request without \<open>think\<close> when the first was rejected with status 400\<close>
  "chat srv input attempt =
     (case llm_chat srv input attempt True of
        Reply r \<Rightarrow> (Some r, [CallChat attempt True])
      | HTTPError code \<Rightarrow>
          if code = 400 then
            (case llm_chat srv input attempt False of
               Reply r \<Rightarrow> (Some r, [CallChat attempt True, CallChat attempt False])
             | _ \<Rightarrow> (None, [CallChat attempt True, CallChat attempt False]))
          else (None, [CallChat attempt True])
      | TransportError \<Rightarrow> (None, [CallChat attempt True]))"

fun try_chats :: "llm \<Rightarrow> (string, any) gmap \<Rightarrow> (string \<Rightarrow> bool) \<Rightarrow> nat list \<Rightarrow> (narrative option \<times> string) \<times> llm_call list" where
  "try_chats srv input valid_ids [] = ((None, ''degraded_invalid''), [])"
| "try_chats srv input valid_ids (attempt # rest) =
     (case chat srv input attempt of
        (None, calls) \<Rightarrow> ((None, ''unavailable''), calls)
      | (Some response, calls) \<Rightarrow>
          (case Option.bind (llm_parse srv (reply_content response))
                  (\<lambda>parsed. case validate_narrative parsed valid_ids of Inr n \<Rightarrow> Some n | Inl _ \<Rightarrow> None) of
             Some n \<Rightarrow> ((Some n, ''ok''), calls)
           | None \<Rightarrow> (let (r, more) = try_chats srv input valid_ids rest in (r, calls @ more))))"

definition summarize :: "llm \<Rightarrow> 'd facts \<Rightarrow> (narrative option \<times> string) \<times> llm_call list" where
  "summarize srv facts =
     (if \<not> llm_enabled srv then ((None, ''disabled''), []) else
      let valid_ids = (\<lambda>i. i \<in> o_id ` set (f_observations facts)) in
      if \<not> llm_load srv then ((None, ''unavailable''), [CallLoad])
      else let (r, calls) = try_chats srv (build_llm_input facts) valid_ids [0, 1]
           in (r, CallLoad # calls @ [CallUnload]))"

section \<open>Lemmas\<close>

text \<open>\<open>clean\<close>: no forbidden key at any depth.\<close>

fun clean :: "any \<Rightarrow> bool" where
  "clean (VMap m) = list_all (\<lambda>(k, c). \<not> forbidden k \<and> c) (map (\<lambda>(k, v). (k, clean v)) m)"
| "clean (VList vs) = list_all (\<lambda>c. c) (map clean vs)"
| "clean v = True"

lemma clean_VMap: "clean (VMap m) \<longleftrightarrow> (\<forall>(k, v) \<in> set m. \<not> forbidden k \<and> clean v)"
  by (auto simp: list_all_iff)

lemma clean_VList: "clean (VList vs) \<longleftrightarrow> (\<forall>v \<in> set vs. clean v)"
  by (auto simp: list_all_iff)

lemma strip_clean: "clean (strip_forbidden v)"
proof (induction v rule: strip_forbidden.induct)
  case (1 m)
  then show ?case by (auto simp del: clean.simps simp: clean_VMap)
next
  case (2 vs)
  then show ?case by (auto simp del: clean.simps simp: clean_VList)
qed simp_all

lemma strip_of_clean: "clean v \<Longrightarrow> strip_forbidden v = v"
proof (induction v rule: strip_forbidden.induct)
  case (1 m)
  have "map (\<lambda>(k, v). (k, strip_forbidden v)) m = m"
    by (rule map_idI) (use 1 in \<open>auto simp del: clean.simps simp: clean_VMap\<close>)
  moreover from 1(2) have "filter (\<lambda>p. \<not> forbidden (fst p)) m = m"
    by (intro filter_True) (auto simp del: clean.simps simp: clean_VMap)
  ultimately show ?case by simp
next
  case (2 vs)
  have "map strip_forbidden vs = vs"
    by (rule map_idI) (use 2 in \<open>auto simp del: clean.simps simp: clean_VList\<close>)
  then show ?case by simp
qed simp_all

lemma collect_up_to_bound:
  assumes "length acc < limit" "\<And>x. length (f x) \<le> 1"
  shows "length (collect_up_to limit f xs acc) \<le> limit"
  using assms(1)
proof (induction xs arbitrary: acc)
  case (Cons x xs)
  from assms(2) [of x] have "f x = [] \<or> (\<exists>y. f x = [y])"
    by (cases "f x") auto
  then show ?case
  proof
    assume "f x = []"
    with Cons show ?thesis by simp
  next
    assume "\<exists>y. f x = [y]"
    with Cons show ?thesis by (auto simp: Let_def)
  qed
qed simp

lemma collect_up_to_set: "set (collect_up_to limit f xs acc) \<subseteq> set acc \<union> (\<Union>x \<in> set xs. set (f x))"
proof (induction xs arbitrary: acc)
  case (Cons x xs)
  from Cons.IH [of "acc @ f x"] show ?case by (auto simp: Let_def)
qed simp

text \<open>Stopping early is taking a prefix of what the whole list gives.\<close>

lemma collect_up_to_take:
  assumes "length acc < limit" "\<And>x. length (f x) \<le> 1"
  shows "collect_up_to limit f xs acc = take limit (acc @ concat (map f xs))"
  using assms(1)
proof (induction xs arbitrary: acc)
  case (Cons x xs)
  from assms(2) [of x] have "f x = [] \<or> (\<exists>y. f x = [y])"
    by (cases "f x") auto
  then show ?case
  proof
    assume "f x = []"
    with Cons show ?thesis by simp
  next
    assume "\<exists>y. f x = [y]"
    then obtain y where y: "f x = [y]" ..
    show ?thesis
    proof (cases "Suc (length acc) = limit")
      case True
      then have "limit - length acc = Suc 0" by simp
      with y True show ?thesis by (simp add: Let_def)
    next
      case False
      with Cons.prems have "length (acc @ [y]) < limit" by simp
      from Cons.IH [OF this] False y show ?thesis by (simp add: Let_def)
    qed
  qed
qed simp

lemma accept_issue_le: "length (accept_issue valid_ids ri) \<le> 1"
  by (simp add: accept_issue_def split: any.split)

lemma length_cut: "length (cut_to n s) \<le> n"
  by (simp add: cut_to_def)

lemma accept_issue_set:
  "i \<in> set (accept_issue valid_ids ri) \<Longrightarrow> valid_ids (ti_id i) \<and> length (ti_why i) \<le> 300"
  by (auto simp: accept_issue_def length_cut split: any.splits if_splits)

definition narrative_ok :: "(string \<Rightarrow> bool) \<Rightarrow> narrative \<Rightarrow> bool" where
  "narrative_ok valid_ids n \<longleftrightarrow>
     na_headline n \<noteq> [] \<and> length (na_headline n) \<le> 120 \<and>
     na_assessment n \<noteq> [] \<and> length (na_assessment n) \<le> 1200 \<and>
     length (na_issues n) \<le> 3 \<and> list_all (\<lambda>i. valid_ids (ti_id i) \<and> length (ti_why i) \<le> 300) (na_issues n) \<and>
     length (na_actions n) \<le> 5 \<and> list_all (\<lambda>a. length a \<le> 200) (na_actions n) \<and>
     length (na_correlations n) \<le> 3 \<and> list_all (\<lambda>a. length a \<le> 200) (na_correlations n)"

lemma validate_ok: "validate_narrative raw valid_ids = Inr n \<Longrightarrow> narrative_ok valid_ids n"
proof -
  assume v: "validate_narrative raw valid_ids = Inr n"
  then obtain m where raw: "raw = VMap m" by (auto simp: validate_narrative_def split: any.splits)
  define stripped where "stripped = (case strip_forbidden raw of VMap m \<Rightarrow> m | _ \<Rightarrow> [])"
  let ?h = "trim_space (as_str (mget stripped ''headline''))"
  let ?a = "trim_space (as_str (mget stripped ''assessment''))"
  from v have ne: "?h \<noteq> []" "?a \<noteq> []" and n: "n = \<lparr>na_headline = cut_to 120 ?h, na_assessment = cut_to 1200 ?a,
      na_issues = collect_up_to 3 (accept_issue valid_ids) (list_field stripped ''top_issues'') [],
      na_actions = collect_up_to 5 (\<lambda>a. [cut_to 200 (sprint a)]) (list_field stripped ''suggested_actions'') [],
      na_correlations = collect_up_to 3 (\<lambda>c. [cut_to 200 (sprint c)]) (list_field stripped ''correlations'') []\<rparr>"
    unfolding validate_narrative_def raw any.case Let_def stripped_def [unfolded raw, symmetric]
    by (simp_all split: if_splits)
  have c: "cut_to k s \<noteq> []" if "s \<noteq> []" "0 < k" for k s using that by (auto simp: cut_to_def)
  have l: "length (collect_up_to 3 (accept_issue valid_ids) xs []) \<le> 3"
    "length (collect_up_to 5 (\<lambda>a. [cut_to 200 (sprint a)]) xs []) \<le> 5"
    "length (collect_up_to 3 (\<lambda>a. [cut_to 200 (sprint a)]) xs []) \<le> 3" for xs
    by (rule collect_up_to_bound, simp, rule accept_issue_le)
      (rule collect_up_to_bound, simp, simp)+
  have s: "valid_ids (ti_id i) \<and> length (ti_why i) \<le> 300"
    if "i \<in> set (collect_up_to 3 (accept_issue valid_ids) xs [])" for i xs
    using that collect_up_to_set [of 3 "accept_issue valid_ids" xs "[]"] accept_issue_set by auto
  have t: "length a \<le> 200" if "a \<in> set (collect_up_to k (\<lambda>a. [cut_to 200 (sprint a)]) xs [])" for a k xs
    using that collect_up_to_set [of k "\<lambda>a. [cut_to 200 (sprint a)]" xs "[]"] length_cut [of 200] by auto
  show ?thesis
    by (auto simp: narrative_ok_def n ne c l length_cut list_all_iff dest: s t)
qed

section \<open>Properties\<close>

text \<open>
  Claim C11. Whatever the model answers, an accepted narrative obeys the contract: a non-empty
  headline of at most 120 bytes and assessment of at most 1200, at most three issues, each about an
  observation of this run and explained in at most 300 bytes, at most five actions and three
  correlations of at most 200 bytes each.
\<close>

theorem narrative_contract:
  assumes "validate_narrative raw valid_ids = Inr n"
  shows "na_headline n \<noteq> [] \<and> length (na_headline n) \<le> 120 \<and>
    na_assessment n \<noteq> [] \<and> length (na_assessment n) \<le> 1200 \<and>
    length (na_issues n) \<le> 3 \<and> list_all (\<lambda>i. valid_ids (ti_id i) \<and> length (ti_why i) \<le> 300) (na_issues n) \<and>
    length (na_actions n) \<le> 5 \<and> list_all (\<lambda>a. length a \<le> 200) (na_actions n) \<and>
    length (na_correlations n) \<le> 3 \<and> list_all (\<lambda>a. length a \<le> 200) (na_correlations n)"
  using validate_ok [OF assms] by (simp add: narrative_ok_def)

definition sample_issues :: "any list" where
  "sample_issues = [VMap [(''observation_id'', VStr ''disk''), (''level'', VInt 2)],
                    VMap [(''observation_id'', VStr ''made up'')]]"

definition sample_answer :: any where
  "sample_answer =
     VMap [(''headline'', VStr ''nas cache filling''), (''assessment'', VStr '' The cache grew. ''),
           (''Severity'', VStr ''crit''), (''top_issues'', VList sample_issues)]"

definition sample_kept :: "any list" where
  "sample_kept = map strip_forbidden sample_issues"

lemma sample_stripped: "strip_forbidden sample_answer =
    VMap [(''headline'', VStr ''nas cache filling''), (''assessment'', VStr '' The cache grew. ''),
          (''top_issues'', VList sample_kept)]"
proof -
  have "forbidden ''headline'' = False" "forbidden ''assessment'' = False" "forbidden ''Severity'' = True"
    "forbidden ''top_issues'' = False"
    by code_simp+
  then show ?thesis by (simp add: sample_answer_def sample_kept_def)
qed

lemma sample_issue_ids:
  "map ti_id (collect_up_to 3 (accept_issue (\<lambda>i. i = ''disk'')) sample_kept []) = [''disk'']"
proof -
  have "forbidden ''observation_id'' = False" "forbidden ''level'' = True" by code_simp+
  then show ?thesis by (simp add: sample_kept_def sample_issues_def accept_issue_def as_str_def Let_def)
qed

lemma sample_valid:
  "validate_narrative sample_answer v =
     Inr \<lparr>na_headline = cut_to 120 ''nas cache filling'', na_assessment = cut_to 1200 ''The cache grew.'',
          na_issues = collect_up_to 3 (accept_issue v) sample_kept [], na_actions = [], na_correlations = []\<rparr>"
proof -
  have blanks: "trim_space ''nas cache filling'' = ''nas cache filling''"
    "trim_space '' The cache grew. '' = ''The cache grew.''"
    by code_simp+
  from sample_answer_def obtain m where m: "sample_answer = VMap m" by blast
  show ?thesis
    unfolding validate_narrative_def sample_stripped any.case
    unfolding m any.case
    by (simp add: Let_def list_field_def as_str_def blanks del: cut_to_short)
qed

theorem narrative_contract_witness:
  "\<exists>n. validate_narrative sample_answer (\<lambda>i. i = ''disk'') = Inr n \<and> length (na_issues n) \<le> 3 \<and>
     map ti_id (na_issues n) = [''disk'']"
  using narrative_contract [OF sample_valid] sample_valid sample_issue_ids by fastforce

text \<open>
  The model cannot smuggle a severity in: after stripping no object at any depth has a key
  that is, in lower case, one of the forbidden ones; an answer without such keys is left as it is,
  and stripping twice is stripping once.
\<close>

theorem strip_forbidden_sound:
  "clean (strip_forbidden v) \<and> (strip_forbidden v = v \<or> clean v = False) \<and>
   strip_forbidden (strip_forbidden v) = strip_forbidden v"
  using strip_clean [of v] strip_of_clean [of v] strip_of_clean [of "strip_forbidden v"] by blast

text \<open>
  Load, generate, unload: a successful load is always followed by an unload as the last
  call, whatever the chats do, nothing is called when the narrative is disabled, there are at most
  four chat requests, and a narrative is returned exactly with the status ok.
\<close>

lemma chat_calls: "length (snd (chat srv input a)) \<le> 2 \<and> set (snd (chat srv input a)) \<subseteq> {CallChat a True, CallChat a False}"
  by (auto simp: chat_def split: chat_reply.split)

lemma try_chats_calls:
  "length (snd (try_chats srv input valid_ids as)) \<le> 2 * length as \<and>
   set (snd (try_chats srv input valid_ids as)) \<subseteq> {CallChat a t | a t. True}"
proof (induction "as")
  case (Cons a "as")
  obtain r calls where c: "chat srv input a = (r, calls)" by fastforce
  from chat_calls [of srv input a] have l: "length calls \<le> 2" "set calls \<subseteq> {CallChat a t | a t. True}"
    unfolding c by (simp_all, blast)
  obtain res more where t: "try_chats srv input valid_ids as = (res, more)" by fastforce
  from Cons.IH l show ?case
    unfolding try_chats.simps c t by (auto split: option.split)
qed simp

definition status_ok :: "(string \<Rightarrow> bool) \<Rightarrow> narrative option \<times> string \<Rightarrow> bool" where
  "status_ok valid_ids r \<longleftrightarrow> (case fst r of None \<Rightarrow> snd r \<noteq> ''ok'' | Some n \<Rightarrow> snd r = ''ok'' \<and> narrative_ok valid_ids n)"

lemma try_chats_status: "status_ok valid_ids (fst (try_chats srv input valid_ids as))"
proof (induction "as")
  case (Cons a "as")
  obtain r cs where c: "chat srv input a = (r, cs)" by fastforce
  obtain res more where t: "try_chats srv input valid_ids as = (res, more)" by fastforce
  show ?case
  proof (cases r)
    case None
    with c show ?thesis by (simp add: status_ok_def)
  next
    case (Some resp)
    show ?thesis
    proof (cases "Option.bind (llm_parse srv (reply_content resp))
        (\<lambda>parsed. case validate_narrative parsed valid_ids of Inr n \<Rightarrow> Some n | Inl _ \<Rightarrow> None)")
      case None
      with Cons.IH show ?thesis by (simp add: c t Some)
    next
      case (Some n)
      then obtain parsed where p: "(case validate_narrative parsed valid_ids of Inr n \<Rightarrow> Some n | Inl _ \<Rightarrow> None) = Some n"
        by (auto simp: bind_eq_Some_conv)
      have "validate_narrative parsed valid_ids = Inr n"
        using p by (cases "validate_narrative parsed valid_ids") simp_all
      then have "narrative_ok valid_ids n" by (rule validate_ok)
      with Some \<open>r = Some resp\<close> show ?thesis by (simp add: c status_ok_def)
    qed
  qed
qed (simp add: status_ok_def)

theorem summarize_unloads:
  "let ((n, status), calls) = summarize srv facts in
   (if \<not> llm_enabled srv then calls = [] \<and> status = ''disabled''
    else if \<not> llm_load srv then calls = [CallLoad] \<and> status = ''unavailable''
    else hd calls = CallLoad \<and> last calls = CallUnload \<and> length calls \<le> 6 \<and>
      set (butlast (tl calls)) \<subseteq> {CallChat a t | a t. True}) \<and>
   (n \<noteq> None) = (status = ''ok'')"
proof -
  let ?v = "\<lambda>i. i \<in> o_id ` set (f_observations facts)"
  let ?i = "build_llm_input facts"
  obtain n s calls where t: "try_chats srv ?i ?v [0, 1] = ((n, s), calls)" by (metis prod.exhaust)
  have l: "length calls \<le> 4" "set calls \<subseteq> {CallChat a t | a t. True}"
    using try_chats_calls [of srv ?i ?v "[0, 1]"] unfolding t by auto
  have s: "(n \<noteq> None) = (s = ''ok'')"
    using try_chats_status [of ?v srv ?i "[0, 1]"] unfolding t status_ok_def by (cases n) auto
  show ?thesis
    unfolding summarize_def Let_def t using l s by simp
qed

end
