(* ===== verification/HR_Report.thy ===== *)
theory HR_Report
  imports HR_Narrative
begin

text \<open>
  The text of the report: \<^verbatim>\<open>src/tools/internal/healthreport/history.go\<close> (the trend and the table of
  findings per subject) and \<^verbatim>\<open>render.go\<close> (the Markdown body, its mechanical summary, the headline
  and the body of the push notification).  The history directory is a listing and a function that
  reads a file; \<open>None\<close> stands for an error of reading or decoding.
\<close>

section \<open>History\<close>

record trend_point =
  tp_date :: string
  tp_crit :: int
  tp_warn :: int

definition history_match :: "string \<Rightarrow> (string \<times> string \<times> string) option" where
  \<comment> \<open>the three groups of \<^verbatim>\<open>^facts-(\d{4})(\d{2})(\d{2})\.json$\<close>\<close>
  "history_match name =
     (let ds = take 8 (drop 6 name)
      in if has_prefix name ''facts-'' \<and> length ds = 8 \<and> list_all is_digit ds \<and> drop 14 name = ''.json''
         then Some (take 4 ds, take 2 (drop 4 ds), drop 6 ds) else None)"

definition trend_of :: "(string \<Rightarrow> (int \<times> int) option) \<Rightarrow> string \<Rightarrow> trend_point list" where
  \<comment> \<open>one file: none or one point is appended\<close>
  "trend_of read name =
     (case (history_match name, read name) of
        (Some (year, month, day), Some (crit, warn)) \<Rightarrow>
          [\<lparr>tp_date = month @ ''-'' @ day, tp_crit = crit, tp_warn = warn\<rparr>]
      | _ \<Rightarrow> [])"

definition trend :: "string list option \<Rightarrow> (string \<Rightarrow> (int \<times> int) option) \<Rightarrow> nat \<Rightarrow> trend_point list" where
  "trend entries read days =
     (case entries of None \<Rightarrow> []
      | Some es \<Rightarrow>
          let names = sort (filter (\<lambda>n. history_match n \<noteq> None) es);
              recent = (if days < length names then drop (length names - days) names else names)
          in concat (map (trend_of read) recent))"

record host_finding_count =
  hf_subject :: string
  hf_crit :: nat
  hf_warn :: nat
  hf_total :: nat

text \<open>The order of the rows as an order on their keys: the type class gives stable sorting.\<close>

datatype row_key = RowKey (rk_crit: nat) (rk_total: nat) (rk_subject: string)

instantiation row_key :: linorder
begin

fun less_eq_row_key :: "row_key \<Rightarrow> row_key \<Rightarrow> bool" where
  "RowKey c t s \<le> RowKey c' t' s' \<longleftrightarrow> c' < c \<or> c = c' \<and> (t' < t \<or> t = t' \<and> s \<le> s')"

fun less_row_key :: "row_key \<Rightarrow> row_key \<Rightarrow> bool" where
  "RowKey c t s < RowKey c' t' s' \<longleftrightarrow>
     (if c \<noteq> c' then c' < c else if t \<noteq> t' then t' < t else s < s')"

instance
proof
  fix x y z :: row_key
  show "(x < y) = (x \<le> y \<and> \<not> y \<le> x)"
    by (cases x; cases y) auto
  show "x \<le> x"
    by (cases x) simp
  show "x \<le> y \<Longrightarrow> y \<le> z \<Longrightarrow> x \<le> z"
    by (cases x; cases y; cases z) auto
  show "x \<le> y \<Longrightarrow> y \<le> x \<Longrightarrow> x = y"
    by (cases x; cases y) auto
  show "x \<le> y \<or> y \<le> x"
    by (cases x; cases y) (auto simp: not_less)
qed

end

definition row_key_of :: "host_finding_count \<Rightarrow> row_key" where
  "row_key_of row = RowKey (hf_crit row) (hf_total row) (hf_subject row)"

definition is_actionable_sev :: "observation \<Rightarrow> bool" where
  "is_actionable_sev obs \<longleftrightarrow> o_severity obs = ''crit'' \<or> o_severity obs = ''warn''"

definition subject_of :: "observation \<Rightarrow> string" where
  "subject_of obs = (if o_subject obs = [] then ''unknown'' else o_subject obs)"

definition count_step :: "observation \<Rightarrow> (string, nat \<times> nat) gmap \<Rightarrow> (string, nat \<times> nat) gmap" where
  "count_step obs by_counts =
     (if \<not> is_actionable_sev obs then by_counts else
      let (crit, warn) = (case mget by_counts (subject_of obs) of Some c \<Rightarrow> c | None \<Rightarrow> (0, 0))
      in mput (subject_of obs)
           (if o_severity obs = ''crit'' then (Suc crit, warn) else (crit, Suc warn)) by_counts)"

definition by_host :: "'d facts \<Rightarrow> host_finding_count list" where
  "by_host facts =
     sort_key row_key_of
       (map (\<lambda>(subject, crit, warn).
              \<lparr>hf_subject = subject, hf_crit = crit, hf_warn = warn, hf_total = crit + warn\<rparr>)
          (fold count_step (f_observations facts) []))"

section \<open>Rendering\<close>

definition num :: "nat \<Rightarrow> string" where "num n = int_str (int n)"

definition dot_sep :: string where "dot_sep = '' '' @ mid_dot @ '' ''"
definition dash_sep :: string where "dash_sep = '' '' @ em_dash @ '' ''"

definition summary_counts :: "'d facts \<Rightarrow> string" where
  "summary_counts facts =
     (let su = f_summary facts;
          levels = (if 0 < su_crit su then [num (su_crit su) @ '' crit''] else []) @
                   (if 0 < su_warn su then [num (su_warn su) @ '' warn''] else []);
          parts = (if levels = [] then [''all clear''] else levels) @
                  [num (length (d_new (f_diff facts))) @ '' new''] @
                  (if d_resolved (f_diff facts) \<noteq> []
                   then [num (length (d_resolved (f_diff facts))) @ '' resolved''] else [])
      in join dot_sep parts)"

definition better_new :: "observation \<Rightarrow> observation \<Rightarrow> bool" where
  "better_new obs best \<longleftrightarrow> severity_rank (o_severity best) < severity_rank (o_severity obs)"

definition scan_worst :: "observation list \<Rightarrow> observation option" where
  "scan_worst xs =
     fold (\<lambda>obs best. case best of None \<Rightarrow> Some obs
                      | Some b \<Rightarrow> if better_new obs b then Some obs else Some b) xs None"

definition lookups :: "(string, observation) gmap \<Rightarrow> string list \<Rightarrow> observation list" where
  \<comment> \<open>the loops over ids skip those without an observation\<close>
  "lookups by_id ids = concat (map (\<lambda>i. case mget by_id i of None \<Rightarrow> [] | Some obs \<Rightarrow> [obs]) ids)"

definition worst_new :: "'d facts \<Rightarrow> (string, observation) gmap \<Rightarrow> observation option" where
  "worst_new facts by_id = scan_worst (lookups by_id (d_new (f_diff facts)))"

definition plural :: "'a list \<Rightarrow> string" where
  "plural xs = (if length xs = 1 then [] else ''s'')"

definition fallback_counts :: "summary \<Rightarrow> string" where
  "fallback_counts su =
     (if 0 < su_crit su then
        ''**'' @ num (su_crit su) @ '' critical**'' @
        (if 0 < su_warn su then '', '' @ num (su_warn su) @ '' warnings'' else []) @ ''.'' @ newline
      else if 0 < su_warn su then ''**'' @ num (su_warn su) @ '' warnings**, nothing critical.'' @ newline
      else ''**All clear**'' @ dash_sep @ ''nothing above informational.'' @ newline)"

definition fallback_news :: "diff_result \<Rightarrow> observation option \<Rightarrow> string" where
  "fallback_news diff wst =
     (if d_new diff \<noteq> [] then
        num (length (d_new diff)) @ '' new since the last run'' @
        (case wst of None \<Rightarrow> [] | Some w \<Rightarrow> '', worst: `'' @ o_id w @ ''`'' @ dash_sep @ o_message w) @
        ''.'' @ newline
      else if d_persisting diff \<noteq> [] then
        ''Nothing new; '' @ num (length (d_persisting diff)) @ '' issue'' @ plural (d_persisting diff) @
        '' still open.'' @ newline
      else ''Nothing new and nothing open.'' @ newline)"

definition render_fallback :: "'d facts \<Rightarrow> observation option \<Rightarrow> string" where
  "render_fallback facts wst =
     trim_space
       (fallback_counts (f_summary facts) @ fallback_news (f_diff facts) wst @
        (let failed = su_failed (f_summary facts)
         in if failed = [] then [] else
            num (length failed) @ '' collector'' @ plural failed @
            '' failed, so this report is incomplete.'' @ newline))"

definition obs_text :: "observation \<Rightarrow> string" where
  "obs_text obs = ''** `'' @ o_id obs @ ''`'' @ dash_sep @ o_message obs"

definition obs_since :: "observation \<Rightarrow> (string \<Rightarrow> bool) \<Rightarrow> string" where
  "obs_since obs persisting =
     (case o_first_seen obs of
        VStr fs \<Rightarrow> if fs \<noteq> [] \<and> persisting (o_id obs) then '' _(since '' @ cut_to 10 fs @ '')_'' else []
      | _ \<Rightarrow> [])"

definition obs_line :: "observation \<Rightarrow> (string \<Rightarrow> bool) \<Rightarrow> string" where
  "obs_line obs persisting = (''- **'' @ to_upper (o_severity obs)) @ obs_text obs @ obs_since obs persisting"

definition notices :: "'d facts \<Rightarrow> observation list" where
  "notices facts = filter (\<lambda>obs. o_notice obs \<and> o_severity obs = ''info'') (f_observations facts)"

definition run_date :: "'d facts \<Rightarrow> string" where
  "run_date facts = cut_to 10 (ri_id (f_run facts))"

definition titled :: "string \<Rightarrow> string list \<Rightarrow> string" where
  "titled title lines = title @ newline @ concat (map (\<lambda>l. l @ newline) lines) @ newline"

definition counted :: "string \<Rightarrow> nat \<Rightarrow> string" where
  "counted title n = ''## '' @ title @ '' ('' @ num n @ '')''"

definition worsened_line :: "(string, observation) gmap \<Rightarrow> severity_transition \<Rightarrow> string" where
  "worsened_line by_id w =
     ''- **'' @ to_upper (tr_from w) @ '' '' @ arrow_r @ '' '' @ to_upper (tr_to w) @ ''** `'' @ tr_id w @ ''`'' @
     dash_sep @ (case mget by_id (tr_id w) of Some obs \<Rightarrow> o_message obs | None \<Rightarrow> [])"

definition issue_lines :: "top_issue list \<Rightarrow> string list" where
  "issue_lines issues =
     map (\<lambda>(i, issue). num (Suc i) @ ''. `'' @ ti_id issue @ ''`'' @ dash_sep @ ti_why issue) (enumerate 0 issues)"

definition failed_line :: "'d results \<Rightarrow> string \<Rightarrow> string" where
  "failed_line collectors name =
     ''- `'' @ name @ ''`'' @ dash_sep @ (case mget collectors name of Some c \<Rightarrow> c_error c | None \<Rightarrow> [])"

definition unless_nil :: "'a list \<Rightarrow> string \<Rightarrow> string" where
  "unless_nil xs text = (if xs = [] then [] else text)"

definition from_narrative :: "narrative option \<Rightarrow> (narrative \<Rightarrow> 'a list) \<Rightarrow> 'a list" where
  "from_narrative narrative f = (case narrative of None \<Rightarrow> [] | Some n \<Rightarrow> f n)"

definition render_sections :: "'d facts \<Rightarrow> narrative option \<Rightarrow> string list" where
  "render_sections facts narrative =
     (let by_id = obs_by_id (f_observations facts); diff = f_diff facts;
          persisting = (\<lambda>i. i \<in> set (d_persisting diff));
          listed = (\<lambda>ids. map (\<lambda>obs. obs_line obs persisting) (lookups by_id ids));
          bullets = map (\<lambda>s. ''- '' @ s)
      in [unless_nil (d_new diff) (titled (counted ''New today'' (length (d_new diff))) (listed (d_new diff))),
          unless_nil (d_worsened diff) (titled (counted ''Worsened'' (length (d_worsened diff)))
            (map (worsened_line by_id) (d_worsened diff))),
          unless_nil (d_reopened diff) (titled (counted ''Reopened'' (length (d_reopened diff))) (listed (d_reopened diff))),
          unless_nil (from_narrative narrative na_issues)
            (titled ''## What to look at first'' (issue_lines (from_narrative narrative na_issues))),
          unless_nil (from_narrative narrative na_actions) (titled ''### Suggested actions'' (bullets (from_narrative narrative na_actions))),
          unless_nil (from_narrative narrative na_correlations)
            (titled ''### Possible correlations'' (bullets (from_narrative narrative na_correlations))),
          unless_nil (notices facts) (titled (counted ''Notices'' (length (notices facts)))
            (map (\<lambda>obs. obs_line obs persisting) (notices facts))),
          unless_nil (d_resolved diff) (titled (counted ''Resolved since last run'' (length (d_resolved diff)))
            (map (\<lambda>i. ''- `'' @ i @ ''`'') (d_resolved diff))),
          unless_nil (d_persisting diff) (titled (counted ''Still open'' (length (d_persisting diff)))
            (listed (d_persisting diff))),
          unless_nil (su_failed (f_summary facts)) (titled ''## Collectors that did not run''
            (map (failed_line (f_collectors facts)) (su_failed (f_summary facts))))])"

definition render_head :: "'d facts \<Rightarrow> narrative option \<Rightarrow> string \<Rightarrow> string" where
  "render_head facts narrative fallback =
     ''# Homelab health'' @ dash_sep @ run_date facts @ newline @ newline @
     (case narrative of
        Some n \<Rightarrow> ''**'' @ na_headline n @ ''**'' @ newline @ newline @ na_assessment n @ newline
      | None \<Rightarrow> fallback @ newline) @
     newline @ summary_counts facts @ newline @ newline"

definition render_foot :: "'d facts \<Rightarrow> string" where
  "render_foot facts =
     ''---'' @ newline @
     ''Run '' @ ri_id (f_run facts) @ '' on '' @ ri_host (f_run facts) @ dot_sep @ ''LLM: '' @ f_llm_status facts @
     dot_sep @ num (length (f_observations facts)) @ '' observations from '' @ num (length (f_collectors facts)) @
     '' collectors.'' @ newline"

definition render :: "'d facts \<Rightarrow> narrative option \<Rightarrow> string \<times> string" where
  "render facts narrative =
     (let fallback = render_fallback facts (worst_new facts (obs_by_id (f_observations facts)))
      in (render_head facts narrative fallback @ concat (render_sections facts narrative) @ render_foot facts,
          fallback))"

definition headline :: "narrative option \<Rightarrow> string \<Rightarrow> string" where
  "headline narrative fallback =
     (if (case narrative of None \<Rightarrow> False | Some n \<Rightarrow> na_headline n \<noteq> []) then na_headline (the narrative)
      else if fallback = [] then ''Homelab health''
      else replace_all (hd (split_char (CHR 0x0A) fallback)) ''**'' [])"

definition ntfy_body :: "'d facts \<Rightarrow> nat \<Rightarrow> string" where
  "ntfy_body facts limit =
     (let diff = f_diff facts; by_id = obs_by_id (f_observations facts);
          highlights = take limit (if d_new diff = [] then d_persisting diff else d_new diff);
          failed = su_failed (f_summary facts)
      in cut_to 3800 (join newline
           ([summary_counts facts] @
            map (\<lambda>obs. to_upper (o_severity obs) @ '' '' @ o_message obs) (lookups by_id highlights) @
            (if failed = [] then [] else [''collectors failed: '' @ join '', '' failed]))))"

section \<open>Lemmas\<close>

subsection \<open>Lines of the body\<close>

lemma sublist_concat: "x \<in> set xs \<Longrightarrow> sublist x (concat xs)"
  by (auto dest!: split_list)

lemma sublist_titled: "l \<in> set lines \<Longrightarrow> sublist l (titled title lines)"
proof -
  assume "l \<in> set lines"
  then have "sublist (l @ newline) (concat (map (\<lambda>l. l @ newline) lines))"
    by (intro sublist_concat) auto
  then have "sublist l (concat (map (\<lambda>l. l @ newline) lines))"
    by (meson sublist_append_rightI sublist_order.order.trans)
  then show ?thesis
    unfolding titled_def by (metis append_assoc sublist_appendI sublist_order.order.trans)
qed

lemma body_has: "sublist (concat (render_sections facts narrative)) (fst (render facts narrative))"
  by (simp add: render_def Let_def sublist_appendI)

lemma line_in_body:
  assumes "k < 10" "render_sections facts narrative ! k = titled title lines" "l \<in> set lines"
  shows "sublist l (fst (render facts narrative))"
proof -
  have "length (render_sections facts narrative) = 10" by (simp add: render_sections_def Let_def)
  with assms(1,2) have "titled title lines \<in> set (render_sections facts narrative)" by (metis nth_mem)
  then have "sublist (titled title lines) (concat (render_sections facts narrative))" by (rule sublist_concat)
  with sublist_titled [OF assms(3)] body_has show ?thesis by (meson sublist_order.order.trans)
qed

lemma unless_nil_Cons: "x \<in> set xs \<Longrightarrow> unless_nil xs s = s"
  by (auto simp: unless_nil_def)

lemma lookups_in: "obs \<in> set (lookups by_id ids) \<longleftrightarrow> (\<exists>i \<in> set ids. mget by_id i = Some obs)"
  by (force simp: lookups_def split: option.splits)

definition since_of :: "'d facts \<Rightarrow> string \<Rightarrow> bool" where
  "since_of facts = (\<lambda>i. i \<in> set (d_persisting (f_diff facts)))"

lemma sections:
  "i \<in> set (d_new (f_diff facts)) \<Longrightarrow> render_sections facts narrative ! 0 =
     titled (counted ''New today'' (length (d_new (f_diff facts))))
       (map (\<lambda>obs. obs_line obs (since_of facts)) (lookups (obs_by_id (f_observations facts)) (d_new (f_diff facts))))"
  "w \<in> set (d_worsened (f_diff facts)) \<Longrightarrow> render_sections facts narrative ! 1 =
     titled (counted ''Worsened'' (length (d_worsened (f_diff facts))))
       (map (worsened_line (obs_by_id (f_observations facts))) (d_worsened (f_diff facts)))"
  "i \<in> set (d_reopened (f_diff facts)) \<Longrightarrow> render_sections facts narrative ! 2 =
     titled (counted ''Reopened'' (length (d_reopened (f_diff facts))))
       (map (\<lambda>obs. obs_line obs (since_of facts)) (lookups (obs_by_id (f_observations facts)) (d_reopened (f_diff facts))))"
  "obs \<in> set (notices facts) \<Longrightarrow> render_sections facts narrative ! 6 =
     titled (counted ''Notices'' (length (notices facts)))
       (map (\<lambda>obs. obs_line obs (since_of facts)) (notices facts))"
  "i \<in> set (d_persisting (f_diff facts)) \<Longrightarrow> render_sections facts narrative ! 8 =
     titled (counted ''Still open'' (length (d_persisting (f_diff facts))))
       (map (\<lambda>obs. obs_line obs (since_of facts)) (lookups (obs_by_id (f_observations facts)) (d_persisting (f_diff facts))))"
  "name \<in> set (su_failed (f_summary facts)) \<Longrightarrow> render_sections facts narrative ! 9 =
     titled ''## Collectors that did not run''
       (map (failed_line (f_collectors facts)) (su_failed (f_summary facts)))"
  by (simp_all add: render_sections_def Let_def unless_nil_Cons since_of_def)

lemma listed_line_in_body:
  assumes "obs \<in> set (lookups (obs_by_id (f_observations facts)) ids)"
    and "ids \<in> {d_new (f_diff facts), d_reopened (f_diff facts), d_persisting (f_diff facts)}"
  shows "sublist (obs_line obs (since_of facts)) (fst (render facts narrative))"
proof -
  from assms(1) obtain i where i: "i \<in> set ids" by (auto simp: lookups_in)
  from assms(2) consider "ids = d_new (f_diff facts)" | "ids = d_reopened (f_diff facts)"
    | "ids = d_persisting (f_diff facts)" by blast
  then show ?thesis
  proof cases
    case 1
    show ?thesis by (rule line_in_body [OF _ sections(1)]) (use 1 i assms(1) in simp_all)
  next
    case 2
    show ?thesis by (rule line_in_body [OF _ sections(3)]) (use 2 i assms(1) in simp_all)
  next
    case 3
    show ?thesis by (rule line_in_body [OF _ sections(5)]) (use 3 i assms(1) in simp_all)
  qed
qed

lemma worsened_in_body:
  "w \<in> set (d_worsened (f_diff facts)) \<Longrightarrow>
   sublist (worsened_line (obs_by_id (f_observations facts)) w) (fst (render facts narrative))"
  by (rule line_in_body [OF _ sections(2)]) simp_all

lemma failed_in_body:
  "name \<in> set (su_failed (f_summary facts)) \<Longrightarrow>
   sublist (failed_line (f_collectors facts) name) (fst (render facts narrative))"
  by (rule line_in_body [OF _ sections(6)]) simp_all

lemma notice_in_body:
  "obs \<in> set (notices facts) \<Longrightarrow> sublist (obs_line obs (since_of facts)) (fst (render facts narrative))"
  by (rule line_in_body [OF _ sections(4)]) simp_all

lemma obs_line_shows: "sublist (obs_text obs) (obs_line obs p)"
  unfolding obs_line_def by (rule sublist_appendI)

lemma obs_text_id: "sublist (o_id obs) (obs_text obs)"
  unfolding obs_text_def by (rule sublist_appendI)

lemma obs_by_id_get:
  "mget (obs_by_id os) i = find (\<lambda>obs. o_id obs = i) (rev os)"
  using gm.get_fold_put [of o_id "\<lambda>x. x" os "[]"]
  by (simp add: obs_by_id_def split: option.split)

lemma obs_by_id_None: "mget (obs_by_id os) i = None \<longleftrightarrow> i \<notin> o_id ` set os"
  by (auto simp: obs_by_id_get find_None_iff)

lemma obs_by_id_id: "mget (obs_by_id os) i = Some obs \<Longrightarrow> o_id obs = i \<and> obs \<in> set os"
  by (auto simp: obs_by_id_get dest: find_SomeD)

subsection \<open>The table of subjects\<close>

definition findings_of :: "string \<Rightarrow> string \<Rightarrow> observation list \<Rightarrow> nat" where
  "findings_of sev s os = length (filter (\<lambda>obs. o_severity obs = sev \<and> subject_of obs = s) os)"

lemma count_step_eq:
  "is_actionable_sev x \<Longrightarrow>
     (case mget m (subject_of x) of Some c \<Rightarrow> c | None \<Rightarrow> (0, 0)) = (c, w) \<Longrightarrow>
     count_step x m = mput (subject_of x) (if o_severity x = ''crit'' then (Suc c, w) else (c, Suc w)) m"
  "\<not> is_actionable_sev x \<Longrightarrow> count_step x m = m"
  by (simp_all add: count_step_def)

lemma findings_of_snoc:
  "findings_of sev s (xs @ [x]) =
     findings_of sev s xs + (if o_severity x = sev \<and> subject_of x = s then 1 else 0)"
  by (simp add: findings_of_def)

lemma findings_of_none:
  "\<not> (\<exists>obs \<in> set xs. is_actionable_sev obs \<and> subject_of obs = s) \<Longrightarrow>
   findings_of ''crit'' s xs = 0 \<and> findings_of ''warn'' s xs = 0"
  by (auto simp: findings_of_def is_actionable_sev_def filter_empty_conv)

lemma count_step_get:
  "mget (fold count_step os []) s =
     (if \<exists>obs \<in> set os. is_actionable_sev obs \<and> subject_of obs = s
      then Some (findings_of ''crit'' s os, findings_of ''warn'' s os) else None)"
proof (induction os arbitrary: s rule: rev_induct)
  case (snoc x xs)
  define m where "m = fold count_step xs []"
  have get: "mget m t = (if \<exists>obs \<in> set xs. is_actionable_sev obs \<and> subject_of obs = t
      then Some (findings_of ''crit'' t xs, findings_of ''warn'' t xs) else None)" for t
    using snoc.IH by (simp add: m_def)
  have f: "fold count_step (xs @ [x]) [] = count_step x m" by (simp add: m_def)
  show ?case
  proof (cases "is_actionable_sev x")
    case False
    then show ?thesis
      unfolding f count_step_eq(2) [OF False] get findings_of_snoc by (auto simp: is_actionable_sev_def)
  next
    case True
    let ?s = "subject_of x"
    have pair: "(case mget m ?s of Some c \<Rightarrow> c | None \<Rightarrow> (0, 0)) =
        (findings_of ''crit'' ?s xs, findings_of ''warn'' ?s xs)"
      using findings_of_none [of xs ?s] by (auto simp: get)
    from True have "o_severity x \<noteq> ''crit'' \<Longrightarrow> o_severity x = ''warn''" by (auto simp: is_actionable_sev_def)
    with True show ?thesis
      unfolding f count_step_eq(1) [OF True pair] gm.get_put findings_of_snoc by (auto simp: get)
  qed
qed simp

lemma count_step_ok: "map_ok (fold count_step os [])"
proof -
  have "map_ok m \<Longrightarrow> map_ok (fold count_step os m)" for m
    by (induction os arbitrary: m) (auto simp: count_step_def Let_def split: prod.split)
  then show ?thesis by simp
qed

lemma sum_mput:
  "sum_list (map (\<lambda>(s, c, w). c + w) (mput k (c', w') m)) +
     (case mget m k of None \<Rightarrow> 0 | Some (c, w) \<Rightarrow> c + w) =
   sum_list (map (\<lambda>(s, c, w). c + w) m) + (c' + w' :: nat)"
  by (induction m) auto

lemma count_step_sum:
  "sum_list (map (\<lambda>(s, c, w). c + w) (fold count_step os [])) = length (filter is_actionable_sev os)"
proof (induction os rule: rev_induct)
  case (snoc x xs)
  define m where "m = fold count_step xs []"
  have f: "fold count_step (xs @ [x]) [] = count_step x m" by (simp add: m_def)
  from snoc have IH: "sum_list (map (\<lambda>(s, c, w). c + w) m) = length (filter is_actionable_sev xs)"
    by (simp add: m_def)
  show ?case
  proof (cases "is_actionable_sev x")
    case False
    with IH show ?thesis unfolding f count_step_eq(2) [OF False] by simp
  next
    case True
    obtain c w where g: "(case mget m (subject_of x) of Some c \<Rightarrow> c | None \<Rightarrow> (0, 0)) = (c, w)" by fastforce
    then have "(case mget m (subject_of x) of None \<Rightarrow> 0 | Some (c, w) \<Rightarrow> c + w) = c + w"
      by (auto split: option.splits)
    with sum_mput [of "subject_of x" "Suc c" w m] sum_mput [of "subject_of x" c "Suc w" m] IH True
    show ?thesis unfolding f count_step_eq(1) [OF True g] by simp
  qed
qed simp

lemma sum_list_sort_key: "sum_list (map f (sort_key k xs)) = (sum_list (map f xs) :: nat)"
  by (metis mset_map mset_sort sum_mset_sum_list)

interpretation nw: best_scan better_new "\<lambda>obs. severity_rank (o_severity obs)" scan_worst
  by unfold_locales (rule better_new_def, simp_all add: scan_worst_def)

lemma compute_covers:
  "set (d_new (s_diff (compute os previous seen now))) \<union> set (d_reopened (s_diff (compute os previous seen now))) \<union>
   set (d_persisting (s_diff (compute os previous seen now))) = now_actionable os"
  by (auto simp: compute_lists verdict_in_iff)

section \<open>Properties\<close>

text \<open>
  The table of subjects is exact: every subject with a warning or a critical finding has
  one row with its numbers, findings without a subject are counted under \<open>unknown\<close>, the totals sum
  up to all actionable findings, and the rows are ordered by critical findings, then all findings,
  both descending, then the name.
\<close>

theorem by_host_exact:
  "let rows = by_host facts; os = f_observations facts in
   set (map hf_subject rows) = subject_of ` {obs \<in> set os. is_actionable_sev obs} \<and>
   distinct (map hf_subject rows) \<and>
   list_all (\<lambda>r. hf_crit r = findings_of ''crit'' (hf_subject r) os \<and>
                 hf_warn r = findings_of ''warn'' (hf_subject r) os \<and>
                 hf_total r = hf_crit r + hf_warn r) rows \<and>
   sum_list (map hf_total rows) = length (filter is_actionable_sev os) \<and>
   sorted_wrt (\<lambda>a b. hf_crit b < hf_crit a \<or> hf_crit a = hf_crit b \<and>
     (hf_total b < hf_total a \<or> hf_total a = hf_total b \<and> hf_subject a \<le> hf_subject b)) rows"
proof -
  let ?os = "f_observations facts"
  define m where "m = fold count_step ?os []"
  define row where "row = (\<lambda>(subject, crit, warn).
     \<lparr>hf_subject = subject, hf_crit = crit, hf_warn = warn, hf_total = crit + warn :: nat\<rparr>)"
  have rows: "by_host facts = sort_key row_key_of (map row m)"
    by (simp add: by_host_def m_def row_def)
  have fields: "hf_subject (row p) = fst p" "hf_total (row p) = (case p of (s, c, w) \<Rightarrow> c + w)" for p
    by (auto simp: row_def split: prod.split)
  have subj: "map hf_subject (map row m) = mkeys m"
    by (simp add: mkeys_def fields)
  have ok: "map_ok m" by (simp add: m_def count_step_ok)
  have get: "mget m s = Some (c, w) \<Longrightarrow> c = findings_of ''crit'' s ?os \<and> w = findings_of ''warn'' s ?os" for s c w
    by (simp add: m_def count_step_get split: if_splits)
  have "set (map hf_subject (by_host facts)) = dom (mget m)"
    unfolding rows set_map set_sort by (metis set_map subj mkeys_dom)
  moreover have "dom (mget m) = subject_of ` {obs \<in> set ?os. is_actionable_sev obs}"
    by (auto simp: m_def count_step_get dom_def split: if_splits)
  moreover have "distinct (map hf_subject (by_host facts))"
  proof -
    from ok subj have "distinct (map hf_subject (map row m))" by (simp add: map_ok_distinct)
    then show ?thesis
      unfolding rows by (metis distinct_map distinct_sort set_sort)
  qed
  moreover have "list_all (\<lambda>r. hf_crit r = findings_of ''crit'' (hf_subject r) ?os \<and>
      hf_warn r = findings_of ''warn'' (hf_subject r) ?os \<and> hf_total r = hf_crit r + hf_warn r) (by_host facts)"
  proof -
    have "c = findings_of ''crit'' s ?os \<and> w = findings_of ''warn'' s ?os" if "(s, c, w) \<in> set m" for s c w
      by (rule get) (use that ok in \<open>simp add: mget_def map_ok_def mkeys_def\<close>)
    then show ?thesis by (auto simp: rows list_all_iff row_def)
  qed
  moreover have "sum_list (map hf_total (by_host facts)) = length (filter is_actionable_sev ?os)"
    using count_step_sum [of ?os] by (simp add: rows sum_list_sort_key fields comp_def m_def)
  moreover have "sorted (map row_key_of (by_host facts))" by (simp add: rows)
  then have "sorted_wrt (\<lambda>a b. hf_crit b < hf_crit a \<or> hf_crit a = hf_crit b \<and>
     (hf_total b < hf_total a \<or> hf_total a = hf_total b \<and> hf_subject a \<le> hf_subject b)) (by_host facts)"
    by (simp add: sorted_map row_key_of_def)
  ultimately show ?thesis by (simp add: Let_def)
qed

text \<open>In the facts of a run every actionable observation is under one of the three lists of ids.\<close>

lemma actionable_listed:
  fixes hostname rules inp sd
  defines "facts \<equiv> fst (run_facts hostname rules inp sd)"
  assumes "obs \<in> set (f_observations facts)" "actionable (o_severity obs)"
  shows "\<exists>ids x. ids \<in> {d_new (f_diff facts), d_reopened (f_diff facts), d_persisting (f_diff facts)} \<and>
    mget (obs_by_id (f_observations facts)) (o_id obs) = Some x \<and>
    x \<in> set (lookups (obs_by_id (f_observations facts)) ids)"
proof -
  from assms(2,3) have "o_id obs \<in> now_actionable (f_observations facts)" by (auto simp: now_actionable_def)
  then have "o_id obs \<in> set (d_new (f_diff facts)) \<union> set (d_reopened (f_diff facts)) \<union> set (d_persisting (f_diff facts))"
    unfolding facts_def run_facts_simps compute_covers now_actionable_compute .
  then obtain ids where ids: "o_id obs \<in> set ids"
    "ids \<in> {d_new (f_diff facts), d_reopened (f_diff facts), d_persisting (f_diff facts)}" by blast
  from assms(2) obtain x where x: "mget (obs_by_id (f_observations facts)) (o_id obs) = Some x"
    using obs_by_id_None [of "f_observations facts" "o_id obs"] by auto
  with ids show ?thesis by (metis lookups_in)
qed


text \<open>
  The finding the summary calls the worst new one has the highest severity of all new
  findings with an observation; there is none exactly when no new id has an observation.
\<close>

theorem worst_new_maximum:
  "let by_id = obs_by_id (f_observations facts); new_obs = lookups by_id (d_new (f_diff facts)) in
   case worst_new facts by_id of
     None \<Rightarrow> set (d_new (f_diff facts)) \<inter> o_id ` set (f_observations facts) = {}
   | Some w \<Rightarrow> w \<in> set new_obs \<and>
       list_all (\<lambda>obs. severity_rank (o_severity obs) \<le> severity_rank (o_severity w)) new_obs"
proof -
  let ?new = "lookups (obs_by_id (f_observations facts)) (d_new (f_diff facts))"
  show ?thesis
  proof (cases "scan_worst ?new")
    case None
    then have "?new = []" by (simp add: nw.pick_None)
    then have "mget (obs_by_id (f_observations facts)) i = None" if "i \<in> set (d_new (f_diff facts))" for i
      using that by (auto simp: lookups_def split: option.splits)
    with None show ?thesis by (auto simp: worst_new_def Let_def obs_by_id_None)
  next
    case (Some w)
    with nw.pick_in nw.pick_max show ?thesis
      by (fastforce simp: worst_new_def Let_def list_all_iff)
  qed
qed

text \<open>
  The name under which a run is archived is read back by the trend as the day of the run:
  for a run id that starts with a date, the archive name of \<^verbatim>\<open>Save\<close> matches the pattern of
  \<^verbatim>\<open>Trend\<close> and gives back the year, the month and the day.
\<close>

theorem history_roundtrip:
  assumes "length y = 4" "length m = 2" "length d = 2" "list_all is_digit (y @ m @ d)"
  shows "history_match (history_name (history_stamp (y @ ''-'' @ m @ ''-'' @ d @ rest))) = Some (y, m, d)"
proof -
  have "\<not> is_digit CHR ''-''" by code_simp
  then have keep: "list_all is_digit s \<Longrightarrow> filter (\<lambda>c. c \<noteq> CHR ''-'') s = s" for s
    by (auto simp: list_all_iff intro!: filter_True)
  from assms(1-3) have "take 10 (y @ ''-'' @ m @ ''-'' @ d @ rest) = y @ ''-'' @ m @ ''-'' @ d" by simp
  moreover from assms(1-3) have "\<not> 10 < length (y @ ''-'' @ m @ ''-'' @ d @ rest) \<Longrightarrow> rest = []" by simp
  ultimately have "history_stamp (y @ ''-'' @ m @ ''-'' @ d @ rest) = filter (\<lambda>c. c \<noteq> CHR ''-'') (y @ ''-'' @ m @ ''-'' @ d)"
    by (auto simp: history_stamp_def)
  then have "history_stamp (y @ ''-'' @ m @ ''-'' @ d @ rest) = y @ m @ d"
    using assms(4) by (simp add: keep)
  with assms show ?thesis
    by (simp add: history_name_def history_match_def has_prefix_def Let_def)
qed

theorem history_roundtrip_witness:
  "history_match (history_name (history_stamp ''2026-03-01T07:30'')) = Some (''2026'', ''03'', ''01'')"
proof -
  have "list_all is_digit (''2026'' @ ''03'' @ ''01'')" by code_simp
  from history_roundtrip [OF _ _ _ this, of "''T07:30''"] show ?thesis by simp
qed

end
