(* ===== verification/HR_Config.thy ===== *)
theory HR_Config
  imports Go_Any
begin

text \<open>
  The configuration of the health report, \<^verbatim>\<open>src/tools/internal/healthreport/config.go\<close>.  The process
  environment is a function from variable names to values; a variable that is not set is \<open>None\<close>, and
  \<^verbatim>\<open>os.Getenv\<close> gives the empty string for it.
\<close>

section \<open>Reading variables\<close>

type_synonym environ = "string \<Rightarrow> string option"

definition getenv :: "environ \<Rightarrow> string \<Rightarrow> string" where
  "getenv env name = (case env name of None \<Rightarrow> [] | Some v \<Rightarrow> v)"

definition env_bool :: "environ \<Rightarrow> string \<Rightarrow> bool \<Rightarrow> bool" where
  "env_bool env name dflt =
     (let raw = to_lower (trim_space (getenv env name))
      in if raw = [] then dflt else raw \<in> {''1'', ''true'', ''yes'', ''on''})"

definition env_int :: "environ \<Rightarrow> string \<Rightarrow> int \<Rightarrow> int" where
  "env_int env name dflt =
     (let raw = trim_space (getenv env name)
      in if raw = [] then dflt else case atoi raw of None \<Rightarrow> dflt | Some v \<Rightarrow> v)"

definition env_or :: "environ \<Rightarrow> string \<Rightarrow> string \<Rightarrow> string" where
  "env_or env name dflt = (case env name of Some v \<Rightarrow> v | None \<Rightarrow> dflt)"

definition parse_windows :: "string option \<Rightarrow> string list \<Rightarrow> string list" where
  "parse_windows raw dflt =
     (case raw of None \<Rightarrow> dflt
      | Some s \<Rightarrow> filter (\<lambda>chunk. chunk \<noteq> []) (map trim_space (split_char CHR '','' s)))"

definition parse_hosts :: "string \<Rightarrow> (string, string) gmap" where
  "parse_hosts raw =
     fold (\<lambda>piece out.
             let chunk = trim_space piece in
             if chunk = [] then out else
             case cut_char CHR ''='' chunk of None \<Rightarrow> out
             | Some (name, addr) \<Rightarrow> mput (trim_space name) (trim_space addr) out)
       (split_char CHR '','' raw) []"

section \<open>The configuration\<close>

record config =
  state_dir_path :: string
  rules_path :: string
  victoria_url :: string
  loki_url :: string
  kuma_url :: string
  kuma_api_key :: string
  ollama_url :: string
  ollama_model :: string
  cf_llm_enabled :: bool
  llm_timeout_s :: int
  ssh_hosts :: "(string, string) gmap"
  ssh_key_path :: string
  local_host :: string
  local_facts_bin :: string
  github_token :: string
  github_owner :: string
  ha_url :: string
  ha_token :: string
  ntfy_url :: string
  ntfy_topic :: string
  ntfy_token :: string
  smtp_host :: string
  smtp_port :: int
  smtp_user :: string
  smtp_password :: string
  smtp_from :: string
  email_to :: string
  smtp2_host :: string
  smtp2_port :: int
  smtp2_user :: string
  smtp2_password :: string
  smtp2_from :: string
  grafana_url :: string
  lookback_hours :: int
  maintenance_windows :: "string list"
  caddy_5xx_hour_threshold :: int
  backup_known_paths :: "string list"
  backup_excluded_paths :: "string list"
  ha_excluded_clusters :: "string list"
  dmarc_db_url :: string
  dmarc_domains :: "string list"
  home_ip :: string
  dojo_url :: string
  dojo_password :: string

definition default_maintenance_windows :: "string list" where
  "default_maintenance_windows = [''daily 00:00-00:10'', ''sun 04:55-08:00'', ''sun 02:00-03:00'']"

definition default_config :: config where
  "default_config =
     \<lparr>state_dir_path = ''/state'', rules_path = ''/app/rules.yml'',
      victoria_url = ''http://127.0.0.1:19090'', loki_url = ''http://127.0.0.1:3100'',
      kuma_url = ''http://127.0.0.1:3001'', kuma_api_key = [],
      ollama_url = ''http://127.0.0.1:11434'', ollama_model = ''qwen3:8b'', cf_llm_enabled = False,
      llm_timeout_s = 300, ssh_hosts = [], ssh_key_path = ''/ssh/id_ed25519'', local_host = [],
      local_facts_bin = ''/usr/local/bin/homelab-facts'', github_token = [], github_owner = [],
      ha_url = ''http://100.100.10.200:8123'', ha_token = [], ntfy_url = ''https://ntfy.mljr.eu'',
      ntfy_topic = ''homelab-health'', ntfy_token = [], smtp_host = [], smtp_port = 587, smtp_user = [],
      smtp_password = [], smtp_from = ''notifications@mljr.eu'', email_to = [], smtp2_host = [],
      smtp2_port = 0, smtp2_user = [], smtp2_password = [], smtp2_from = [],
      grafana_url = ''https://monitor.mljr.eu'', lookback_hours = 24,
      maintenance_windows = default_maintenance_windows, caddy_5xx_hour_threshold = 100,
      backup_known_paths = [], backup_excluded_paths = [], ha_excluded_clusters = [],
      dmarc_db_url = [], dmarc_domains = [], home_ip = [], dojo_url = [], dojo_password = []\<rparr>"

definition list_or_empty :: "environ \<Rightarrow> string \<Rightarrow> string list" where
  "list_or_empty env name = (case env name of Some raw \<Rightarrow> parse_windows (Some raw) [] | None \<Rightarrow> [])"

definition config_from_env :: "environ \<Rightarrow> config" where
  "config_from_env env =
     (let c = default_config; smtp2_user = getenv env ''HEALTHREPORT_SMTP2_USER''
      in \<lparr>state_dir_path = env_or env ''HEALTHREPORT_STATE_DIR'' (state_dir_path c),
          rules_path = env_or env ''HEALTHREPORT_RULES'' (rules_path c),
          victoria_url = env_or env ''HEALTHREPORT_VM_URL'' (victoria_url c),
          loki_url = env_or env ''HEALTHREPORT_LOKI_URL'' (loki_url c),
          kuma_url = env_or env ''HEALTHREPORT_KUMA_URL'' (kuma_url c),
          kuma_api_key = getenv env ''HEALTHREPORT_KUMA_API_KEY'',
          ollama_url = env_or env ''HEALTHREPORT_OLLAMA_URL'' (ollama_url c),
          ollama_model = env_or env ''HEALTHREPORT_MODEL'' (ollama_model c),
          cf_llm_enabled = env_bool env ''HEALTHREPORT_LLM_ENABLED'' False,
          llm_timeout_s = env_int env ''HEALTHREPORT_LLM_TIMEOUT'' (llm_timeout_s c),
          ssh_hosts = parse_hosts (getenv env ''HEALTHREPORT_SSH_HOSTS''),
          ssh_key_path = env_or env ''HEALTHREPORT_SSH_KEY'' (ssh_key_path c),
          local_host = env_or env ''HEALTHREPORT_LOCAL_HOST'' (local_host c),
          local_facts_bin = local_facts_bin c,
          github_token = getenv env ''HEALTHREPORT_GITHUB_TOKEN'',
          github_owner = getenv env ''HEALTHREPORT_GITHUB_OWNER'',
          ha_url = env_or env ''HEALTHREPORT_HA_URL'' (ha_url c),
          ha_token = getenv env ''HEALTHREPORT_HA_TOKEN'',
          ntfy_url = env_or env ''HEALTHREPORT_NTFY_URL'' (ntfy_url c),
          ntfy_topic = env_or env ''HEALTHREPORT_NTFY_TOPIC'' (ntfy_topic c),
          ntfy_token = getenv env ''HEALTHREPORT_NTFY_TOKEN'',
          smtp_host = getenv env ''HEALTHREPORT_SMTP_HOST'',
          smtp_port = env_int env ''HEALTHREPORT_SMTP_PORT'' 587,
          smtp_user = getenv env ''HEALTHREPORT_SMTP_USER'',
          smtp_password = getenv env ''HEALTHREPORT_SMTP_PASSWORD'',
          smtp_from = env_or env ''HEALTHREPORT_SMTP_FROM'' (smtp_from c),
          email_to = getenv env ''HEALTHREPORT_EMAIL_TO'',
          smtp2_host = getenv env ''HEALTHREPORT_SMTP2_HOST'',
          smtp2_port = env_int env ''HEALTHREPORT_SMTP2_PORT'' 587,
          smtp2_user = smtp2_user,
          smtp2_password = getenv env ''HEALTHREPORT_SMTP2_PASSWORD'',
          smtp2_from = env_or env ''HEALTHREPORT_SMTP2_FROM'' smtp2_user,
          grafana_url = env_or env ''HEALTHREPORT_GRAFANA_URL'' (grafana_url c),
          lookback_hours = env_int env ''HEALTHREPORT_LOOKBACK_HOURS'' 24,
          maintenance_windows = parse_windows (env ''HEALTHREPORT_MAINTENANCE_WINDOWS'') default_maintenance_windows,
          caddy_5xx_hour_threshold = env_int env ''HEALTHREPORT_5XX_HOUR_THRESHOLD'' 100,
          backup_known_paths = list_or_empty env ''HEALTHREPORT_BACKUP_KNOWN_PATHS'',
          backup_excluded_paths = list_or_empty env ''HEALTHREPORT_BACKUP_EXCLUDED_PATHS'',
          ha_excluded_clusters = list_or_empty env ''HEALTHREPORT_HA_EXCLUDED_CLUSTERS'',
          dmarc_db_url = getenv env ''HEALTHREPORT_DMARC_DB_URL'',
          dmarc_domains = list_or_empty env ''HEALTHREPORT_DMARC_DOMAINS'',
          home_ip = trim_space (getenv env ''HEALTHREPORT_HOME_IP''),
          dojo_url = trim_space (getenv env ''HEALTHREPORT_DOJO_URL''),
          dojo_password = getenv env ''HEALTHREPORT_DOJO_PASSWORD''\<rparr>)"

definition all_hosts :: "config \<Rightarrow> string list" where
  "all_hosts c =
     (let hosts = mkeys (ssh_hosts c)
      in if local_host c \<noteq> [] \<and> local_host c \<notin> set hosts then hosts @ [local_host c] else hosts)"

section \<open>Lemmas\<close>

subsection \<open>Strings without blanks at their ends\<close>

definition no_lead :: "string list \<Rightarrow> string \<Rightarrow> bool" where
  "no_lead ws s \<longleftrightarrow> (\<forall>w \<in> set ws. \<not> has_prefix s w)"

abbreviation trimmed :: "string \<Rightarrow> bool" where
  "trimmed s \<equiv> trim_space s = s"

lemma strip_spaces_id: "no_lead ws s \<Longrightarrow> strip_spaces ws n s = s"
  by (cases n) (auto simp: no_lead_def split: option.split dest: find_SomeD)

lemma strip_spaces_length: "length (strip_spaces ws n s) \<le> length s"
  by (induction ws n s rule: strip_spaces.induct) (auto split: option.split intro: order.trans)

lemma strip_spaces_full:
  assumes "[] \<notin> set ws" "length (strip_spaces ws (length s) s) = length s"
  shows "no_lead ws s"
proof (rule ccontr)
  assume lead: "\<not> no_lead ws s"
  show False
  proof (cases "find (has_prefix s) ws")
    case None
    with lead show False by (auto simp: no_lead_def find_None_iff)
  next
    case (Some w)
    then have w: "w \<in> set ws" "has_prefix s w" by (auto dest: find_SomeD)
    with assms(1) have "0 < length w" "length w \<le> length s" by (auto simp: has_prefix_def)
    moreover from this obtain n where n: "length s = Suc n" by (cases "length s") auto
    ultimately show False
      using assms(2) strip_spaces_length [of ws n "drop (length w) s"]
      by (cases w) (simp_all add: n Some)
  qed
qed

lemma spaces_nonempty: "[] \<notin> set unicode_spaces" "[] \<notin> set (map rev unicode_spaces)"
  by (simp_all add: unicode_spaces_def)

lemma trimmed_iff: "trimmed s \<longleftrightarrow> no_lead unicode_spaces s \<and> no_lead (map rev unicode_spaces) (rev s)"
proof
  define l where "l = strip_spaces unicode_spaces (length s) s"
  assume t: "trimmed s"
  then have "rev (strip_spaces (map rev unicode_spaces) (length l) (rev l)) = s"
    by (simp add: trim_space_def l_def Let_def)
  then have r: "strip_spaces (map rev unicode_spaces) (length l) (rev l) = rev s" by (metis rev_rev_ident)
  with strip_spaces_length [of "map rev unicode_spaces" "length l" "rev l"]
    strip_spaces_length [of unicode_spaces "length s" s]
  have "length l = length s" unfolding l_def [symmetric] by simp
  with strip_spaces_full [OF spaces_nonempty(1)] have lead: "no_lead unicode_spaces s" by (simp add: l_def)
  then have "l = s" by (simp add: l_def strip_spaces_id)
  with r strip_spaces_full [OF spaces_nonempty(2), of "rev s"] lead
  show "no_lead unicode_spaces s \<and> no_lead (map rev unicode_spaces) (rev s)" by simp
next
  assume "no_lead unicode_spaces s \<and> no_lead (map rev unicode_spaces) (rev s)"
  then show "trimmed s" by (simp add: trim_space_def strip_spaces_id Let_def)
qed

text \<open>A separator that is no part of a blank keeps the ends of what it joins.\<close>

lemma has_prefix_sep:
  assumes "c \<notin> set w" "has_prefix (u @ c # v) w"
  shows "has_prefix u w"
proof -
  from assms(2) have p: "prefix w (u @ c # v)" by (simp add: has_prefix_iff)
  then consider "prefix w u" | us where "w = u @ us" "prefix us (c # v)" by (auto simp: prefix_append)
  then show ?thesis
  proof cases
    case 1
    then show ?thesis by (simp add: has_prefix_iff)
  next
    case 2
    with assms(1) show ?thesis by (cases us) (auto simp: has_prefix_iff)
  qed
qed

definition sep_char :: "char \<Rightarrow> bool" where
  "sep_char c \<longleftrightarrow> list_all (\<lambda>w. c \<notin> set w) unicode_spaces"

lemma trimmed_sep:
  assumes "trimmed u" "trimmed v" "sep_char c"
  shows "trimmed (u @ c # v)"
proof -
  have "no_lead unicode_spaces (u @ c # v)"
    using assms has_prefix_sep [of c _ u v] by (auto simp: trimmed_iff no_lead_def sep_char_def list_all_iff)
  moreover have "no_lead (map rev unicode_spaces) (rev v @ c # rev u)"
    using assms has_prefix_sep [of c _ "rev v" "rev u"]
    by (auto simp: trimmed_iff no_lead_def sep_char_def list_all_iff)
  ultimately show ?thesis by (simp add: trimmed_iff)
qed

subsection \<open>Lists of hosts and windows\<close>

lemma split_char_append: "c \<notin> set p \<Longrightarrow> split_char c (p @ c # s) = p # split_char c s"
  by (induction p) auto

lemma split_char_single: "c \<notin> set p \<Longrightarrow> split_char c p = [p]"
  by (induction p) auto

lemma split_join:
  "ps \<noteq> [] \<Longrightarrow> \<forall>p \<in> set ps. c \<notin> set p \<Longrightarrow> split_char c (join [c] ps) = ps"
proof (induction ps rule: induct_list012)
  case (3 p q ps)
  then show ?case by (simp add: split_char_append)
qed (simp_all add: split_char_single)

lemma cut_char_append: "c \<notin> set p \<Longrightarrow> cut_char c (p @ c # s) = Some (p, s)"
  by (induction p) auto

lemma cut_char_None: "cut_char c s = None \<longleftrightarrow> c \<notin> set s"
  by (induction s) (auto split: option.splits)

text \<open>The text \<^verbatim>\<open>env.epp\<close> renders for a list of hosts, and when it can be read back.\<close>

definition render_hosts :: "(string \<times> string) list \<Rightarrow> string" where
  "render_hosts hs = join '','' (map (\<lambda>(n, a). n @ ''='' @ a) hs)"

definition plain_host :: "string \<times> string \<Rightarrow> bool" where
  "plain_host = (\<lambda>(n, a). trimmed n \<and> trimmed a \<and> CHR '','' \<notin> set n \<and> CHR ''='' \<notin> set n \<and> CHR '','' \<notin> set a)"

definition host_step :: "string \<Rightarrow> (string, string) gmap \<Rightarrow> (string, string) gmap" where
  "host_step piece out =
     (let chunk = trim_space piece in
      if chunk = [] then out else
      case cut_char CHR ''='' chunk of None \<Rightarrow> out
      | Some (name, addr) \<Rightarrow> mput (trim_space name) (trim_space addr) out)"

lemma parse_hosts_fold: "parse_hosts raw = fold host_step (split_char CHR '','' raw) []"
  by (simp add: parse_hosts_def host_step_def [abs_def])

lemma host_step_plain: "plain_host (n, a) \<Longrightarrow> host_step (n @ ''='' @ a) out = mput n a out"
proof -
  assume p: "plain_host (n, a)"
  then have t: "trimmed (n @ CHR ''='' # a)"
    by (intro trimmed_sep) (auto simp: plain_host_def sep_char_def unicode_spaces_def)
  from p have "cut_char CHR ''='' (n @ CHR ''='' # a) = Some (n, a)"
    by (intro cut_char_append) (simp add: plain_host_def)
  with p t show ?thesis by (simp add: host_step_def plain_host_def)
qed

lemma parse_render_fold:
  assumes "\<forall>h \<in> set hs. plain_host h"
  shows "parse_hosts (render_hosts hs) = fold (\<lambda>(n, a). mput n a) hs []"
proof (cases hs)
  case Nil
  have "trim_space [] = []" by (simp add: trim_space_def)
  with Nil show ?thesis by (simp add: parse_hosts_fold render_hosts_def host_step_def)
next
  case (Cons h hs')
  have "split_char CHR '','' (render_hosts hs) = map (\<lambda>(n, a). n @ ''='' @ a) hs"
    unfolding render_hosts_def using assms Cons by (intro split_join) (auto simp: plain_host_def)
  moreover from assms have "fold host_step (map (\<lambda>(n, a). n @ ''='' @ a) hs) out = fold (\<lambda>(n, a). mput n a) hs out" for out
  proof (induction hs arbitrary: out)
    case (Cons h hs)
    obtain n a where "h = (n, a)" by fastforce
    with Cons show ?case using host_step_plain [of n a out] by simp
  qed simp
  ultimately show ?thesis by (simp add: parse_hosts_fold)
qed

lemma fold_mput_distinct:
  "distinct (map fst hs) \<Longrightarrow> fst ` set hs \<inter> fst ` set m = {} \<Longrightarrow> fold (\<lambda>(n, a). mput n a) hs m = m @ hs"
proof (induction hs arbitrary: m)
  case (Cons h hs)
  obtain n a where h: "h = (n, a)" by fastforce
  from Cons.prems h have "mput n a m = m @ [(n, a)]"
    by (induction m) auto
  with Cons.IH [of "m @ [(n, a)]"] Cons.prems h show ?case by simp
qed simp

subsection \<open>What trimming and splitting leave\<close>

lemma strip_spaces_no_lead: "[] \<notin> set ws \<Longrightarrow> length s \<le> n \<Longrightarrow> no_lead ws (strip_spaces ws n s)"
proof (induction ws n s rule: strip_spaces.induct)
  case (1 ws s)
  then show ?case by (auto simp: no_lead_def has_prefix_def)
next
  case (2 ws n s)
  show ?case
  proof (cases "find (has_prefix s) ws")
    case None
    then have "no_lead ws s" by (auto simp: no_lead_def find_None_iff)
    with None show ?thesis by simp
  next
    case (Some w)
    then have "w \<in> set ws" "has_prefix s w" by (auto dest: find_SomeD)
    with 2(2,3) have "length (drop (length w) s) \<le> n"
      by (cases w) (auto simp: has_prefix_def)
    with 2(1) [OF Some 2(2)] Some show ?thesis by simp
  qed
qed

lemma strip_spaces_suffix: "suffix (strip_spaces ws n s) s"
proof (induction ws n s rule: strip_spaces.induct)
  case (2 ws n s)
  then show ?case
    by (auto split: option.split intro: suffix_order.trans suffix_drop)
qed simp

lemma trim_space_trimmed: "trimmed (trim_space s)"
proof -
  define l where "l = strip_spaces unicode_spaces (length s) s"
  define r where "r = strip_spaces (map rev unicode_spaces) (length l) (rev l)"
  have t: "trim_space s = rev r" by (simp add: trim_space_def l_def r_def Let_def)
  have "no_lead unicode_spaces l"
    unfolding l_def by (rule strip_spaces_no_lead) (simp_all add: spaces_nonempty)
  moreover have "prefix (rev r) l"
    using strip_spaces_suffix [of "map rev unicode_spaces" "length l" "rev l"] by (simp add: r_def suffix_to_prefix)
  ultimately have "no_lead unicode_spaces (rev r)"
    by (auto simp: no_lead_def has_prefix_iff dest: prefix_order.trans)
  moreover have "no_lead (map rev unicode_spaces) r"
    unfolding r_def by (rule strip_spaces_no_lead) (use spaces_nonempty in auto)
  ultimately show ?thesis by (simp add: trimmed_iff t)
qed

lemma set_trim_space: "set (trim_space s) \<subseteq> set s"
proof -
  have s: "set (strip_spaces ws n t) \<subseteq> set t" for ws n t
    using strip_spaces_suffix [of ws n t] by (rule set_mono_suffix)
  let ?l = "strip_spaces unicode_spaces (length s) s"
  have "set (trim_space s) \<subseteq> set ?l"
    using s [of "map rev unicode_spaces" "length ?l" "rev ?l"] by (simp add: trim_space_def Let_def)
  with s [of unicode_spaces "length s" s] show ?thesis by blast
qed

lemma trim_space_Nil [simp]: "trim_space [] = []"
  by (simp add: trim_space_def)

definition plain_chunk :: "string \<Rightarrow> bool" where
  "plain_chunk s \<longleftrightarrow> s \<noteq> [] \<and> trimmed s \<and> CHR '','' \<notin> set s"

lemma parse_windows_plain: "list_all plain_chunk (parse_windows (Some raw) dflt)"
  using set_trim_space split_char_no_sep [of _ "CHR '',''" raw]
  by (fastforce simp: parse_windows_def list_all_iff plain_chunk_def trim_space_trimmed)

lemma parse_windows_join:
  assumes "list_all plain_chunk ws"
  shows "parse_windows (Some (join '','' ws)) dflt = ws"
proof (cases "ws = []")
  case False
  with assms have "split_char CHR '','' (join '','' ws) = ws"
    by (intro split_join) (auto simp: list_all_iff plain_chunk_def)
  with assms show ?thesis
    by (simp add: parse_windows_def list_all_iff plain_chunk_def map_idI)
qed (simp add: parse_windows_def)

lemma map_ok_mput [simp]: "map_ok m \<Longrightarrow> map_ok (mput k v m)"
  by (rule gm.inv_put)

lemma parse_hosts_ok: "map_ok (parse_hosts raw)"
proof -
  have "map_ok out \<Longrightarrow> map_ok (fold host_step ps out)" for ps out
    by (induction ps arbitrary: out) (auto simp: host_step_def Let_def split: option.split)
  then show ?thesis by (simp add: parse_hosts_fold)
qed

section \<open>Properties\<close>

text \<open>
  Reading back the host list of the rendered environment gives exactly the hosts written
  there, in their order, for any distinct names and addresses without commas or outer blanks (and
  names without an equals sign; an address may contain one).
\<close>

theorem parse_hosts_roundtrip:
  assumes "list_all plain_host hs" "distinct (map fst hs)"
  shows "parse_hosts (render_hosts hs) = hs"
  using parse_render_fold [of hs] fold_mput_distinct [of hs "[]"] assms by (simp add: list_all_iff)

theorem parse_hosts_roundtrip_witness:
  "parse_hosts (render_hosts [(''mljr'', ''100.100.20.1''), (''nas'', ''100.100.10.2'')]) =
     [(''mljr'', ''100.100.20.1''), (''nas'', ''100.100.10.2'')]"
  by (rule parse_hosts_roundtrip)
    (simp_all add: plain_host_def trimmed_iff no_lead_def unicode_spaces_def has_prefix_def)

text \<open>
  A configured list is kept in a normal form: its entries are not empty, have no outer
  blanks and no comma, and writing them with commas and reading them again changes nothing; a
  variable that is not set keeps the default, an empty one is the empty list.
\<close>

theorem parse_windows_normal:
  "let ws = parse_windows (Some raw) dflt in
   list_all (\<lambda>w. w \<noteq> [] \<and> trim_space w = w \<and> CHR '','' \<notin> set w) ws \<and>
   parse_windows (Some (join '','' ws)) dflt = ws \<and>
   parse_windows None dflt = dflt \<and> parse_windows (Some []) dflt = []"
  using parse_windows_plain [of raw dflt] parse_windows_join [OF parse_windows_plain [of raw dflt], of dflt]
  by (simp add: Let_def plain_chunk_def [abs_def] parse_windows_def)

text \<open>
  A run reaches every configured host once: the hosts of any environment are distinct, and
  they are the ones of the host list and the local host, if it has a name.
\<close>

theorem all_hosts_exact:
  "let c = config_from_env env in
   distinct (all_hosts c) \<and>
   set (all_hosts c) = dom (mget (parse_hosts (getenv env ''HEALTHREPORT_SSH_HOSTS''))) \<union> ({local_host c} - {[]})"
proof -
  define c where "c = config_from_env env"
  have h: "ssh_hosts c = parse_hosts (getenv env ''HEALTHREPORT_SSH_HOSTS'')"
    by (simp add: c_def config_from_env_def Let_def)
  have "distinct (mkeys (ssh_hosts c))"
    by (simp add: h parse_hosts_ok map_ok_distinct)
  then have "distinct (all_hosts c) \<and> set (all_hosts c) = dom (mget (ssh_hosts c)) \<union> ({local_host c} - {[]})"
    by (auto simp: all_hosts_def Let_def mkeys_dom)
  then show ?thesis by (simp add: h flip: c_def)
qed

end
