(* ===== verification/HR_Deliver.thy ===== *)
theory HR_Deliver
  imports HR_Report HR_Config
begin

text \<open>
  Delivery of the report, \<^verbatim>\<open>src/tools/internal/healthreport/deliver.go\<close>, and the delivery part of
  \<^verbatim>\<open>cmd/healthreport/main.go\<close>.  The push service is a function from a request to its outcome, a mail
  relay a function from the number of the relay and a step of the SMTP dialogue to an error or none;
  every delivery returns the result the code returns together with what was sent.  The codecs of
  the standard library (JSON, gzip, quoted-printable, Q-encoding, base64) are a record of functions.
\<close>

section \<open>Push notifications\<close>

definition ntfy_priority :: "string \<Rightarrow> string" where
  "ntfy_priority level =
     (if level = ''crit'' then ''5'' else if level = ''warn'' then ''4'' else if level = ''info'' then ''3'' else [])"

definition ntfy_tags :: "string \<Rightarrow> string" where
  "ntfy_tags level =
     (if level = ''crit'' then ''rotating_light'' else if level = ''warn'' then ''warning''
      else if level = ''info'' then ''white_check_mark'' else [])"

definition worst_severity :: "'d facts \<Rightarrow> string" where
  "worst_severity facts =
     (if 0 < su_crit (f_summary facts) then ''crit'' else if 0 < su_warn (f_summary facts) then ''warn'' else ''info'')"

record push =
  pu_url :: string
  pu_title :: string
  pu_priority :: string
  pu_tags :: string
  pu_click :: string
  pu_auth :: "string option"
  pu_body :: string

datatype push_reply = BadRequest string | ClientError string | Status int

definition push_result :: "string \<Rightarrow> push_reply \<Rightarrow> string" where
  "push_result pre reply =
     (case reply of
        BadRequest e \<Rightarrow> pre @ '': '' @ e
      | ClientError e \<Rightarrow> pre @ '': '' @ e
      | Status code \<Rightarrow> if code < 200 \<or> 300 \<le> code then pre @ '': HTTP '' @ int_str code else [])"

definition pushes_of :: "push \<Rightarrow> push_reply \<Rightarrow> push list" where
  \<comment> \<open>a request that cannot be built is not made\<close>
  "pushes_of p reply = (case reply of BadRequest _ \<Rightarrow> [] | _ \<Rightarrow> [p])"

definition push_url :: "config \<Rightarrow> string" where
  "push_url cfg = trim_right_char CHR ''/'' (ntfy_url cfg) @ ''/'' @ ntfy_topic cfg"

definition bearer :: "config \<Rightarrow> string option" where
  "bearer cfg = (if ntfy_token cfg \<noteq> [] then Some (''Bearer '' @ ntfy_token cfg) else None)"

definition send_ntfy :: "(push \<Rightarrow> push_reply) \<Rightarrow> config \<Rightarrow> 'd facts \<Rightarrow> string \<Rightarrow> string \<Rightarrow> string \<times> push list" where
  "send_ntfy post cfg facts title body =
     (if ntfy_url cfg = [] \<or> ntfy_topic cfg = [] then (''skipped: no ntfy configuration'', []) else
      let level = worst_severity facts;
          marker = (if f_llm_status facts \<noteq> ''ok'' \<and> f_llm_status facts \<noteq> ''disabled'' then '' [no-LLM]'' else []);
          p = \<lparr>pu_url = push_url cfg, pu_title = cut_to 200 (title @ marker), pu_priority = ntfy_priority level,
               pu_tags = ntfy_tags level @ '',homelab'', pu_click = grafana_url cfg, pu_auth = bearer cfg,
               pu_body = body\<rparr>
      in (push_result ''ntfy'' (post p), pushes_of p (post p)))"

definition send_ntfy_email_failure ::
  "(push \<Rightarrow> push_reply) \<Rightarrow> config \<Rightarrow> string \<Rightarrow> string \<Rightarrow> string \<times> push list" where
  "send_ntfy_email_failure post cfg email_err body =
     (if ntfy_url cfg = [] \<or> ntfy_topic cfg = [] then (''skipped: no ntfy configuration'', []) else
      let p = \<lparr>pu_url = push_url cfg, pu_title = ''[homelab] health report email FAILED'', pu_priority = ''4'',
               pu_tags = ''warning,e-mail,homelab'', pu_click = grafana_url cfg, pu_auth = bearer cfg,
               pu_body = cut_to 3800 (''Email delivery failed: '' @ email_err @ newline @ newline @ body)\<rparr>
      in (push_result ''ntfy fallback'' (post p), pushes_of p (post p)))"

section \<open>Mail\<close>

record 'd codecs =
  facts_json :: "'d facts \<Rightarrow> string + string" \<comment> \<open>\<open>sortedJSON\<close>\<close>
  gzip :: "string \<Rightarrow> string"
  base64 :: "string \<Rightarrow> string"
  quoted :: "string \<Rightarrow> string"
  q_encode :: "string \<Rightarrow> string"

definition crlf :: string where "crlf = [CHR 0x0D, CHR 0x0A]"

fun lines76 :: "nat \<Rightarrow> string \<Rightarrow> string list" where
  \<comment> \<open>the loop of \<^verbatim>\<open>writePart\<close> over the encoded text; its length is enough fuel\<close>
  "lines76 0 s = []"
| "lines76 (Suc n) s = (if s = [] then [] else take 76 s # lines76 n (drop 76 s))"

datatype part = Part "(string, string) gmap" string | Alternative "part list"

definition write_part :: "'d codecs \<Rightarrow> (string, string) gmap \<Rightarrow> string \<Rightarrow> part" where
  "write_part cod headers body =
     (let header = (if mhas headers ''Content-Transfer-Encoding'' then headers
                    else mput ''Content-Transfer-Encoding'' ''quoted-printable'' headers)
      in if mget header ''Content-Transfer-Encoding'' = Some ''base64''
         then let encoded = base64 cod body
              in Part header (concat (map (\<lambda>l. l @ crlf) (lines76 (length encoded) encoded)))
         else Part header (quoted cod body))"

record message =
  ms_subject :: string
  ms_to :: string
  ms_parts :: "part list"

definition build_message ::
  "'d codecs \<Rightarrow> config \<Rightarrow> 'd facts \<Rightarrow> string \<Rightarrow> string \<Rightarrow> string \<Rightarrow> string + message" where
  "build_message cod cfg facts subject body_markdown body_html =
     (let alternatives =
        [write_part cod [(''Content-Type'', ''text/plain; charset=utf-8'')] body_markdown] @
        (if body_html \<noteq> [] then [write_part cod [(''Content-Type'', ''text/html; charset=utf-8'')] body_html] else []);
          stamp = cut_to 10 (ri_id (f_run facts));
          attachment = (\<lambda>kind ext content. write_part cod
            [(''Content-Type'', kind),
             (''Content-Disposition'', ''attachment; filename='' @ [CHR 0x22] @ ''facts-'' @ stamp @ ext @ [CHR 0x22]),
             (''Content-Transfer-Encoding'', ''base64'')] content)
      in case facts_json cod facts of Inl e \<Rightarrow> Inl e
         | Inr payload \<Rightarrow>
             Inr \<lparr>ms_subject = q_encode cod (cut_to 250 subject), ms_to = email_to cfg,
                  ms_parts = [Alternative alternatives,
                              if 200 * 1024 < length payload
                              then attachment ''application/gzip'' ''.json.gz'' (gzip cod payload)
                              else attachment ''application/json'' ''.json'' payload]\<rparr>)"

record smtp_relay =
  re_host :: string
  re_port :: int
  re_user :: string
  re_password :: string
  re_from :: string

datatype smtp_step =
  Dial string | Greet | StartTLS | Auth string string | MailFrom string | Rcpt string
| DataCmd | WriteFrom string | WriteMsg message | CloseData | Quit

definition join_host_port :: "string \<Rightarrow> int \<Rightarrow> string" where
  "join_host_port host port =
     (if CHR '':'' \<in> set host then ''['' @ host @ '']:'' @ int_str port else host @ '':'' @ int_str port)"

definition recipients :: "string \<Rightarrow> string list" where
  "recipients rcpts = filter (\<lambda>r. r \<noteq> []) (map trim_space (split_char CHR '','' rcpts))"

definition smtp_steps :: "smtp_relay \<Rightarrow> string \<Rightarrow> message \<Rightarrow> smtp_step list" where
  "smtp_steps r rcpts msg =
     [Dial (join_host_port (re_host r) (re_port r)), Greet, StartTLS] @
     (if re_user r \<noteq> [] then [Auth (re_user r) (re_password r)] else []) @
     [MailFrom (re_from r)] @ map Rcpt (recipients rcpts) @
     [DataCmd, WriteFrom (''From: '' @ re_from r @ crlf), WriteMsg msg, CloseData, Quit]"

fun run_steps :: "(smtp_step \<Rightarrow> string option) \<Rightarrow> smtp_step list \<Rightarrow> string option \<times> smtp_step list" where
  \<comment> \<open>returns at the first error; the steps tried, that one included\<close>
  "run_steps f [] = (None, [])"
| "run_steps f (s # ss) =
     (case f s of Some e \<Rightarrow> (Some e, [s]) | None \<Rightarrow> (let (r, tried) = run_steps f ss in (r, s # tried)))"

definition relay_send ::
  "(nat \<Rightarrow> smtp_step \<Rightarrow> string option) \<Rightarrow> nat \<Rightarrow> smtp_relay \<Rightarrow> string \<Rightarrow> message \<Rightarrow> string option \<times> smtp_step list" where
  "relay_send smtp i r rcpts msg = run_steps (smtp i) (smtp_steps r rcpts msg)"

definition relays :: "config \<Rightarrow> (nat \<times> smtp_relay) list" where
  "relays cfg =
     [(1, \<lparr>re_host = smtp_host cfg, re_port = smtp_port cfg, re_user = smtp_user cfg,
          re_password = smtp_password cfg, re_from = smtp_from cfg\<rparr>),
      (2, \<lparr>re_host = smtp2_host cfg, re_port = smtp2_port cfg, re_user = smtp2_user cfg,
          re_password = smtp2_password cfg, re_from = smtp2_from cfg\<rparr>)]"

definition failed_text :: "string list \<Rightarrow> string" where
  "failed_text errs = ''email: '' @ join ''; '' errs"

definition backup_text :: "string list \<Rightarrow> string" where
  "backup_text errs = ''email: delivered via backup relay after: '' @ join ''; '' errs"

definition relay_error :: "nat \<Rightarrow> smtp_relay \<Rightarrow> string \<Rightarrow> string" where
  "relay_error i r err = ''relay '' @ int_str (int i) @ '' ('' @ re_host r @ ''): '' @ err"

fun try_relays ::
  "(nat \<Rightarrow> smtp_step \<Rightarrow> string option) \<Rightarrow> string \<Rightarrow> message \<Rightarrow> string list \<Rightarrow> (nat \<times> smtp_relay) list \<Rightarrow>
   string \<times> (nat \<times> smtp_step list) list" where
  "try_relays smtp rcpts msg errs [] = (failed_text errs, [])"
| "try_relays smtp rcpts msg errs ((i, r) # rest) =
     (if re_host r = [] then try_relays smtp rcpts msg errs rest else
      case relay_send smtp i r rcpts msg of
        (Some err, steps) \<Rightarrow>
          (let (res, more) = try_relays smtp rcpts msg
                 (errs @ [relay_error i r err]) rest
           in (res, (i, steps) # more))
      | (None, steps) \<Rightarrow>
          (if errs \<noteq> [] then backup_text errs else [], [(i, steps)]))"

definition send_email ::
  "'d codecs \<Rightarrow> (nat \<Rightarrow> smtp_step \<Rightarrow> string option) \<Rightarrow> config \<Rightarrow> 'd facts \<Rightarrow> string \<Rightarrow> string \<Rightarrow> string \<Rightarrow>
   string \<times> (nat \<times> smtp_step list) list" where
  "send_email cod smtp cfg facts subject body_markdown body_html =
     (if email_to cfg = [] \<or> smtp_host cfg = [] \<and> smtp2_host cfg = [] then (''skipped: no SMTP configuration'', []) else
      case build_message cod cfg facts subject body_markdown body_html of
        Inl e \<Rightarrow> (''email: '' @ e, [])
      | Inr msg \<Rightarrow> try_relays smtp (email_to cfg) msg [] (relays cfg))"

definition subject_line :: "'d facts \<Rightarrow> string" where
  "subject_line facts =
     (let su = f_summary facts;
          parts = (if 0 < su_crit su then [num (su_crit su) @ '' crit''] else []) @
                  (if 0 < su_warn su then [num (su_warn su) @ '' warn''] else []);
          state = (if parts = [] then ''all clear'' else join '', '' parts)
      in ''[homelab] daily health'' @ dash_sep @ state @ dash_sep @ cut_to 10 (ri_id (f_run facts)))"

section \<open>The delivery of a run\<close>

record sent =
  st_pushes :: "push list"
  st_mails :: "(nat \<times> smtp_step list) list"

definition backup_note :: string where "backup_note = ''email: delivered via backup''"

definition deliver ::
  "(push \<Rightarrow> push_reply) \<Rightarrow> (nat \<Rightarrow> smtp_step \<Rightarrow> string option) \<Rightarrow> 'd codecs \<Rightarrow> config \<Rightarrow> 'd facts \<Rightarrow> string \<Rightarrow>
   string \<Rightarrow> string \<Rightarrow> string list \<times> sent" where
  "deliver post smtp cod cfg facts title body body_html =
     (let (e1, pushed) = send_ntfy post cfg facts title (ntfy_body facts 5);
          errs1 = (if e1 \<noteq> [] \<and> \<not> has_prefix e1 ''skipped'' then [e1] else []);
          (e2, mailed) = send_email cod smtp cfg facts (subject_line facts) body body_html
      in if e2 \<noteq> [] \<and> \<not> has_prefix e2 ''skipped'' then
           let push_body = (if has_prefix e2 backup_note then [] else body);
               (fe, pushed2) = send_ntfy_email_failure post cfg e2 push_body
           in (errs1 @ [e2] @ (if fe \<noteq> [] \<and> \<not> has_prefix fe ''skipped'' then [fe] else []),
               \<lparr>st_pushes = pushed @ pushed2, st_mails = mailed\<rparr>)
         else (errs1, \<lparr>st_pushes = pushed, st_mails = mailed\<rparr>))"

section \<open>Lemmas\<close>

definition accepts :: "(nat \<Rightarrow> smtp_step \<Rightarrow> string option) \<Rightarrow> string \<Rightarrow> message \<Rightarrow> nat \<times> smtp_relay \<Rightarrow> bool" where
  \<comment> \<open>no step of the dialogue fails\<close>
  "accepts smtp rcpts msg = (\<lambda>(i, r). list_all (\<lambda>s. smtp i s = None) (smtp_steps r rcpts msg))"

definition configured :: "config \<Rightarrow> (nat \<times> smtp_relay) list" where
  "configured cfg = filter (\<lambda>(i, r). re_host r \<noteq> []) (relays cfg)"

lemma run_steps_ok: "list_all (\<lambda>s. f s = None) ss \<Longrightarrow> run_steps f ss = (None, ss)"
  by (induction ss) auto

lemma run_steps_fail: "\<not> list_all (\<lambda>s. f s = None) ss \<Longrightarrow> \<exists>e. fst (run_steps f ss) = Some e"
  by (induction ss) (auto split: option.split prod.splits)

lemma run_steps_prefix: "prefix (snd (run_steps f ss)) ss"
  by (induction ss) (auto split: option.split prod.split)

lemma relay_send_cases:
  "if accepts smtp rcpts msg (i, r) then relay_send smtp i r rcpts msg = (None, smtp_steps r rcpts msg)
   else \<exists>e steps. relay_send smtp i r rcpts msg = (Some e, steps)"
  using run_steps_ok [of "smtp i" "smtp_steps r rcpts msg"] run_steps_fail [of "smtp i" "smtp_steps r rcpts msg"]
  by (auto simp: accepts_def relay_send_def prod_eq_iff)

lemma try_relays_accept:
  "re_host r \<noteq> [] \<Longrightarrow> accepts smtp rcpts msg (i, r) \<Longrightarrow>
   try_relays smtp rcpts msg errs ((i, r) # rest) =
     (if errs \<noteq> [] then backup_text errs else [], [(i, smtp_steps r rcpts msg)])"
  using relay_send_cases [of smtp rcpts msg i r] by simp

lemma try_relays_reject:
  assumes "re_host r \<noteq> []" "\<not> accepts smtp rcpts msg (i, r)"
  obtains e where "\<And>errs rest. fst (try_relays smtp rcpts msg errs ((i, r) # rest)) =
     fst (try_relays smtp rcpts msg (errs @ [relay_error i r e]) rest)"
proof -
  from relay_send_cases [of smtp rcpts msg i r] assms(2) obtain e steps where
    "relay_send smtp i r rcpts msg = (Some e, steps)" by auto
  with assms(1) show thesis
    by (intro that [of e]) (simp add: case_prod_unfold Let_def)
qed

abbreviation has_host :: "nat \<times> smtp_relay \<Rightarrow> bool" where
  "has_host \<equiv> \<lambda>(i, r). re_host r \<noteq> []"

lemma relay_error_prefix: "has_prefix (relay_error i r e) ''relay ''"
  by (simp add: relay_error_def has_prefix_def)

lemma try_relays_none:
  "\<not> list_ex (accepts smtp rcpts msg) (filter has_host rs) \<Longrightarrow>
   \<exists>es. length es = length (filter has_host rs) \<and>
     list_all (\<lambda>e. has_prefix e ''relay '') es \<and> fst (try_relays smtp rcpts msg errs rs) = failed_text (errs @ es)"
proof (induction rs arbitrary: errs)
  case (Cons x rs)
  obtain i r where x: "x = (i, r)" by fastforce
  show ?case
  proof (cases "re_host r = []")
    case False
    with Cons.prems x have "\<not> accepts smtp rcpts msg (i, r)" by simp
    from try_relays_reject [OF False this] obtain e where
      e: "\<And>errs rest. fst (try_relays smtp rcpts msg errs ((i, r) # rest)) =
        fst (try_relays smtp rcpts msg (errs @ [relay_error i r e]) rest)" by blast
    from Cons.prems have "\<not> list_ex (accepts smtp rcpts msg) (filter has_host rs)" by (simp split: if_splits)
    from Cons.IH [OF this, of "errs @ [relay_error i r e]"] obtain es where
      "length es = length (filter has_host rs)" "list_all (\<lambda>e. has_prefix e ''relay '') es"
      "fst (try_relays smtp rcpts msg (errs @ [relay_error i r e]) rs) = failed_text (errs @ relay_error i r e # es)" by auto
    with False show ?thesis
      unfolding x e by (intro exI [of _ "relay_error i r e # es"]) (simp add: relay_error_prefix)
  qed (use Cons x in simp)
qed simp

lemma try_relays_some:
  "filter has_host rs = us @ x # vs \<Longrightarrow> \<not> list_ex (accepts smtp rcpts msg) us \<Longrightarrow> accepts smtp rcpts msg x \<Longrightarrow>
   \<exists>es. length es = length us \<and>
     fst (try_relays smtp rcpts msg errs rs) = (if errs @ es \<noteq> [] then backup_text (errs @ es) else [])"
proof (induction rs arbitrary: errs us)
  case (Cons y rs)
  obtain i r where y: "y = (i, r)" by fastforce
  show ?case
  proof (cases "re_host r = []")
    case False
    show ?thesis
    proof (cases us)
      case Nil
      with Cons.prems False y have "accepts smtp rcpts msg (i, r)" by simp
      from try_relays_accept [OF False this] Nil y show ?thesis
        by (intro exI [of _ "[]"]) (simp del: try_relays.simps)
    next
      case (Cons u us')
      with Cons.prems False y have r: "\<not> accepts smtp rcpts msg (i, r)" and us': "filter has_host rs = us' @ x # vs"
        "\<not> list_ex (accepts smtp rcpts msg) us'" by auto
      from try_relays_reject [OF False r] obtain e where
        e: "\<And>errs rest. fst (try_relays smtp rcpts msg errs ((i, r) # rest)) =
          fst (try_relays smtp rcpts msg (errs @ [relay_error i r e]) rest)" by blast
      from Cons.IH [OF us' Cons.prems(3), of "errs @ [relay_error i r e]"] obtain es where
        "length es = length us'"
        "fst (try_relays smtp rcpts msg (errs @ [relay_error i r e]) rs) = backup_text (errs @ relay_error i r e # es)" by auto
      then show ?thesis unfolding y e Cons by (intro exI [of _ "relay_error i r e # es"]) simp
    qed
  qed (use Cons y in simp)
qed simp

lemma failed_not_backup: "list_all (\<lambda>e. has_prefix e ''relay '') (e # es) \<Longrightarrow> \<not> has_prefix (failed_text (e # es)) backup_note"
proof -
  assume "list_all (\<lambda>e. has_prefix e ''relay '') (e # es)"
  then obtain s where "e = ''relay '' @ s" by (auto simp: has_prefix_iff prefix_def)
  then have "\<exists>s. join ''; '' (e # es) = ''relay '' @ s" by (cases es) auto
  then show ?thesis by (auto simp: failed_text_def has_prefix_def backup_note_def)
qed

lemma failed_not_skipped: "failed_text es \<noteq> []" "\<not> has_prefix (failed_text es) ''skipped''"
  by (simp_all add: has_prefix_def failed_text_def)

lemma backup_is_backup: "backup_text es \<noteq> []" "has_prefix (backup_text es) backup_note"
  "\<not> has_prefix (backup_text es) ''skipped''"
  by (simp_all add: has_prefix_def backup_note_def backup_text_def)

lemma configured_Nil: "configured cfg = [] \<longleftrightarrow> smtp_host cfg = [] \<and> smtp2_host cfg = []"
  by (simp add: configured_def relays_def)

lemma send_email_relays:
  "email_to cfg \<noteq> [] \<Longrightarrow> build_message cod cfg facts subject body html = Inr msg \<Longrightarrow> configured cfg \<noteq> [] \<Longrightarrow>
   send_email cod smtp cfg facts subject body html = try_relays smtp (email_to cfg) msg [] (relays cfg)"
  by (auto simp: send_email_def configured_Nil)

lemma send_email_failed:
  assumes "email_to cfg \<noteq> []" "build_message cod cfg facts subject body html = Inr msg" "configured cfg \<noteq> []"
    and "\<not> list_ex (accepts smtp (email_to cfg) msg) (configured cfg)"
  obtains e es where "fst (send_email cod smtp cfg facts subject body html) = failed_text (e # es)"
    "\<not> has_prefix (failed_text (e # es)) backup_note"
proof -
  from try_relays_none [of smtp "email_to cfg" msg "relays cfg" "[]"] assms(4) obtain es where
    es: "length es = length (configured cfg)" "list_all (\<lambda>e. has_prefix e ''relay '') es"
    "fst (try_relays smtp (email_to cfg) msg [] (relays cfg)) = failed_text es"
    by (auto simp: configured_def)
  with assms(3) obtain e es' where "es = e # es'" by (cases es) auto
  with es send_email_relays [OF assms(1,2,3)] failed_not_backup show thesis by (metis that)
qed

lemma smtp_steps_quit: "\<exists>steps. smtp_steps r rcpts msg = steps @ [Quit] \<and> Quit \<notin> set steps"
  unfolding smtp_steps_def
  by (rule exI [of _ "[Dial (join_host_port (re_host r) (re_port r)), Greet, StartTLS] @
      (if re_user r \<noteq> [] then [Auth (re_user r) (re_password r)] else []) @
      [MailFrom (re_from r)] @ map Rcpt (recipients rcpts) @
      [DataCmd, WriteFrom (''From: '' @ re_from r @ crlf), WriteMsg msg, CloseData]"]) auto

lemma lines76_bounds: "list_all (\<lambda>l. l \<noteq> [] \<and> length l \<le> 76) (lines76 n s)"
  by (induction n s rule: lines76.induct) simp_all

lemma lines76_concat: "length s \<le> n \<Longrightarrow> concat (lines76 n s) = s"
  by (induction n s rule: lines76.induct) auto

section \<open>Properties\<close>

text \<open>
  What the result of the mail says is what happened: it is empty exactly when the first
  configured relay took the message without an error, it reports a delivery by the backup exactly
  when that relay failed and a later one took it, and it says skipped exactly when no relay is
  configured.
\<close>

theorem email_outcome:
  assumes "email_to cfg \<noteq> []" "build_message cod cfg facts subject body html = Inr msg"
  shows "let res = fst (send_email cod smtp cfg facts subject body html); conf = configured cfg;
      ok = accepts smtp (email_to cfg) msg
    in (res = []) = (conf \<noteq> [] \<and> ok (hd conf)) \<and>
       has_prefix res backup_note = (conf \<noteq> [] \<and> \<not> ok (hd conf) \<and> list_ex ok conf) \<and>
       has_prefix res ''skipped'' = (conf = [])"
proof (cases "configured cfg = []")
  case True
  then have "fst (send_email cod smtp cfg facts subject body html) = ''skipped: no SMTP configuration''"
    by (simp add: send_email_def configured_Nil)
  then show ?thesis by (simp add: True has_prefix_def backup_note_def)
next
  case conf: False
  let ?ok = "accepts smtp (email_to cfg) msg" and ?res = "fst (send_email cod smtp cfg facts subject body html)"
  show ?thesis
  proof (cases "list_ex ?ok (configured cfg)")
    case False
    from send_email_failed [OF assms conf False] obtain e es where
      "?res = failed_text (e # es)" "\<not> has_prefix (failed_text (e # es)) backup_note" by metis
    moreover from False conf have "\<not> ?ok (hd (configured cfg))" by (cases "configured cfg") auto
    ultimately show ?thesis using conf False by (simp add: Let_def failed_not_skipped)
  next
    case True
    then obtain us x vs where s: "configured cfg = us @ x # vs" "?ok x" "\<not> list_ex ?ok us"
      using split_list_first_prop [of "configured cfg" ?ok] by (auto simp: list_ex_iff)
    from try_relays_some [OF s(1) [unfolded configured_def] s(3,2), of "[]"] send_email_relays [OF assms conf]
    obtain es where es: "length es = length us" "?res = (if es \<noteq> [] then backup_text es else [])" by auto
    show ?thesis
    proof (cases us)
      case Nil
      with es s show ?thesis by (simp add: Let_def backup_note_def has_prefix_def)
    next
      case (Cons u us')
      with es s have "?res = backup_text es" by auto
      with Cons s True show ?thesis by (simp add: Let_def backup_is_backup)
    qed
  qed
qed

definition sample_config :: config where
  "sample_config = default_config\<lparr>email_to := ''me@x'', smtp_host := ''mail'', smtp2_host := ''backup''\<rparr>"

definition sample_codecs :: "'d codecs" where
  "sample_codecs = \<lparr>facts_json = (\<lambda>_. Inr ''{}''), gzip = (\<lambda>s. s), base64 = (\<lambda>s. s), quoted = (\<lambda>s. s), q_encode = (\<lambda>s. s)\<rparr>"

definition sample_facts :: "unit facts" where
  "sample_facts = fst (assemble ''mljr'' [] [] \<lparr>t_ns = 0, t_zone = utc\<rparr> empty_dir)"

lemma sample_configured: "length (configured sample_config) = 2" "email_to sample_config \<noteq> []"
  "configured sample_config \<noteq> []" "ntfy_url sample_config \<noteq> []" "ntfy_topic sample_config \<noteq> []"
  by (simp_all add: configured_def relays_def sample_config_def default_config_def)

lemma sample_message: "\<exists>msg. build_message sample_codecs cfg facts subject body html = Inr msg"
  by (simp add: build_message_def sample_codecs_def Let_def)

theorem email_outcome_witness:
  "fst (send_email sample_codecs (\<lambda>i s. None) sample_config sample_facts ''s'' ''b'' []) = []"
proof -
  obtain msg where m: "build_message sample_codecs sample_config sample_facts ''s'' ''b'' [] = Inr msg"
    using sample_message by blast
  have "accepts (\<lambda>i s. None) (email_to sample_config) msg x" for x
    by (simp add: accepts_def list_all_iff split: prod.split)
  with email_outcome [OF sample_configured(2) m, of "\<lambda>i s. None"] sample_configured(3) show ?thesis
    by (simp add: Let_def)
qed

text \<open>
  Claim C15. A dead mail path is not a silent day: when a mail should go out and every configured relay
  fails, a second push is made that carries the failure and the beginning of the report, cut to 3800
  bytes, and the run records the mail error.
\<close>

theorem dead_mail_pushes_report:
  assumes "email_to cfg \<noteq> []" "configured cfg \<noteq> []" "ntfy_url cfg \<noteq> []" "ntfy_topic cfg \<noteq> []"
    and "build_message cod cfg facts (subject_line facts) body html = Inr msg"
    and "\<not> list_ex (accepts smtp (email_to cfg) msg) (configured cfg)"
    and "\<And>p. post p = Status 200"
  shows "let (errs, sent) = deliver post smtp cod cfg facts title body html in
    \<exists>err p. errs = [err] \<and> length (st_pushes sent) = 2 \<and> last (st_pushes sent) = p \<and>
      pu_url p = push_url cfg \<and> pu_priority p = ''4'' \<and> length (pu_body p) \<le> 3800 \<and>
      pu_body p = cut_to 3800 (''Email delivery failed: '' @ err @ newline @ newline @ body)"
proof -
  from send_email_failed [OF assms(1,5,2,6)] obtain e es where
    f: "fst (send_email cod smtp cfg facts (subject_line facts) body html) = failed_text (e # es)"
    "\<not> has_prefix (failed_text (e # es)) backup_note" by metis
  then obtain mailed where s: "send_email cod smtp cfg facts (subject_line facts) body html = (failed_text (e # es), mailed)"
    by (metis prod.collapse)
  define p where "p = \<lparr>pu_url = push_url cfg, pu_title = ''[homelab] health report email FAILED'', pu_priority = ''4'',
    pu_tags = ''warning,e-mail,homelab'', pu_click = grafana_url cfg, pu_auth = bearer cfg,
    pu_body = cut_to 3800 (''Email delivery failed: '' @ failed_text (e # es) @ newline @ newline @ body)\<rparr>"
  have n: "send_ntfy_email_failure post cfg (failed_text (e # es)) body = ([], [p])"
    using assms(3,4,7) by (simp add: send_ntfy_email_failure_def push_result_def pushes_of_def p_def Let_def)
  obtain q where q: "send_ntfy post cfg facts title (ntfy_body facts 5) = ([], [q])"
    using assms(3,4,7) by (simp add: send_ntfy_def push_result_def pushes_of_def Let_def)
  have "deliver post smtp cod cfg facts title body html =
      ([failed_text (e # es)], \<lparr>st_pushes = [q, p], st_mails = mailed\<rparr>)"
    by (simp add: deliver_def q s f(2) n failed_not_skipped Let_def)
  then show ?thesis by (simp add: p_def length_cut)
qed

theorem dead_mail_pushes_report_witness:
  "let (errs, sent) = deliver (\<lambda>p. Status 200) (\<lambda>i s. Some ''down'') sample_codecs sample_config sample_facts ''t'' ''report'' []
   in length (st_pushes sent) = 2"
proof -
  obtain msg where m: "build_message sample_codecs sample_config sample_facts (subject_line sample_facts) ''report'' [] = Inr msg"
    using sample_message by blast
  have "\<not> list_ex (accepts (\<lambda>i s. Some ''down'') (email_to sample_config) msg) (configured sample_config)"
    by (auto simp: list_ex_iff accepts_def smtp_steps_def)
  from dead_mail_pushes_report [OF sample_configured(2,3,4,5) m this, of "\<lambda>p. Status 200" "''t''"]
  show ?thesis by (auto simp: case_prod_unfold Let_def)
qed

text \<open>
  Claim C16. An error of the closing \<open>QUIT\<close> is taken for a failed delivery: the relay has the message
  (its end was acknowledged), yet the same message is sent once more by the backup relay, and the
  run reports a delivery by the backup.
\<close>

theorem quit_error_resends:
  assumes "email_to cfg \<noteq> []" "smtp_host cfg \<noteq> []" "smtp2_host cfg \<noteq> []"
    and "build_message cod cfg facts subject body html = Inr msg"
    and "\<And>s. smtp 1 s = (if s = Quit then Some e else None)" "\<And>s. smtp 2 s = None"
  shows "let (res, mails) = send_email cod smtp cfg facts subject body html in
    map fst mails = [1, 2] \<and> list_all (\<lambda>(i, steps). {WriteMsg msg, CloseData} \<subseteq> set steps) mails \<and>
    smtp 1 CloseData = None \<and> has_prefix res backup_note"
proof -
  define r1 where "r1 = snd (relays cfg ! 0)"
  define r2 where "r2 = snd (relays cfg ! 1)"
  have rel: "relays cfg = [(1, r1), (2, r2)]" and h: "re_host r1 \<noteq> []" "re_host r2 \<noteq> []"
    using assms(2,3) by (simp_all add: relays_def r1_def r2_def)
  have "send_email cod smtp cfg facts subject body html = try_relays smtp (email_to cfg) msg [] [(1, r1), (2, r2)]"
    using send_email_relays [OF assms(1,4)] assms(2) by (simp add: configured_Nil rel)
  moreover have quit: "smtp (Suc 0) s = (if s = Quit then Some e else None)" for s
    using assms(5) [of s] by simp
  have "run_steps (smtp 1) (ss @ [Quit]) = (Some e, ss @ [Quit])" if "Quit \<notin> set ss" for ss
    using that by (induction ss) (auto simp: quit)
  with smtp_steps_quit [of r1 "email_to cfg" msg]
  have one: "relay_send smtp 1 r1 (email_to cfg) msg = (Some e, smtp_steps r1 (email_to cfg) msg)"
    by (auto simp: relay_send_def)
  moreover have two: "relay_send smtp 2 r2 (email_to cfg) msg = (None, smtp_steps r2 (email_to cfg) msg)"
    unfolding relay_send_def by (rule run_steps_ok) (simp add: list_all_iff assms(6))
  ultimately have "send_email cod smtp cfg facts subject body html =
      (backup_text [relay_error 1 r1 e], [(1, smtp_steps r1 (email_to cfg) msg), (2, smtp_steps r2 (email_to cfg) msg)])"
    using h by simp
  then show ?thesis by (simp add: backup_is_backup quit smtp_steps_def)
qed

theorem quit_error_resends_witness:
  "map fst (snd (send_email sample_codecs (\<lambda>i s. if i = 1 \<and> s = Quit then Some ''EOF'' else None) sample_config sample_facts ''s'' ''b'' [])) = [1, 2]"
proof -
  obtain msg where m: "build_message sample_codecs sample_config sample_facts ''s'' ''b'' [] = Inr msg"
    using sample_message by blast
  have "smtp_host sample_config \<noteq> []" "smtp2_host sample_config \<noteq> []"
    by (simp_all add: sample_config_def)
  from quit_error_resends [OF sample_configured(2) this m, of "\<lambda>i s. if i = 1 \<and> s = Quit then Some ''EOF'' else None" "''EOF''"]
  show ?thesis by (simp add: case_prod_unfold Let_def)
qed

text \<open>
  An attachment survives the line breaks: the lines of the encoded text are never empty, have at
  most 76 bytes each, and put together they are the encoded text.
\<close>

theorem attachment_lines:
  "let ls = lines76 (length encoded) encoded in
   concat ls = encoded \<and> list_all (\<lambda>l. l \<noteq> [] \<and> length l \<le> 76) ls \<and>
   write_part (cod\<lparr>base64 := (\<lambda>_. encoded)\<rparr>) [(''Content-Transfer-Encoding'', ''base64'')] content =
     Part [(''Content-Transfer-Encoding'', ''base64'')] (concat (map (\<lambda>l. l @ crlf) ls))"
  using lines76_bounds lines76_concat by (simp add: Let_def write_part_def mhas_def)

end
