(* ===== verification/HR_Main.thy ===== *)
theory HR_Main
  imports HR_Deliver HR_Run
begin

text \<open>
  The program of the health report, \<^verbatim>\<open>src/tools/cmd/healthreport/main.go\<close>: the modes its flags select
  and the whole run from the environment to the state directory.  Everything outside the program
  (files, JSON, collectors, the model server, push service, mail relays, clock) is the record
  \<open>world\<close>; state directories are a function from paths.
\<close>

section \<open>Flags, world and result\<close>

record flags =
  fl_send :: bool
  fl_dry_run :: bool
  fl_collect_only :: bool
  fl_diff_only :: bool
  fl_facts :: string
  fl_facts_previous :: string
  fl_llm_fixture :: string
  fl_ollama_url :: string
  fl_ntfy_topic :: string
  fl_email_to :: string
  fl_state_dir :: string
  fl_noop :: bool
  fl_collectors :: "string list"

record 'd world =
  w_env :: environ
  w_rules :: "string \<Rightarrow> rules_file option" \<comment> \<open>\<open>LoadRules\<close>\<close>
  w_file :: "string \<Rightarrow> string option"
  w_json :: "string \<Rightarrow> any option"
  w_current :: "string \<Rightarrow> observation list option" \<comment> \<open>decoding the facts of \<open>--facts\<close>\<close>
  w_prev :: "string \<Rightarrow> previous_facts option" \<comment> \<open>and of \<open>--facts-previous\<close>\<close>
  w_marshals :: bool \<comment> \<open>encoding the printed or dry-run JSON succeeds\<close>
  w_registry :: "(string, (config, 'd) collector_fn) gmap"
  w_elapsed :: "string \<Rightarrow> f64"
  w_now :: gtime
  w_local :: zone
  w_host :: string
  w_llm :: "config \<Rightarrow> llm"
  w_html :: "'d facts \<Rightarrow> narrative option \<Rightarrow> string \<Rightarrow> string option" \<comment> \<open>\<open>RenderHTML\<close>\<close>
  w_post :: "push \<Rightarrow> push_reply"
  w_smtp :: "nat \<Rightarrow> smtp_step \<Rightarrow> string option"
  w_codecs :: "'d codecs"
  w_ok :: "io_op \<Rightarrow> bool"

datatype 'd printed = Nothing | Config "string list" | Diff diff_result | Collected "'d results" | Body string

type_synonym 'd dirs = "string \<Rightarrow> 'd state_dir"

record 'd outcome_of_run =
  rs_exit :: nat
  rs_printed :: "'d printed"
  rs_sent :: sent
  rs_dry_file :: "'d facts option"
  rs_dirs :: "'d dirs"

definition nothing_sent :: sent where
  "nothing_sent = \<lparr>st_pushes = [], st_mails = []\<rparr>"

definition stops :: "nat \<Rightarrow> 'd printed \<Rightarrow> 'd dirs \<Rightarrow> 'd outcome_of_run" where
  \<comment> \<open>an end of the program before anything is delivered or stored\<close>
  "stops code out dirs =
     \<lparr>rs_exit = code, rs_printed = out, rs_sent = nothing_sent, rs_dry_file = None, rs_dirs = dirs\<rparr>"

section \<open>The modes\<close>

definition default_collectors :: "string list" where
  "default_collectors =
     [''host_metrics'', ''containers'', ''logs'', ''uptime_kuma'', ''ssh_facts'', ''github'', ''updates'',
      ''homeassistant'', ''dmarc'', ''home_ip'', ''mail_dns'', ''defectdojo'', ''ntfy_access'', ''csp_reports'',
      ''monitor_availability'', ''appsec'', ''pki'']"

definition override :: "string \<Rightarrow> string \<Rightarrow> string" where
  "override flag value = (if flag \<noteq> [] then flag else value)"

definition run_config :: "'d world \<Rightarrow> flags \<Rightarrow> config" where
  "run_config w fl =
     (let cfg = config_from_env (w_env w)
      in cfg\<lparr>ollama_url := override (fl_ollama_url fl) (ollama_url cfg),
             ntfy_topic := override (fl_ntfy_topic fl) (ntfy_topic cfg),
             email_to := override (fl_email_to fl) (email_to cfg),
             state_dir_path := override (fl_state_dir fl) (state_dir_path cfg)\<rparr>)"

definition set_or_missing :: "string \<Rightarrow> string" where
  "set_or_missing secret = (if secret \<noteq> [] then ''set'' else ''MISSING'')"

definition pad_right :: "nat \<Rightarrow> string \<Rightarrow> string" where
  "pad_right n s = s @ replicate (n - length s) CHR '' ''"

definition noop_rows :: "config \<Rightarrow> (string \<times> string) list" where
  "noop_rows cfg =
     (let hosts = sorted_keys (ssh_hosts cfg) in
      [(''victoria'', victoria_url cfg), (''loki'', loki_url cfg),
       (''kuma'', kuma_url cfg @ '' (api key '' @ set_or_missing (kuma_api_key cfg) @ '')''),
       (''ollama'', ollama_url cfg @ '' model='' @ ollama_model cfg @ '' enabled='' @
          (if cf_llm_enabled cfg then ''true'' else ''false'')),
       (''ssh hosts'', if hosts \<noteq> [] then join '', '' hosts else ''NONE''),
       (''github'', ''token '' @ set_or_missing (github_token cfg) @ '' owner='' @
          (if github_owner cfg = [] then ''?'' else github_owner cfg)),
       (''homeassistant'', ha_url cfg @ '' (token '' @ set_or_missing (ha_token cfg) @ '')''),
       (''ntfy'', ntfy_url cfg @ ''/'' @ ntfy_topic cfg),
       (''email'', if email_to cfg = [] then ''MISSING'' else email_to cfg),
       (''state'', state_dir_path cfg)])"

definition print_noop :: "config \<Rightarrow> string list" where
  "print_noop cfg =
     [''healthreport configuration:''] @
     map (\<lambda>(k, v). ''  '' @ pad_right 10 k @ '' '' @ v) (noop_rows cfg) @
     [''no-op: nothing collected, nothing sent'']"

definition run_diff_only :: "'d world \<Rightarrow> flags \<Rightarrow> 'd dirs \<Rightarrow> 'd outcome_of_run" where
  "run_diff_only w fl dirs =
     (case Option.bind (w_file w (fl_facts fl)) (w_current w) of
        None \<Rightarrow> stops 2 Nothing dirs
      | Some observations \<Rightarrow>
          (case (if fl_facts_previous fl = [] then Some []
                 else Option.bind (w_file w (fl_facts_previous fl)) (w_prev w)) of
             None \<Rightarrow> stops 2 Nothing dirs
           | Some previous \<Rightarrow>
               if w_marshals w
               then stops 0 (Diff (s_diff (compute observations previous [] (fmt_rfc3339 (w_now w))))) dirs
               else stops 2 Nothing dirs))"

definition print_collect_only :: "'d world \<Rightarrow> 'd results \<Rightarrow> 'd dirs \<Rightarrow> 'd outcome_of_run" where
  "print_collect_only w results dirs =
     (if w_marshals w then stops 0 (Collected results) dirs else stops 2 Nothing dirs)"

definition fixture_narrative :: "'d world \<Rightarrow> string \<Rightarrow> 'd facts \<Rightarrow> narrative option \<times> string" where
  "fixture_narrative w raw facts =
     (case w_json w raw of
        None \<Rightarrow> (None, ''degraded_invalid'')
      | Some parsed \<Rightarrow>
          (case validate_narrative parsed (\<lambda>i. i \<in> o_id ` set (f_observations facts)) of
             Inl _ \<Rightarrow> (None, ''degraded_invalid'')
           | Inr n \<Rightarrow> (Some n, ''ok'')))"

definition run_narrative :: "'d world \<Rightarrow> flags \<Rightarrow> config \<Rightarrow> 'd facts \<Rightarrow> (narrative option \<times> string) option" where
  \<comment> \<open>\<open>None\<close>: the fixture cannot be read\<close>
  "run_narrative w fl cfg facts =
     (if fl_llm_fixture fl \<noteq> []
      then map_option (\<lambda>raw. fixture_narrative w raw facts) (w_file w (fl_llm_fixture fl))
      else Some (fst (summarize ((w_llm w cfg)\<lparr>llm_enabled := cf_llm_enabled cfg\<rparr>) facts)))"

section \<open>The run\<close>

definition run_delivery ::
  "'d world \<Rightarrow> flags \<Rightarrow> config \<Rightarrow> 'd facts \<Rightarrow> narrative option \<Rightarrow> 'd printed \<times> string list \<times> sent" where
  "run_delivery w fl cfg facts narrative =
     (let (body, fallback) = render facts narrative;
          title = headline narrative fallback;
          html = (case w_html w facts narrative title of Some h \<Rightarrow> h | None \<Rightarrow> [])
      in if fl_send fl
         then let (errs, out) = deliver (w_post w) (w_smtp w) (w_codecs w) cfg facts title body html
              in (Nothing, errs, out)
         else (Body body, [], nothing_sent))"

definition run_results :: "'d world \<Rightarrow> flags \<Rightarrow> config \<Rightarrow> rules_file \<Rightarrow> 'd results" where
  "run_results w fl cfg rules =
     run_collectors (w_registry w) (w_elapsed w) cfg rules
       (if fl_collectors fl = [] then default_collectors else fl_collectors fl)"

definition run_report :: "'d world \<Rightarrow> flags \<Rightarrow> config \<Rightarrow> rules_file \<Rightarrow> 'd results \<Rightarrow> 'd dirs \<Rightarrow> 'd outcome_of_run" where
  "run_report w fl cfg rules results dirs =
     (let path = state_dir_path cfg;
          (facts0, seen) = assemble (w_host w) rules results (w_now w) (dirs path)
      in case run_narrative w fl cfg facts0 of
           None \<Rightarrow> stops 2 Nothing dirs
         | Some (narrative, status) \<Rightarrow>
             let facts1 = facts0\<lparr>f_llm_status := status\<rparr>;
                 (out, errs, delivered) = run_delivery w fl cfg facts1 narrative;
                 facts = facts1\<lparr>f_delivery_errors := errs\<rparr>
             in if fl_dry_run fl
                then \<lparr>rs_exit = 0, rs_printed = out, rs_sent = delivered,
                      rs_dry_file = (if w_marshals w then Some facts else None), rs_dirs = dirs\<rparr>
                else let (err, facts', kept, sd) = save (w_ok w) (w_local w) facts seen history_days (dirs path)
                     in \<lparr>rs_exit = 0, rs_printed = out, rs_sent = delivered, rs_dry_file = None,
                         rs_dirs = dirs(path := sd)\<rparr>)"

definition main_run :: "'d world \<Rightarrow> flags \<Rightarrow> 'd dirs \<Rightarrow> 'd outcome_of_run" where
  "main_run w fl dirs =
     (let cfg = run_config w fl
      in if fl_noop fl then stops 0 (Config (print_noop cfg)) dirs else
         case w_rules w (rules_path cfg) of
           None \<Rightarrow> stops 2 Nothing dirs
         | Some rules \<Rightarrow>
             if fl_diff_only fl then (if fl_facts fl = [] then stops 2 Nothing dirs else run_diff_only w fl dirs) else
             let results = run_results w fl cfg rules
             in if fl_collect_only fl then print_collect_only w results dirs
                else run_report w fl cfg rules results dirs)"

section \<open>Lemmas\<close>

definition quiet :: "flags \<Rightarrow> bool" where
  \<comment> \<open>the modes that store nothing\<close>
  "quiet fl \<longleftrightarrow> fl_noop fl \<or> fl_diff_only fl \<or> fl_collect_only fl \<or> fl_dry_run fl"

lemma stops_simps [simp]:
  "rs_exit (stops c out dirs) = c" "rs_printed (stops c out dirs) = out" "rs_sent (stops c out dirs) = nothing_sent"
  "rs_dry_file (stops c out dirs) = None" "rs_dirs (stops c out dirs) = dirs"
  by (simp_all add: stops_def)

lemma run_diff_only_frame [simp]:
  "rs_dirs (run_diff_only w fl dirs) = dirs" "rs_sent (run_diff_only w fl dirs) = nothing_sent"
  by (auto simp: run_diff_only_def split: option.split)

lemma print_collect_only_frame [simp]:
  "rs_dirs (print_collect_only w results dirs) = dirs" "rs_sent (print_collect_only w results dirs) = nothing_sent"
  by (auto simp: print_collect_only_def)

text \<open>The report either leaves the directories alone or takes one step of the state model.\<close>

definition report_input :: "'d world \<Rightarrow> 'd results \<Rightarrow> string \<Rightarrow> string list \<Rightarrow> 'd run_input" where
  "report_input w results status errs =
     \<lparr>in_results = results, in_now = w_now w, in_llm_status = status, in_delivery_errors = errs,
      in_dry_run = False, in_ok = w_ok w\<rparr>"

definition unreadable :: "'d world \<Rightarrow> flags \<Rightarrow> bool" where
  "unreadable w fl \<longleftrightarrow> fl_llm_fixture fl \<noteq> [] \<and> w_file w (fl_llm_fixture fl) = None"

lemma run_report_cases:
  obtains (fixture) "unreadable w fl" "run_report w fl cfg rules results dirs = stops 2 Nothing dirs"
  | (dry) "\<not> unreadable w fl" "fl_dry_run fl" "rs_dirs (run_report w fl cfg rules results dirs) = dirs"
      "rs_exit (run_report w fl cfg rules results dirs) = 0"
  | (step) status errs where "\<not> unreadable w fl" "\<not> fl_dry_run fl" "rs_exit (run_report w fl cfg rules results dirs) = 0"
      "rs_dirs (run_report w fl cfg rules results dirs) = dirs(state_dir_path cfg :=
         snd (run_once (w_local w) (w_host w) rules (report_input w results status errs) (dirs (state_dir_path cfg))))"
proof -
  obtain facts0 seen where a: "assemble (w_host w) rules results (w_now w) (dirs (state_dir_path cfg)) = (facts0, seen)"
    by fastforce
  show thesis
  proof (cases "run_narrative w fl cfg facts0")
    case None
    then have "unreadable w fl" by (auto simp: run_narrative_def unreadable_def split: if_splits)
    with None fixture show thesis by (simp add: run_report_def a Let_def)
  next
    case (Some r)
    then have readable: "\<not> unreadable w fl" by (auto simp: run_narrative_def unreadable_def split: if_splits)
    obtain narrative status where r: "r = (narrative, status)" by fastforce
    obtain out errs delivered where d:
      "run_delivery w fl cfg (facts0\<lparr>f_llm_status := status\<rparr>) narrative = (out, errs, delivered)"
      by (metis prod.exhaust)
    define facts where "facts = facts0\<lparr>f_llm_status := status, f_delivery_errors := errs\<rparr>"
    obtain err facts' kept sd where s:
      "save (w_ok w) (w_local w) facts seen history_days (dirs (state_dir_path cfg)) = (err, facts', kept, sd)"
      by (metis prod.exhaust)
    have f: "facts0\<lparr>f_llm_status := status\<rparr>\<lparr>f_delivery_errors := errs\<rparr> = facts" by (simp add: facts_def)
    show thesis
    proof (cases "fl_dry_run fl")
      case True
      show thesis
        by (rule dry [OF readable True]) (simp_all add: run_report_def a Some r d True Let_def)
    next
      case False
      have "run_facts (w_host w) rules (report_input w results status errs) (dirs (state_dir_path cfg)) = (facts, seen)"
        by (simp add: run_facts_def report_input_def a facts_def)
      then have "run_once (w_local w) (w_host w) rules (report_input w results status errs) (dirs (state_dir_path cfg)) = (err, sd)"
        by (simp add: run_once_def report_input_def s)
      then show thesis
        by (intro step [OF readable False, of status errs])
          (simp_all add: run_report_def a Some r d False Let_def s f)
    qed
  qed
qed

section \<open>Properties\<close>


definition sample_flags :: flags where
  "sample_flags =
     \<lparr>fl_send = True, fl_dry_run = False, fl_collect_only = False, fl_diff_only = False, fl_facts = [],
      fl_facts_previous = [], fl_llm_fixture = [], fl_ollama_url = [], fl_ntfy_topic = [], fl_email_to = [],
      fl_state_dir = ''/s'', fl_noop = False, fl_collectors = [''logs'']\<rparr>"

definition sample_world :: "unit world" where
  \<comment> \<open>a day on which everything fails: a panicking collector, no HTML, no push service, no relay, no disk\<close>
  "sample_world =
     \<lparr>w_env = (\<lambda>_. None), w_rules = (\<lambda>_. Some []), w_file = (\<lambda>_. None), w_json = (\<lambda>_. None),
      w_current = (\<lambda>_. None), w_prev = (\<lambda>_. None), w_marshals = False,
      w_registry = [(''logs'', \<lambda>_ _. Panics ''boom'')], w_elapsed = (\<lambda>_. f_zero),
      w_now = \<lparr>t_ns = 0, t_zone = (\<lambda>_. 0)\<rparr>, w_local = (\<lambda>_. 0), w_host = ''mljr'',
      w_llm = (\<lambda>_. \<lparr>llm_enabled = True, llm_load = False, llm_chat = (\<lambda>_ _ _. TransportError), llm_parse = (\<lambda>_. None)\<rparr>),
      w_html = (\<lambda>_ _ _. None), w_post = (\<lambda>_. ClientError ''down''), w_smtp = (\<lambda>_ _. Some ''down''),
      w_codecs = sample_codecs, w_ok = (\<lambda>_. False)\<rparr>"


text \<open>
  Findings are not crashes: once the rules are loaded, a report without a fixture exits with 0
  whatever fails in it, the collectors, the model, the HTML part, push, mail or the writing of
  the state.
\<close>

theorem main_exit_zero:
  assumes "w_rules w (rules_path (run_config w fl)) = Some rules"
    and "\<not> fl_diff_only fl" "\<not> fl_collect_only fl" "fl_llm_fixture fl = []"
  shows "rs_exit (main_run w fl dirs) = 0"
proof -
  have "rs_exit (run_report w fl (run_config w fl) rules (run_results w fl (run_config w fl) rules) dirs) = 0"
    by (rule run_report_cases [of w fl "run_config w fl" rules "run_results w fl (run_config w fl) rules" dirs])
      (use assms(4) in \<open>simp_all add: unreadable_def\<close>)
  with assms(1-3) show ?thesis by (simp add: main_run_def Let_def)
qed

theorem main_exit_zero_witness:
  "rs_exit (main_run sample_world sample_flags (\<lambda>_. empty_dir)) = 0"
  by (rule main_exit_zero [of _ _ "[]"]) (simp_all add: sample_world_def sample_flags_def)

text \<open>
  The modes for looking are safe: \<open>--noop\<close>, \<open>--diff-only\<close>, \<open>--collect-only\<close> and
  \<open>--dry-run\<close> change no state directory, and without \<open>--send\<close> nothing is pushed or mailed.
\<close>

theorem main_quiet_modes:
  "(if fl_noop fl \<or> fl_diff_only fl \<or> fl_collect_only fl \<or> fl_dry_run fl
    then rs_dirs (main_run w fl dirs) = dirs else True) \<and>
   (if fl_send fl \<and> \<not> fl_noop fl \<and> \<not> fl_diff_only fl \<and> \<not> fl_collect_only fl then True
    else rs_sent (main_run w fl dirs) = nothing_sent)"
proof -
  have dry: "fl_dry_run fl \<Longrightarrow> rs_dirs (run_report w fl cfg rules results dirs) = dirs" for cfg rules results
    by (rule run_report_cases [of w fl cfg rules results dirs]) simp_all
  have unsent: "\<not> fl_send fl \<Longrightarrow> rs_sent (run_report w fl cfg rules results dirs) = nothing_sent" for cfg rules results
    by (simp add: run_report_def run_delivery_def case_prod_unfold Let_def split: option.split)
  show ?thesis
  proof (cases "w_rules w (rules_path (run_config w fl))")
    case None
    then show ?thesis by (simp add: main_run_def Let_def)
  next
    case (Some rules)
    then show ?thesis using dry unsent by (simp add: main_run_def Let_def)
  qed
qed

definition strip_run :: "'d state_dir \<Rightarrow> observation list option \<times> diff_result option \<times> summary option \<times> seen_state option" where
  "strip_run sd = (map_option f_observations (sd_latest sd), map_option f_diff (sd_latest sd),
     map_option f_summary (sd_latest sd), sd_seen sd)"

lemma save_files_strip:
  assumes "f_run facts = f_run facts'" "f_observations facts = f_observations facts'" "f_diff facts = f_diff facts'"
    "f_summary facts = f_summary facts'"
  shows "strip_run (snd (save_files ok facts seen days sd)) = strip_run (snd (save_files ok facts' seen days sd))"
  using assms by (simp add: save_files_def strip_run_def Let_def split: option.split)

lemma run_once_strip:
  "strip_run (snd (run_once local hostname rules (report_input w results status errs) sd)) =
   strip_run (snd (run_once local hostname rules (report_input w results status' errs') sd))"
proof -
  obtain facts seen where a: "assemble hostname rules results (w_now w) sd = (facts, seen)" by fastforce
  define F where "F = (\<lambda>status errs. facts\<lparr>f_llm_status := status, f_delivery_errors := errs\<rparr>)"
  have r: "run_facts hostname rules (report_input w results status errs) sd = (F status errs, seen)" for status errs
    by (simp add: run_facts_def report_input_def a F_def)
  have sel: "in_ok (report_input w results status errs) = w_ok w" "\<not> in_dry_run (report_input w results status errs)"
    for status errs by (simp_all add: report_input_def)
  obtain kept n where p: "prune_seen local seen (ri_started_at (f_run facts)) retention_days = (kept, n)" by fastforce
  have s: "snd (run_once local hostname rules (report_input w results status errs) sd) =
      (if \<not> w_ok w MkHistory \<or> \<not> w_ok w MkSeen then sd
       else snd (save_files (w_ok w) (if 0 < n then (F status errs)\<lparr>f_summary := (f_summary facts)\<lparr>su_pruned := n\<rparr>\<rparr>
         else F status errs) kept history_days sd))" for status errs
    unfolding run_once_def r
    by (simp add: save_def sel F_def p Let_def del: run_facts_simps split: prod.split)
  show ?thesis
    unfolding s by (auto simp: F_def intro!: save_files_strip)
qed

text \<open>
  Claim C13. The narrative and the delivery decide nothing: two runs that differ only in the model
  server, the HTML part, the codecs, push and mail (in whether they work and in all their answers)
  store the same observations with the same severities, the same diff and counts, and the same
  seen-state.
\<close>

theorem narrative_decides_nothing:
  "strip_run (rs_dirs (main_run (w\<lparr>w_llm := l, w_html := h, w_post := po, w_smtp := sm, w_codecs := c\<rparr>) fl dirs) p) =
   strip_run (rs_dirs (main_run w fl dirs) p)"
proof -
  define w' where "w' = w\<lparr>w_llm := l, w_html := h, w_post := po, w_smtp := sm, w_codecs := c\<rparr>"
  have sel: "w_env w' = w_env w" "w_rules w' = w_rules w" "w_file w' = w_file w" "w_current w' = w_current w"
    "w_prev w' = w_prev w" "w_marshals w' = w_marshals w" "w_registry w' = w_registry w" "w_elapsed w' = w_elapsed w"
    "w_now w' = w_now w" "w_local w' = w_local w" "w_host w' = w_host w" "w_ok w' = w_ok w"
    by (simp_all add: w'_def)
  have same: "run_config w' fl = run_config w fl"
    "unreadable w' fl = unreadable w fl" "run_diff_only w' fl dirs = run_diff_only w fl dirs"
    "print_collect_only w' results dirs = print_collect_only w results dirs"
    "run_results w' fl cfg rules = run_results w fl cfg rules"
    "report_input w' results status errs = report_input w results status errs" for results cfg rules status errs
    unfolding run_config_def unreadable_def run_diff_only_def print_collect_only_def run_results_def
      report_input_def sel by (rule refl)+
  have report: "strip_run (rs_dirs (run_report w' fl cfg rules results dirs) p) =
      strip_run (rs_dirs (run_report w fl cfg rules results dirs) p)" for cfg rules results
    by (rule run_report_cases [of w fl cfg rules results dirs];
        rule run_report_cases [of w' fl cfg rules results dirs])
      (auto simp: same sel run_once_strip)
  show ?thesis
    unfolding w'_def [symmetric]
    by (cases "w_rules w (rules_path (run_config w fl))") (simp_all add: main_run_def same sel report Let_def)
qed

end
