(* ===== verification/Go_Sort.thy ===== *)
theory Go_Sort
  imports Go_Float
begin

text \<open>
  \<^verbatim>\<open>sort.SliceStable\<close> with a comparison function.  Up to 20 elements it is the insertion sort
  \<open>slice_stable\<close>, whatever the comparison does; for a strict weak order (the interface
  \<open>weak_order\<close>, on the elements that occur) the result is the one stable sorting, so that the
  larger lists, which are merged from such blocks, agree too.  Comparing floats is such an order
  as long as no NaN occurs.
\<close>

section \<open>Insertion sort\<close>

fun sink :: "('a \<Rightarrow> 'a \<Rightarrow> bool) \<Rightarrow> 'a \<Rightarrow> 'a list \<Rightarrow> 'a list" where
  \<comment> \<open>the inner loop: the sorted part is given in reverse, its last element first\<close>
  "sink lt x [] = [x]"
| "sink lt x (y # ys) = (if lt x y then y # sink lt x ys else x # y # ys)"

definition slice_stable :: "('a \<Rightarrow> 'a \<Rightarrow> bool) \<Rightarrow> 'a list \<Rightarrow> 'a list" where
  "slice_stable lt xs = rev (fold (sink lt) xs [])"

lemma mset_sink: "mset (sink lt x ys) = add_mset x (mset ys)"
  by (induction ys) auto

lemma set_sink [simp]: "set (sink lt x ys) = insert x (set ys)"
  by (induction ys) auto

lemma mset_fold_sink: "mset (fold (sink lt) xs ys) = mset xs + mset ys"
  by (induction xs arbitrary: ys) (auto simp: mset_sink)

lemma mset_slice_stable [simp]: "mset (slice_stable lt xs) = mset xs"
  by (simp add: slice_stable_def mset_fold_sink)

lemma set_slice_stable [simp]: "set (slice_stable lt xs) = set xs"
  using mset_slice_stable by (rule mset_eq_setD)

lemma length_slice_stable [simp]: "length (slice_stable lt xs) = length xs"
  using mset_slice_stable by (rule mset_eq_length)

lemma slice_stable_Nil [simp]: "slice_stable lt [] = []"
  by (simp add: slice_stable_def)

lemma slice_stable_eq_Nil [simp]: "slice_stable lt xs = [] \<longleftrightarrow> xs = []"
  using length_slice_stable [of lt xs] by (metis length_0_conv)

section \<open>Strict weak orders\<close>

locale weak_order =
  fixes lt :: "'a \<Rightarrow> 'a \<Rightarrow> bool"
    and ok :: "'a \<Rightarrow> bool" \<comment> \<open>the elements on which it is one\<close>
  assumes asym: "ok x \<Longrightarrow> ok y \<Longrightarrow> lt x y \<Longrightarrow> \<not> lt y x"
    and lt_cotrans: "ok x \<Longrightarrow> ok y \<Longrightarrow> ok z \<Longrightarrow> lt x z \<Longrightarrow> lt x y \<or> lt y z"
begin

lemma sink_sorted:
  assumes "list_all ok ys" "ok x" "sorted_wrt (\<lambda>a b. \<not> lt a b) ys"
  shows "sorted_wrt (\<lambda>a b. \<not> lt a b) (sink lt x ys)"
  using assms
proof (induction ys)
  case (Cons y ys)
  show ?case
  proof (cases "lt x y")
    case True
    with Cons show ?thesis by (auto dest: asym)
  next
    case False
    with Cons.prems have "\<not> lt x z" if "z \<in> set ys" for z
      using that lt_cotrans [of x y z] by (auto simp: list_all_iff)
    with False Cons.prems show ?thesis by auto
  qed
qed simp

lemma fold_sink_sorted:
  "list_all ok xs \<Longrightarrow> list_all ok ys \<Longrightarrow> sorted_wrt (\<lambda>a b. \<not> lt a b) ys \<Longrightarrow>
     sorted_wrt (\<lambda>a b. \<not> lt a b) (fold (sink lt) xs ys)"
  by (induction xs arbitrary: ys) (auto simp: sink_sorted list_all_iff)

lemma slice_stable_sorted: "list_all ok xs \<Longrightarrow> sorted_wrt (\<lambda>a b. \<not> lt b a) (slice_stable lt xs)"
  by (simp add: slice_stable_def sorted_wrt_rev fold_sink_sorted)

text \<open>Equal elements keep their order.\<close>

definition same :: "'a \<Rightarrow> 'a \<Rightarrow> bool" where
  "same a b \<longleftrightarrow> \<not> lt a b \<and> \<not> lt b a"

lemma sink_same:
  assumes "list_all ok ys" "ok x" "ok a"
  shows "filter (same a) (sink lt x ys) = filter (same a) (x # ys)"
  using assms
proof (induction ys)
  case (Cons y ys)
  show ?case
  proof (cases "lt x y")
    case True
    with Cons.prems have "\<not> (same a x \<and> same a y)"
      using lt_cotrans [of x a y] by (auto simp: same_def)
    with True Cons show ?thesis by auto
  qed simp
qed simp

lemma slice_stable_same:
  assumes "list_all ok xs" "ok a"
  shows "filter (same a) (slice_stable lt xs) = filter (same a) xs"
proof -
  have "filter (same a) (fold (sink lt) xs ys) = filter (same a) (rev xs @ ys)" if "list_all ok ys" for ys
    using assms(1) that
  proof (induction xs arbitrary: ys)
    case (Cons x xs)
    then have "list_all ok (sink lt x ys)" by (auto simp: list_all_iff)
    with Cons assms(2) show ?case by (simp add: sink_same)
  qed simp
  then show ?thesis by (simp add: slice_stable_def flip: rev_filter)
qed

lemma slice_stable_hd_least:
  assumes "list_all ok xs" "x \<in> set xs"
  shows "\<not> lt x (hd (slice_stable lt xs))"
proof -
  obtain y ys where s: "slice_stable lt xs = y # ys"
    using assms(2) by (metis length_slice_stable length_greater_0_conv length_pos_if_in_set neq_Nil_conv)
  have "x \<in> set (slice_stable lt xs)" using assms(2) by simp
  with s slice_stable_sorted [OF assms(1)] have "x = y \<or> \<not> lt x y" by auto
  moreover have "\<not> lt y y"
    using assms asym s by (metis list.set_intros(1) list_all_iff set_slice_stable)
  ultimately show ?thesis using s by auto
qed

end

section \<open>Descending floats\<close>

interpretation desc: weak_order "\<lambda>x y. f_lt (key y) (key x)" "\<lambda>x. key x \<noteq> NaN" for key :: "'a \<Rightarrow> f64"
proof unfold_locales
  fix x y z :: 'a
  show "f_lt (key y) (key x) \<Longrightarrow> \<not> f_lt (key x) (key y)" by (rule f_lt_asym)
  show "key x \<noteq> NaN \<Longrightarrow> key y \<noteq> NaN \<Longrightarrow> key z \<noteq> NaN \<Longrightarrow>
      f_lt (key z) (key x) \<Longrightarrow> f_lt (key y) (key x) \<or> f_lt (key z) (key y)"
    by (cases "key x"; cases "key y"; cases "key z") auto
qed

end
