(* ===== verification/HR_State.thy ===== *)
theory HR_State
  imports HR_Run Go_Sort
begin

text \<open>
  The state of the estate as the report shows it: \<^verbatim>\<open>src/tools/internal/healthreport/data_types.go\<close>
  (the data of the collectors, which instantiates the parameter of \<open>collector_result\<close>) and
  \<^verbatim>\<open>system_state.go\<close> (hosts, counts, backup targets and notes).  The data of a collector is a
  pointer that is nil only when the collector failed; a nil pointer of a data type does not occur.
\<close>

section \<open>Collector data\<close>

record filesystem_row =
  fr_instance :: string
  fr_mountpoint :: string
  fr_used_percent :: f64

record memory_row =
  mr_instance :: string
  mr_used_percent :: f64

record load_row =
  lr_instance :: string
  lr_load15 :: f64

record uptime_row =
  ur_instance :: string
  ur_uptime :: int

record host_metrics =
  hm_filesystems :: "filesystem_row list"
  hm_memory :: "memory_row list"
  hm_load :: "load_row list"
  hm_uptime :: "uptime_row list"
  hm_age :: "(string, f64) gmap"

record containers_data =
  cd_current :: int
  cd_previous :: int
  cd_missing :: "string list"
  cd_new :: "string list"

record kuma_row =
  km_name :: string
  km_url :: "string option"
  km_status :: "int option"
  km_cert_days :: "int option"
  km_response_ms :: "f64 option"

record kuma_data =
  kd_count :: int
  kd_monitors :: "kuma_row list"

record github_repo =
  gr_repo :: string
  gr_branch :: string
  gr_failed_runs :: int
  gr_dependabot :: int
  gr_code_scanning :: int

record github_data =
  gd_repos :: "github_repo list"
  gd_unavailable :: "string list"
  gd_count :: int
  gd_owner :: string
  gd_token_days :: "int option"

record ha_update =
  hu_name :: string
  hu_installed :: string
  hu_latest :: string

record home_assistant_data =
  ha_version :: string
  ha_core_state :: string
  ha_entities :: int
  ha_unavailable :: int
  ha_raw_unavailable :: int
  ha_clusters :: "string list"
  ha_updates :: "ha_update list"

record update_message =
  um_title :: string
  um_message :: string
  um_time :: any

record updates_data =
  ud_count :: int
  ud_messages :: "update_message list"

record ssh_facts_data =
  sf_hosts :: "string list"
  sf_errors :: "(string, string) gmap"
  sf_payloads :: "(string, (string, any) gmap) gmap"

datatype collector_data =
    DHostMetrics host_metrics
  | DContainers containers_data
  | DKuma kuma_data
  | DGithub github_data
  | DHomeAssistant home_assistant_data
  | DUpdates updates_data
  | DSSHFacts ssh_facts_data
  | DOther any \<comment> \<open>the data of a collector that nothing reads but the JSON encoder\<close>

type_synonym report_facts = "collector_data facts"

definition facts_section :: "(string, any) gmap \<Rightarrow> string \<Rightarrow> (string, any) gmap option" where
  "facts_section payload name =
     (case as_map (mget payload ''sections'') of None \<Rightarrow> None
      | Some sections \<Rightarrow>
          (case as_map (mget sections name) of None \<Rightarrow> None
           | Some section \<Rightarrow>
               if as_str (mget section ''status'') \<noteq> ''ok'' then None
               else as_map (mget section ''data'')))"

definition collector_data_of :: "report_facts \<Rightarrow> string \<Rightarrow> collector_data option" where
  "collector_data_of facts name = Option.bind (mget (f_collectors facts) name) c_data"

section \<open>Hosts\<close>

definition boring_mounts :: "string list" where
  "boring_mounts = [''/boot/efi'', ''/efi'', ''/dev/shm'', ''/run'', ''/var/lib/docker/overlay2'']"

definition interesting_used_percent :: f64 where "interesting_used_percent = f_num 50"
definition token_warn_days :: int where "token_warn_days = 30"

definition no_metrics :: host_metrics where
  "no_metrics = \<lparr>hm_filesystems = [], hm_memory = [], hm_load = [], hm_uptime = [], hm_age = []\<rparr>"

definition host_metrics_data :: "report_facts \<Rightarrow> host_metrics" where
  "host_metrics_data facts =
     (case collector_data_of facts ''host_metrics'' of Some (DHostMetrics d) \<Rightarrow> d | _ \<Rightarrow> no_metrics)"

definition humanize_uptime :: "int option \<Rightarrow> string" where
  "humanize_uptime uptime =
     (case uptime of None \<Rightarrow> ''?''
      | Some seconds \<Rightarrow>
          let days = go_div seconds 86400
          in if 1 \<le> days then int_str days @ ''d'' else int_str (go_div seconds 3600) @ ''h'')"

record state_filesystem =
  sfs_mountpoint :: string
  sfs_used_percent :: f64

record state_host =
  sh_name :: string
  sh_memory :: "f64 option"
  sh_load :: "f64 option"
  sh_uptime :: string
  sh_filesystems :: "state_filesystem list"

definition add_name :: "string \<Rightarrow> string list \<Rightarrow> string list" where
  "add_name name order = (if name \<in> set order then order else order @ [name])"

definition boring :: "filesystem_row \<Rightarrow> bool" where
  "boring fs \<longleftrightarrow> fr_mountpoint fs = [] \<or> fr_mountpoint fs \<in> set boring_mounts"

definition host_names :: "host_metrics \<Rightarrow> string list" where
  "host_names metrics =
     (let names = map mr_instance (hm_memory metrics) @ map lr_instance (hm_load metrics) @
                  map ur_instance (hm_uptime metrics) @
                  map fr_instance (filter (\<lambda>fs. \<not> boring fs) (hm_filesystems metrics))
      in sort (fold add_name names []))"

definition index_by :: "('r \<Rightarrow> string) \<Rightarrow> ('r \<Rightarrow> 'v) \<Rightarrow> 'r list \<Rightarrow> (string, 'v) gmap" where
  \<comment> \<open>the loops \<^verbatim>\<open>for _, m := range rows { index[m.Instance] = m.Value }\<close>\<close>
  "index_by instance_of value_of rows = fold (\<lambda>r. mput (instance_of r) (value_of r)) rows []"

definition host_filesystems :: "host_metrics \<Rightarrow> string \<Rightarrow> state_filesystem list" where
  \<comment> \<open>the entry of the map \<^verbatim>\<open>filesystems\<close>, in the order of appending\<close>
  "host_filesystems metrics name =
     map (\<lambda>fs. \<lparr>sfs_mountpoint = fr_mountpoint fs, sfs_used_percent = fr_used_percent fs\<rparr>)
       (filter (\<lambda>fs. \<not> boring fs \<and> fr_instance fs = name) (hm_filesystems metrics))"

definition worst_first :: "state_filesystem list \<Rightarrow> state_filesystem list" where
  "worst_first = slice_stable (\<lambda>a b. f_gt (sfs_used_percent a) (sfs_used_percent b))"

definition shown_filesystems :: "state_filesystem list \<Rightarrow> state_filesystem list" where
  "shown_filesystems filesystems =
     (let mounts = worst_first filesystems;
          notable = filter (\<lambda>m. f_ge (sfs_used_percent m) interesting_used_percent) mounts
      in take 4 (if notable = [] then take 1 mounts else notable))"

definition state_host_of :: "host_metrics \<Rightarrow> string \<Rightarrow> state_host" where
  "state_host_of metrics name =
     \<lparr>sh_name = name,
      sh_memory = mget (index_by mr_instance mr_used_percent (hm_memory metrics)) name,
      sh_load = mget (index_by lr_instance lr_load15 (hm_load metrics)) name,
      sh_uptime = humanize_uptime (mget (index_by ur_instance ur_uptime (hm_uptime metrics)) name),
      sh_filesystems = shown_filesystems (host_filesystems metrics name)\<rparr>"

definition state_hosts :: "report_facts \<Rightarrow> state_host list" where
  "state_hosts facts =
     (let metrics = host_metrics_data facts in map (state_host_of metrics) (host_names metrics))"

section \<open>Counts\<close>

definition counted_as :: "report_facts \<Rightarrow> string \<Rightarrow> (collector_data \<Rightarrow> int option) \<Rightarrow> string \<Rightarrow> (string \<times> int) list" where
  "counted_as facts collector value_of label =
     (case Option.bind (collector_data_of facts collector) value_of of None \<Rightarrow> [] | Some v \<Rightarrow> [(label, v)])"

definition state_counts :: "report_facts \<Rightarrow> (string \<times> int) list" where
  "state_counts facts =
     counted_as facts ''containers'' (\<lambda>d. case d of DContainers c \<Rightarrow> Some (cd_current c) | _ \<Rightarrow> None) ''Containers'' @
     counted_as facts ''uptime_kuma'' (\<lambda>d. case d of DKuma k \<Rightarrow> Some (kd_count k) | _ \<Rightarrow> None) ''Monitors'' @
     counted_as facts ''github'' (\<lambda>d. case d of DGithub g \<Rightarrow> Some (gd_count g) | _ \<Rightarrow> None) ''Repos'' @
     counted_as facts ''homeassistant''
       (\<lambda>d. case d of DHomeAssistant h \<Rightarrow> Some (ha_entities h) | _ \<Rightarrow> None) ''HA entities''"

section \<open>Backup targets\<close>

record backup_target_state =
  bt_host :: string
  bt_name :: string
  bt_kind :: string
  bt_used_percent :: "f64 option"
  bt_free_gib :: "int option"
  bt_total_gib :: "int option"
  bt_note :: string

definition ssh_facts_payloads :: "report_facts \<Rightarrow> (string, (string, any) gmap) gmap" where
  "ssh_facts_payloads facts =
     (case collector_data_of facts ''ssh_facts'' of Some (DSSHFacts d) \<Rightarrow> sf_payloads d | _ \<Rightarrow> [])"

definition gib :: f64 where "gib = f_num (1024 * 1024 * 1024)"

definition whole_gib :: "any \<Rightarrow> int option" where
  "whole_gib v =
     (case numeric v of None \<Rightarrow> None
      | Some bytes \<Rightarrow> if f_eq bytes f_zero then None else Some (f_to_int64 (f_div bytes gib)))"

definition target_note :: "(string, any) gmap \<Rightarrow> string" where
  "target_note target =
     (if \<not> truthy (any_at target ''quota_supported'') then ''no quota API''
      else if truthy (any_at target ''error'') then ''unreachable'' else [])"

definition target_entry :: "string \<Rightarrow> any \<Rightarrow> backup_target_state list" where
  \<comment> \<open>one round: none or one entry is appended\<close>
  "target_entry host raw =
     (case raw of
        VMap target \<Rightarrow>
          [\<lparr>bt_host = host, bt_name = as_str (mget target ''name''), bt_kind = as_str (mget target ''kind''),
            bt_used_percent = numeric (any_at target ''used_percent''),
            bt_free_gib = whole_gib (any_at target ''free_bytes''),
            bt_total_gib = whole_gib (any_at target ''total_bytes''),
            bt_note = target_note target\<rparr>]
      | _ \<Rightarrow> [])"

definition host_targets :: "(string, (string, any) gmap) gmap \<Rightarrow> string \<Rightarrow> backup_target_state list" where
  "host_targets payloads host =
     (case Option.bind (mget payloads host) (\<lambda>p. facts_section p ''backup_targets'') of None \<Rightarrow> []
      | Some data \<Rightarrow> concat (map (target_entry host) (as_list (mget data ''targets''))))"

definition wd_target_id :: string where "wd_target_id = ''backup_target_usage.nas.wd-cloud''"

definition apply_wd_cloud_derived_usage ::
  "backup_target_state list \<Rightarrow> observation list \<Rightarrow> backup_target_state list" where
  "apply_wd_cloud_derived_usage targets observations =
     (case find (\<lambda>obs. o_id obs = wd_target_id) observations of None \<Rightarrow> targets
      | Some derived \<Rightarrow>
          (case numeric (o_value derived) of None \<Rightarrow> targets
           | Some v \<Rightarrow>
               map (\<lambda>t. if bt_name t = ''wd-cloud'' \<and> bt_used_percent t = None
                        then t\<lparr>bt_used_percent := Some v, bt_note := []\<rparr> else t) targets))"

definition state_backup_targets :: "report_facts \<Rightarrow> backup_target_state list" where
  "state_backup_targets facts =
     (let payloads = ssh_facts_payloads facts;
          out = concat (map (host_targets payloads) (sorted_keys payloads))
      in apply_wd_cloud_derived_usage out (f_observations facts))"

section \<open>Notes\<close>

definition number_or_zero :: "any \<Rightarrow> f64" where
  "number_or_zero v = (case numeric v of Some x \<Rightarrow> x | None \<Rightarrow> f_zero)"

definition token_note :: "report_facts \<Rightarrow> string list" where
  "token_note facts =
     (case collector_data_of facts ''github'' of
        Some (DGithub d) \<Rightarrow>
          (case gd_token_days d of None \<Rightarrow> []
           | Some n \<Rightarrow> if n \<le> token_warn_days then [''GitHub token expires in '' @ int_str n @ '' days''] else [])
      | _ \<Rightarrow> [])"

definition crowdsec_note :: "(string, (string, any) gmap) gmap \<Rightarrow> string \<Rightarrow> string list" where
  "crowdsec_note payloads host =
     (case Option.bind (mget payloads host) (\<lambda>p. facts_section p ''crowdsec'') of None \<Rightarrow> []
      | Some data \<Rightarrow>
          (case as_map (mget data ''metrics'') of None \<Rightarrow> []
           | Some metrics \<Rightarrow>
               if metrics = [] then [] else
               let value = (\<lambda>k. number_or_zero (any_at metrics k))
               in [''CrowdSec on '' @ host @ '': '' @ format_thousands (value ''active_decisions'') @
                   '' active decisions, '' @ format_thousands (value ''dropped_packets'') @
                   '' packets dropped ('' @ fmt_fixed 1 (f_div (value ''dropped_bytes'') gib) @ '' GiB), '' @
                   fmt_fixed 1 (value ''unparsed_percent'') @ ''% of log lines unparsed'']))"

definition dmarc_notes :: "observation list \<Rightarrow> string list" where
  "dmarc_notes observations =
     map o_message
       (filter (\<lambda>obs. (o_kind obs = ''dmarc_fail_count'' \<or> o_kind obs = ''dmarc_report_stale'') \<and>
                      \<not> (o_severity obs = ''warn'' \<or> o_severity obs = ''crit'')) observations)"

definition home_assistant_notes :: "report_facts \<Rightarrow> string list" where
  "home_assistant_notes facts =
     (case collector_data_of facts ''homeassistant'' of
        Some (DHomeAssistant d) \<Rightarrow>
          (if ha_version d = [] then [] else [''Home Assistant '' @ ha_version d]) @
          map (\<lambda>u. ''Update available: '' @ hu_name u @ '' '' @ hu_installed u @ '' '' @ arrow_r @ '' '' @ hu_latest u)
            (ha_updates d)
      | _ \<Rightarrow> [])"

definition state_notes :: "report_facts \<Rightarrow> string list" where
  "state_notes facts =
     (let payloads = ssh_facts_payloads facts
      in token_note facts @ concat (map (crowdsec_note payloads) (sorted_keys payloads)) @
         dmarc_notes (f_observations facts) @ home_assistant_notes facts)"

section \<open>Lemmas\<close>

lemma index_by_dom: "dom (mget (index_by f g rows)) = f ` set rows"
proof -
  have "dom (mget (fold (\<lambda>r. mput (f r) (g r)) rows m)) = dom (mget m) \<union> f ` set rows" for m
    by (induction rows arbitrary: m) auto
  then show ?thesis by (simp add: index_by_def)
qed

lemma set_fold_add_name [simp]: "set (fold add_name ns acc) = set ns \<union> set acc"
  by (induction ns arbitrary: acc) (auto simp: add_name_def)

lemma distinct_fold_add_name: "distinct acc \<Longrightarrow> distinct (fold add_name ns acc)"
  by (induction ns arbitrary: acc) (auto simp: add_name_def)

text \<open>The hosts something is known of.\<close>

definition known_hosts :: "host_metrics \<Rightarrow> string set" where
  "known_hosts m =
     mr_instance ` set (hm_memory m) \<union> lr_instance ` set (hm_load m) \<union> ur_instance ` set (hm_uptime m) \<union>
     fr_instance ` {fs \<in> set (hm_filesystems m). \<not> boring fs}"

lemma host_names_eq: "host_names m = sorted_list_of_set (known_hosts m)"
proof -
  have "set (host_names m) = known_hosts m"
    by (auto simp: host_names_def known_hosts_def Let_def)
  moreover have "distinct (host_names m)" "sorted (host_names m)"
    by (simp_all add: host_names_def Let_def distinct_fold_add_name)
  ultimately show ?thesis by (metis sorted_list_of_set.idem_if_sorted_distinct)
qed

lemma map_name_state_hosts:
  "map sh_name (state_hosts facts) = sorted_list_of_set (known_hosts (host_metrics_data facts))"
  by (simp add: state_hosts_def state_host_of_def Let_def comp_def host_names_eq)

lemma in_state_hosts:
  "h \<in> set (state_hosts facts) \<Longrightarrow>
     sh_filesystems h = shown_filesystems (host_filesystems (host_metrics_data facts) (sh_name h))"
  by (auto simp: state_hosts_def state_host_of_def Let_def)

lemma sorted_wrt_take_filter:
  "sorted_wrt P xs \<Longrightarrow> sorted_wrt P (take n (if filter Q xs = [] then take 1 xs else filter Q xs))"
  by (auto simp: sorted_wrt_take sorted_wrt_filter)

text \<open>What is shown of the filesystems of a host: the worst ones.\<close>

lemma shown_sorted:
  assumes "\<forall>m \<in> set ms. sfs_used_percent m \<noteq> NaN"
  shows "sorted_wrt (\<lambda>a b. \<not> f_lt (sfs_used_percent a) (sfs_used_percent b)) (shown_filesystems ms)"
  using assms unfolding shown_filesystems_def worst_first_def Let_def
  by (intro sorted_wrt_take_filter desc.slice_stable_sorted) (simp add: list_all_iff)

lemma set_shown: "set (shown_filesystems ms) \<subseteq> set ms"
  by (auto simp: shown_filesystems_def worst_first_def Let_def dest!: in_set_takeD)

lemma shown_eq_Nil [simp]: "shown_filesystems ms = [] \<longleftrightarrow> ms = []"
  by (auto simp: shown_filesystems_def worst_first_def Let_def)

lemma length_shown: "length (shown_filesystems ms) \<le> 4"
  by (simp add: shown_filesystems_def Let_def)

lemma sorted_wrt_take_least:
  assumes "sorted_wrt P xs" "s \<in> set (take n xs)" "m \<in> set xs" "m \<notin> set (take n xs)"
  shows "P s m"
proof -
  from assms(3,4) have "m \<in> set (drop n xs)" by (metis append_take_drop_id Un_iff set_append)
  with assms(1,2) sorted_wrt_append [of P "take n xs" "drop n xs"] show ?thesis by simp
qed

lemma shown_worst:
  assumes nan: "\<forall>m \<in> set ms. sfs_used_percent m \<noteq> NaN"
    and m: "m \<in> set ms" "m \<notin> set (shown_filesystems ms)" and s: "s \<in> set (shown_filesystems ms)"
  shows "\<not> f_lt (sfs_used_percent s) (sfs_used_percent m)"
proof -
  let ?ge = "\<lambda>a b. \<not> f_lt (sfs_used_percent a) (sfs_used_percent b)"
  let ?N = "filter (\<lambda>m. f_ge (sfs_used_percent m) interesting_used_percent) (worst_first ms)"
  have srt: "sorted_wrt ?ge (worst_first ms)"
    using nan unfolding worst_first_def by (intro desc.slice_stable_sorted) (simp add: list_all_iff)
  have mem: "m \<in> set (worst_first ms)" using m(1) by (simp add: worst_first_def)
  show ?thesis
  proof (cases "?N = []")
    case True
    then have sh: "shown_filesystems ms = take 1 (worst_first ms)"
      by (simp add: shown_filesystems_def Let_def)
    show ?thesis using sorted_wrt_take_least [OF srt, of s 1 m] s m(2) mem unfolding sh by blast
  next
    case False
    then have sh: "shown_filesystems ms = take 4 ?N" by (simp add: shown_filesystems_def Let_def)
    have sN: "s \<in> set ?N" using s unfolding sh by (rule in_set_takeD)
    show ?thesis
    proof (cases "m \<in> set ?N")
      case True
      show ?thesis
        using sorted_wrt_take_least [OF sorted_wrt_filter [OF srt], of s 4 _ m] s m(2) True unfolding sh by blast
    next
      case False
      then have "\<not> f_ge (sfs_used_percent m) interesting_used_percent" using mem by simp
      moreover have "f_ge (sfs_used_percent s) interesting_used_percent" using sN by simp
      ultimately show ?thesis by (metis f_le_lt_trans f_le_def)
    qed
  qed
qed

section \<open>Properties\<close>

definition sample_facts :: "(string \<times> collector_data) list \<Rightarrow> observation list \<Rightarrow> report_facts" where
  "sample_facts cs obs =
     \<lparr>f_schema = 1, f_run = \<lparr>ri_id = ''2026-07-20T06:00:00Z'', ri_started_at = ''2026-07-20T06:00:00Z'', ri_host = ''nas''\<rparr>,
      f_collectors = map (\<lambda>(n, d). (n, (new_collector_result n)\<lparr>c_data := Some d\<rparr>)) cs,
      f_observations = obs, f_diff = empty_diff,
      f_summary = \<lparr>su_crit = 0, su_warn = 0, su_info = 0, su_failed = [], su_pruned = 0\<rparr>,
      f_llm_status = [], f_delivery_errors = []\<rparr>"

lemma mget_sample [simp]:
  "mget (f_collectors (sample_facts cs obs)) n =
     map_option (\<lambda>d. (new_collector_result n)\<lparr>c_data := Some d\<rparr>) (mget cs n)"
  "f_observations (sample_facts cs obs) = obs"
proof -
  show "mget (f_collectors (sample_facts cs obs)) n =
     map_option (\<lambda>d. (new_collector_result n)\<lparr>c_data := Some d\<rparr>) (mget cs n)"
    unfolding sample_facts_def by (induction cs) (auto split: prod.splits)
qed (simp add: sample_facts_def)

text \<open>
   The hosts of the report are exactly the hosts some metric is known of, each once and in
  alphabetical order.  As long as no percentage is NaN, the filesystems shown of a host are at most
  four of its own, at least one when it has one worth reporting, worst first, and no filesystem
  that is left out is fuller than one that is shown.
\<close>

theorem worst_filesystems_shown:
  assumes "\<forall>fs \<in> set (hm_filesystems (host_metrics_data facts)). fr_used_percent fs \<noteq> NaN"
  shows "map sh_name (state_hosts facts) = sorted_list_of_set (known_hosts (host_metrics_data facts)) \<and>
    (\<forall>h \<in> set (state_hosts facts).
       let own = host_filesystems (host_metrics_data facts) (sh_name h); shown = sh_filesystems h
       in length shown \<le> 4 \<and> set shown \<subseteq> set own \<and> (shown = [] \<longleftrightarrow> own = []) \<and>
          sorted_wrt (\<lambda>a b. \<not> f_lt (sfs_used_percent a) (sfs_used_percent b)) shown \<and>
          (\<forall>m \<in> set own. m \<notin> set shown \<longrightarrow>
             (\<forall>s \<in> set shown. \<not> f_lt (sfs_used_percent s) (sfs_used_percent m))))"
proof -
  have nan: "\<forall>m \<in> set (host_filesystems (host_metrics_data facts) n). sfs_used_percent m \<noteq> NaN" for n
    using assms by (auto simp: host_filesystems_def)
  show ?thesis
    using set_shown by (auto simp: map_name_state_hosts Let_def in_state_hosts length_shown shown_sorted [OF nan]
        dest: shown_worst [OF nan])
qed

theorem worst_filesystems_shown_witness:
  "let m = no_metrics\<lparr>hm_filesystems := [\<lparr>fr_instance = ''nas'', fr_mountpoint = ''/'', fr_used_percent = f_num 20\<rparr>,
                                         \<lparr>fr_instance = ''nas'', fr_mountpoint = ''/mnt'', fr_used_percent = f_num 91\<rparr>]\<rparr>;
       facts = sample_facts [(''host_metrics'', DHostMetrics m)] []
   in map sh_name (state_hosts facts) = [''nas'']"
proof -
  define m where "m = no_metrics\<lparr>hm_filesystems := [\<lparr>fr_instance = ''nas'', fr_mountpoint = ''/'', fr_used_percent = f_num 20\<rparr>,
                                         \<lparr>fr_instance = ''nas'', fr_mountpoint = ''/mnt'', fr_used_percent = f_num 91\<rparr>]\<rparr>"
  define facts where "facts = sample_facts [(''host_metrics'', DHostMetrics m)] []"
  have d: "host_metrics_data facts = m"
    by (simp add: host_metrics_data_def collector_data_of_def facts_def)
  have "map sh_name (state_hosts facts) = sorted_list_of_set (known_hosts (host_metrics_data facts))"
    by (rule conjunct1 [OF worst_filesystems_shown]) (simp add: d m_def f_num_def)
  moreover have "known_hosts m = {''nas''}"
    unfolding known_hosts_def set_filter [symmetric]
    by (simp add: m_def no_metrics_def boring_def boring_mounts_def del: set_filter)
  ultimately have "map sh_name (state_hosts facts) = [''nas'']" by (simp add: d)
  then show ?thesis by (simp only: Let_def facts_def m_def)
qed

text \<open>
   A remote the backup host cannot reach comes without any quota: its facts hold a name, a
  kind and an error.  Such a target is noted as one without a quota API, never as unreachable; and
  the one named \<open>wd-cloud\<close> loses even this note, and shows a percentage, when the usage of its disk
  is known from elsewhere.
\<close>

theorem unreachable_target_misreported:
  assumes "any_at target ''quota_supported'' = VNil" "any_at target ''used_percent'' = VNil"
    and "truthy (any_at target ''error'')"
  shows "map bt_note (target_entry host (VMap target)) = [''no quota API''] \<and>
    (\<forall>observations derived v. find (\<lambda>obs. o_id obs = wd_target_id) observations = Some derived \<longrightarrow>
       numeric (o_value derived) = Some v \<longrightarrow> as_str (mget target ''name'') = ''wd-cloud'' \<longrightarrow>
       map (\<lambda>t. (bt_used_percent t, bt_note t))
         (apply_wd_cloud_derived_usage (target_entry host (VMap target)) observations) = [(Some v, [])])"
  using assms by (simp add: target_entry_def target_note_def apply_wd_cloud_derived_usage_def)

theorem unreachable_target_misreported_witness:
  "map bt_note (target_entry ''nas'' (VMap [(''name'', VStr ''wd-cloud''), (''kind'', VStr ''remote''),
     (''error'', VStr ''timeout'')])) = [''no quota API'']"
proof -
  have "truthy (VStr ''timeout'')" by code_simp
  then show ?thesis
    by (intro conjunct1 [OF unreachable_target_misreported]) simp_all
qed

end
