(* ===== verification/Go_Duration.thy ===== *)
theory Go_Duration
  imports Go_Time
begin

text \<open>
  \<^verbatim>\<open>Duration.Hours\<close> and \<^verbatim>\<open>Duration.Minutes\<close> are floats: the whole units plus a rounded
  fraction.  Here: the error of rounding to binary64, and that truncating such a float gives the
  whole units, so that a label made of the truncated floats is exact.
\<close>

section \<open>The error of rounding\<close>

lemma pow2_powi: "pow2 e = 2 powi e"
  by (simp add: pow2_def power_int_def inverse_eq_divide power_one_over)

lemma pow2_pos [simp]: "0 < pow2 e"
  by (simp add: pow2_powi)

lemma pow2_nonzero [simp]: "pow2 e \<noteq> 0" "0 \<le> pow2 e"
  by (simp_all add: pow2_powi)

lemma pow2_add: "pow2 (a + b) = pow2 a * pow2 b"
  by (simp add: pow2_powi power_int_add)

lemma pow2_less: "pow2 a < pow2 b \<longleftrightarrow> a < b"
proof
  assume "a < b" then show "pow2 a < pow2 b" by (simp add: pow2_powi power_int_strict_increasing)
next
  assume l: "pow2 a < pow2 b"
  show "a < b"
  proof (rule ccontr)
    assume "\<not> a < b"
    then have "pow2 b \<le> pow2 a" by (simp add: pow2_powi power_int_increasing)
    with l show False by simp
  qed
qed


lemma bit_len_range:
  assumes "0 < n"
  shows "0 < bit_len n" "2 ^ nat (bit_len n - 1) \<le> n" "n < 2 ^ nat (bit_len n)"
proof -
  have "0 < n \<Longrightarrow> 0 < bit_len n \<and> 2 ^ nat (bit_len n - 1) \<le> n \<and> n < 2 ^ nat (bit_len n)"
  proof (induction n rule: bit_len.induct)
    case (1 n)
    show ?case
    proof (cases "n = 1")
      case True
      then show ?thesis by (simp add: bit_len.simps [of 1] bit_len.simps [of 0])
    next
      case False
      with 1 have IH: "0 < bit_len (n div 2)" "2 ^ nat (bit_len (n div 2) - 1) \<le> n div 2" "n div 2 < 2 ^ nat (bit_len (n div 2))"
        by auto
      define k where "k = nat (bit_len (n div 2) - 1)"
      have b: "bit_len (n div 2) = int k + 1" using IH(1) by (simp add: k_def)
      have e: "bit_len n = int k + 2" using 1(2) b by (subst bit_len.simps) simp
      define K :: int where "K = 2 ^ k"
      have "K \<le> n div 2" "n div 2 < 2 * K"
        using IH(2,3) by (simp_all add: b K_def nat_add_distrib)
      then have "2 * K \<le> n \<and> n < 4 * K" by presburger
      then show ?thesis by (simp add: e K_def nat_add_distrib)
    qed
  qed
  with assms show "0 < bit_len n" "2 ^ nat (bit_len n - 1) \<le> n" "n < 2 ^ nat (bit_len n)" by blast+
qed

lemma bit_len_pow2:
  assumes "0 < n"
  shows "pow2 (bit_len n - 1) \<le> of_int n" "of_int n < pow2 (bit_len n)"
proof -
  note r = bit_len_range [OF assms]
  have "of_int (2 ^ nat (bit_len n - 1)) \<le> (of_int n :: rat)" "of_int n < (of_int (2 ^ nat (bit_len n)) :: rat)"
    using r(2,3) by (simp_all only: of_int_le_iff of_int_less_iff)
  with r(1) show "pow2 (bit_len n - 1) \<le> of_int n" "of_int n < pow2 (bit_len n)"
    by (simp_all add: pow2_def)
qed

lemma log2_floor_le:
  assumes "0 < r"
  shows "pow2 (log2_floor r) \<le> r"
proof -
  obtain n d where q: "quotient_of r = (n, d)" by (cases "quotient_of r")
  then have d: "0 < d" and r: "r = of_int n / of_int d"
    by (auto simp: quotient_of_denom_pos quotient_of_div)
  with assms have n: "0 < n" by (simp add: zero_less_divide_iff)
  have "pow2 (bit_len n - bit_len d - 1) = pow2 (bit_len n - 1) / pow2 (bit_len d)"
    by (simp add: pow2_powi power_int_diff)
  also have "\<dots> \<le> of_int n / pow2 (bit_len d)"
    using bit_len_pow2(1) [OF n] by (intro divide_right_mono) (simp_all add: less_imp_le)
  also have "\<dots> \<le> of_int n / of_int d"
    using bit_len_pow2(2) [OF d] d n by (intro divide_left_mono) (auto intro: mult_pos_pos)
  finally have "pow2 (bit_len n - bit_len d - 1) \<le> r" unfolding r .
  then show ?thesis by (simp add: log2_floor_def q Let_def)
qed

lemma log2_floor_less: "0 < r \<Longrightarrow> r < pow2 k \<Longrightarrow> log2_floor r < k"
  using log2_floor_le [of r] by (simp flip: pow2_less)

lemma round_half_even_error: "\<bar>of_int (round_half_even x) - x\<bar> \<le> 1 / 2"
proof -
  have "of_int \<lfloor>x\<rfloor> \<le> x" "x < of_int \<lfloor>x\<rfloor> + 1" by linarith+
  then show ?thesis by (auto simp: round_half_even_def Let_def abs_le_iff algebra_simps)
qed

text \<open>The error of rounding a number below \<open>2 ^ k\<close>.\<close>

lemma round_bin_error:
  assumes "0 \<le> r" "r < pow2 k" "emin \<le> k - int p"
  shows "\<bar>round_bin p emin r - r\<bar> \<le> pow2 (k - int p) / 2"
proof (cases "r = 0")
  case False
  define q where "q = max (log2_floor r - int p + 1) emin"
  have "q \<le> k - int p" using log2_floor_less [of r k] assms False by (simp add: q_def)
  then have q: "pow2 q \<le> pow2 (k - int p)" by (meson not_less pow2_less)
  have "round_bin p emin r - r = (of_int (round_half_even (r / pow2 q)) - r / pow2 q) * pow2 q"
    using False by (simp add: round_bin_def q_def Let_def algebra_simps)
  then have "\<bar>round_bin p emin r - r\<bar> = \<bar>of_int (round_half_even (r / pow2 q)) - r / pow2 q\<bar> * pow2 q"
    by (simp only: abs_mult abs_of_pos pow2_pos)
  also have "\<dots> \<le> 1 / 2 * pow2 q"
    by (rule mult_right_mono [OF round_half_even_error]) (simp add: less_imp_le)
  finally have "\<bar>round_bin p emin r - r\<bar> \<le> 1 / 2 * pow2 q" .
  with q show ?thesis by simp
qed (simp add: round_bin_def)

text \<open>Whole units and the float of a duration: truncating it gives the whole units.\<close>

lemma pow2_num: "pow2 1 = 2" "pow2 5 = 32" "pow2 (- 53) = 1 / 2 ^ 53" "pow2 (- 48) = 1 / 2 ^ 48" "pow2 0 = 1"
  by (simp_all add: pow2_def)

lemma mk_f64_small:
  assumes "0 \<le> r" "r < 2 ^ 20"
  shows "mk_f64 s r = Fin s (round_bin 53 (-1074) r)"
proof -
  let ?m = "round_bin 53 (-1074) r"
  have "\<bar>?m - r\<bar> \<le> pow2 (20 - int 53) / 2"
    by (rule round_bin_error) (use assms in \<open>simp_all add: pow2_def\<close>)
  then have "\<bar>?m - r\<bar> \<le> 1" by (simp add: pow2_def)
  with assms have m: "?m < pow2 21" by (simp add: pow2_def abs_le_iff)
  have "0 \<le> ?m"
    using assms(1) by (auto simp: round_bin_def Let_def round_half_even_def zero_le_mult_iff less_imp_le)
  then have "log2_floor ?m < 1024"
  proof (cases "?m = 0")
    case True
    then show ?thesis by (simp add: log2_floor_def Let_def bit_len.simps pow2_def)
  next
    case False
    with \<open>0 \<le> ?m\<close> log2_floor_less [OF _ m] show ?thesis by simp
  qed
  then show ?thesis by (simp add: mk_f64_def Let_def)
qed

lemma f_of_int_small: "0 \<le> i \<Longrightarrow> i < 2 ^ 53 \<Longrightarrow> f_of_int i = Fin False (of_int i)"
  using mk_f64_nat [of "nat i" False] by (simp add: f_of_int_def f_of_rat_def)

lemma trunc_units:
  assumes "0 < u" "0 \<le> d" "d < 2 ^ k * u" "u * 2 ^ (k + 1) \<le> 2 ^ 50" "k \<le> 18"
  shows "f_to_int64 (f_add (f_of_int (go_div d u)) (f_div (f_of_int (go_mod d u)) (f_num (of_int u)))) = d div u"
proof -
  define q x where "q = d div u" and "x = d mod u"
  define K :: rat where "K = 2 ^ k"
  have q: "go_div d u = q" "go_mod d u = x"
    using assms(1,2) by (auto simp: go_div_def go_mod_def q_def x_def minus_mult_div_eq_mod sgn_if)
  have b: "0 \<le> q" "0 \<le> x" "x < u"
    using assms by (simp_all add: q_def x_def pos_imp_zdiv_nonneg_iff)
  have qk: "q < 2 ^ k"
  proof -
    have "q * u + x = d" by (simp add: q_def x_def)
    with b assms(3) have "q * u < 2 ^ k * u" by linarith
    with assms(1) show ?thesis by (simp only: mult_less_cancel_right_pos)
  qed
  have k1: "1 \<le> K" by (simp add: K_def)
  have "u < 2 ^ 53"
  proof -
    have "u * 1 \<le> u * 2 ^ (k + 1)"
      using assms(1) one_le_power [of "2::int" "k + 1"] by (intro mult_left_mono) simp_all
    with assms(4) show ?thesis by simp
  qed
  moreover have "(2::int) ^ k < 2 ^ 53" using assms(5) by (intro power_strict_increasing) simp_all
  ultimately have small: "f_of_int q = Fin False (of_int q)" "f_of_int x = Fin False (of_int x)"
    using b qk by (auto intro!: f_of_int_small)
  have un: "f_num (of_int u) = Fin False (of_int u)" using assms(1) by (simp add: f_num_def)
  define v :: rat where "v = of_int x / of_int u"
  have v: "0 \<le> v" "v < 1" using b assms(1) by (simp_all add: v_def)
  define m where "m = round_bin 53 (-1074) v"
  have m: "\<bar>m - v\<bar> \<le> 1 / 2 ^ 53"
    using round_bin_error [of v 1 "-1074" 53] v by (simp add: m_def pow2_def)
  have m0: "0 \<le> m"
    using v(1) by (auto simp: m_def round_bin_def Let_def round_half_even_def zero_le_mult_iff less_imp_le)
  have dv: "f_div (f_of_int x) (f_num (of_int u)) = Fin False m"
  proof -
    have "mk_f64 False v = Fin False m" using mk_f64_small [of v False] v by (simp add: m_def)
    then show ?thesis using assms(1) by (simp add: small un flip: v_def)
  qed
  have floor: "f_to_int64 (Fin False w) = q" if "of_int q \<le> w" "w < of_int q + 1" for w
  proof -
    have "\<lfloor>w\<rfloor> = q" using that by (simp add: floor_eq_iff)
    moreover have "(2::int) ^ k < 2 ^ 63" using assms(5) by (intro power_strict_increasing) simp_all
    ultimately show ?thesis using b(1) qk by (simp add: Let_def)
  qed
  show ?thesis
  proof (cases "x = 0")
    case True
    then have m_0: "m = 0" by (simp add: m_def v_def round_bin_def)
    have "f_add (f_of_int q) (Fin False m) = Fin False (of_int q)"
    proof (cases "q = 0")
      case True
      then show ?thesis unfolding small(1) m_0 by simp
    next
      case False
      then have "f_add (Fin False (of_int q)) f_zero = f_of_int q" by (simp add: Let_def f_of_int_def)
      then show ?thesis by (simp add: small(1) m_0)
    qed
    then have "f_to_int64 (f_add (f_of_int q) (Fin False m)) = q"
      using floor [of "of_int q"] by (simp del: f_to_int64.simps)
    then show ?thesis unfolding q dv by (simp only: q_def)
  next
    case False
    with b have "1 \<le> x" "x \<le> u - 1" by simp_all
    then have "(1::rat) \<le> of_int x" "(of_int x :: rat) \<le> of_int u - 1" by linarith+
    then have v_lower: "1 / of_int u \<le> v" and v_upper: "v \<le> 1 - 1 / of_int u"
      using assms(1) by (simp_all add: v_def divide_right_mono field_simps)
    have uk: "(of_int u :: rat) * (K * 2) \<le> 2 ^ 50"
      using assms(4) by (simp add: K_def algebra_simps) (metis of_int_le_iff of_int_mult of_int_numeral of_int_power)
    then have gap: "4 * K / 2 ^ 52 < 1 / of_int u"
      using assms(1) by (simp add: field_simps)
    define r where "r = of_int q + m"
    have qK: "of_int q \<le> K - 1"
    proof -
      from qk have "of_int (q + 1) \<le> (of_int (2 ^ k) :: rat)" by (simp only: of_int_le_iff)
      then show ?thesis by (simp add: K_def)
    qed
    have p: "pow2 (int k + 1) = 2 * K" by (simp add: pow2_def K_def nat_add_distrib)
    define g :: rat where "g = 1 / of_int u"
    have m': "v - 1 / 2 ^ 53 \<le> m" "m \<le> v + 1 / 2 ^ 53" using m unfolding abs_le_iff by linarith+
    have v': "g \<le> v" "v \<le> 1 - g" and gap': "4 * K / 2 ^ 52 < g"
      using v_lower v_upper gap by (simp_all only: g_def)
    have q0: "(0::rat) \<le> of_int q" using b(1) by simp
    have r0: "0 < r" using m' v' gap' k1 q0 unfolding r_def by (simp add: field_simps)
    have r1: "r < 2 * K" using m' v' gap' qK k1 unfolding r_def by (simp add: field_simps)
    note r = r0 r1
    have "\<bar>round_bin 53 (-1074) r - r\<bar> \<le> pow2 (int k + 1 - int 53) / 2"
      by (rule round_bin_error) (use r p in simp_all)
    also have "pow2 (int k + 1 - int 53) / 2 = K / 2 ^ 53"
      using p pow2_add [of "int k + 1" "- 53"] pow2_num(3) by simp
    finally have w: "\<bar>round_bin 53 (-1074) r - r\<bar> \<le> K / 2 ^ 53" .
    have "mk_f64 False r = Fin False (round_bin 53 (-1074) r)"
    proof (rule mk_f64_small)
      have "K \<le> 2 ^ 18" unfolding K_def using assms(5) by (intro power_increasing) simp_all
      with r show "0 \<le> r" "r < 2 ^ 20" by simp_all
    qed
    then have "f_add (f_of_int q) (Fin False m) = Fin False (round_bin 53 (-1074) r)"
      using r(1) by (simp add: small(1) Let_def f_of_rat_def r_def)
    moreover have "f_to_int64 (Fin False (round_bin 53 (-1074) r)) = q"
    proof (rule floor)
      have "r - K / 2 ^ 53 \<le> round_bin 53 (-1074) r" "round_bin 53 (-1074) r \<le> r + K / 2 ^ 53"
        using w unfolding abs_le_iff by linarith+
      moreover define E e :: rat where "E = K / 2 ^ 53" and "e = 1 / 2 ^ 53"
      moreover have "e \<le> E" "8 * E < g" using k1 gap' by (simp_all add: E_def e_def)
      ultimately show "of_int q \<le> round_bin 53 (-1074) r" "round_bin 53 (-1074) r < of_int q + 1"
        using m' [folded e_def] v' m0 q0 unfolding r_def by linarith+
    qed
    ultimately have "f_to_int64 (f_add (f_of_int q) (Fin False m)) = q" by (simp only:)
    then show ?thesis unfolding q dv by (simp only: q_def)
  qed
qed

section \<open>Hours and minutes\<close>

definition minutes :: "int \<Rightarrow> f64" where
  \<comment> \<open>\<^verbatim>\<open>Duration.Minutes\<close>\<close>
  "minutes d =
     f_add (f_of_int (go_div d 60000000000))
       (f_div (f_of_int (go_mod d 60000000000)) (f_num 60000000000))"

lemma hours_trunc:
  assumes "0 \<le> d" "d \<le> 86400 * 10 ^ 9"
  shows "f_to_int64 (hours d) = d div 3600000000000"
  using trunc_units [of 3600000000000 d 5] assms by (simp add: hours_def)

lemma minutes_trunc:
  assumes "0 \<le> d" "d \<le> 86400 * 10 ^ 9"
  shows "f_to_int64 (minutes d) = d div 60000000000"
  using trunc_units [of 60000000000 d 11] assms by (simp add: minutes_def)

end
