(* ===== verification/HR_Page.thy ===== *)
theory HR_Page
  imports HR_State HR_Report Go_Duration
begin

text \<open>
  The values of the HTML part of the mail, \<^verbatim>\<open>src/tools/internal/healthreport/render_html.go\<close>:
  \<open>build_html_page_data\<close> is what the template is executed on.  The text of the template
  (\<^verbatim>\<open>report.html.tmpl\<close>) is not modelled; an error of executing it is the \<open>None\<close> of \<open>w_html\<close> in
  \<open>HR_Main\<close>.
\<close>

section \<open>Values\<close>

record html_tile =
  ht_label :: string
  ht_value :: int
  ht_color :: string

record html_trend_point =
  htp_date :: string
  htp_total :: int
  htp_warn_height :: int
  htp_crit_height :: int
  htp_has_warn :: bool
  htp_has_crit :: bool

record html_host_row =
  hhr_subject :: string
  hhr_crit :: nat
  hhr_warn :: nat
  hhr_crit_pct :: f64
  hhr_warn_pct :: f64
  hhr_crit_text :: string

record html_filesystem =
  hfs_mountpoint :: string
  hfs_used_percent :: f64
  hfs_bar_color :: string

record html_state_host =
  hsh_name :: string
  hsh_uptime :: string
  hsh_memory_label :: string
  hsh_load_label :: string
  hsh_filesystems :: "html_filesystem list"

record html_backup_target =
  hbt_name :: string
  hbt_has_percent :: bool
  hbt_used_percent :: f64
  hbt_bar_color :: string
  hbt_detail :: string

record html_obs_row =
  hor_severity :: string
  hor_severity_color :: string
  hor_message :: string
  hor_id :: string
  hor_show_age :: bool
  hor_first_seen_date :: string
  hor_url :: string

record html_section =
  hs_title :: string
  hs_rows :: "html_obs_row list"
  hs_badge_color :: string

record html_collector_failure =
  hcf_name :: string
  hcf_error :: string

record html_top_issue =
  hti_id :: string
  hti_why :: string
  hti_url :: string

record html_page_data =
  hp_headline :: string
  hp_run_id :: string
  hp_run_date :: string
  hp_run_host :: string
  hp_observation_count :: nat
  hp_tiles :: "html_tile list"
  hp_has_narrative :: bool
  hp_assessment :: string
  hp_trend :: "html_trend_point list"
  hp_by_host :: "html_host_row list"
  hp_top_issues :: "html_top_issue list"
  hp_suggested_actions :: "string list"
  hp_has_state_hosts :: bool
  hp_state_counts :: "(string \<times> int) list"
  hp_state_hosts :: "html_state_host list"
  hp_backup_targets :: "html_backup_target list"
  hp_notes :: "string list"
  hp_sections :: "html_section list"
  hp_resolved :: "string list"
  hp_collectors_failed :: "html_collector_failure list"
  hp_llm_status :: string
  hp_collector_count :: nat

definition evidence_url :: "observation option \<Rightarrow> string" where
  "evidence_url obs = (case obs of None \<Rightarrow> [] | Some o' \<Rightarrow> as_str (mget (o_evidence o') ''url''))"

definition severity_color :: "string \<Rightarrow> string" where
  "severity_color severity =
     (if severity = ''crit'' then ''#d03b3b'' else if severity = ''warn'' then ''#fab219'' else ''#0ca30c'')"

fun worst_color_from :: "string \<Rightarrow> html_obs_row list \<Rightarrow> string" where
  "worst_color_from wst [] = severity_color wst"
| "worst_color_from wst (r # rs) =
     (if hor_severity r = ''crit'' then severity_color ''crit''
      else worst_color_from (if hor_severity r = ''warn'' then ''warn'' else wst) rs)"

definition worst_severity_color :: "html_obs_row list \<Rightarrow> string" where
  "worst_severity_color rows = worst_color_from [] rows"

definition mount_bar_color :: "f64 \<Rightarrow> string" where
  "mount_bar_color percent =
     (if f_ge percent (f_num 85) then ''#d03b3b'' else if f_ge percent (f_num 70) then ''#fab219'' else ''#0ca30c'')"

definition target_bar_color :: "f64 \<Rightarrow> string" where
  "target_bar_color percent =
     (if f_ge percent (f_num 93) then ''#d03b3b'' else if f_ge percent (f_num 85) then ''#fab219'' else ''#0ca30c'')"

definition round1f :: "f64 \<Rightarrow> f64" where
  "round1f v = f_div (f_round (f_mul v (f_num 10))) (f_num 10)"

section \<open>Building the page\<close>

definition to_row :: "bool \<Rightarrow> observation \<Rightarrow> html_obs_row" where
  "to_row show_age obs =
     \<lparr>hor_severity = o_severity obs, hor_severity_color = severity_color (o_severity obs),
      hor_message = o_message obs, hor_id = o_id obs, hor_show_age = show_age,
      hor_first_seen_date = (case o_first_seen obs of VStr fs \<Rightarrow> cut_to 10 fs | _ \<Rightarrow> []),
      hor_url = evidence_url (Some obs)\<rparr>"

definition all_sections :: "'d facts \<Rightarrow> html_section list" where
  "all_sections facts =
     (let diff = f_diff facts; by_id = obs_by_id (f_observations facts);
          section_of = (\<lambda>title n rows. \<lparr>hs_title = title @ '' ('' @ num n @ '')'', hs_rows = rows, hs_badge_color = []\<rparr>)
      in [section_of ''New today'' (length (d_new diff)) (map (to_row False) (lookups by_id (d_new diff))),
          section_of ''Reopened'' (length (d_reopened diff)) (map (to_row True) (lookups by_id (d_reopened diff))),
          section_of ''Still open'' (length (d_persisting diff)) (map (to_row True) (lookups by_id (d_persisting diff))),
          section_of ''Notices'' (length (notices facts)) (map (to_row False) (notices facts))])"

definition non_empty_sections :: "html_section list \<Rightarrow> html_section list" where
  "non_empty_sections sections =
     map (\<lambda>s. s\<lparr>hs_badge_color := worst_severity_color (hs_rows s)\<rparr>) (filter (\<lambda>s. hs_rows s \<noteq> []) sections)"

definition max_from :: "int \<Rightarrow> int list \<Rightarrow> int" where
  \<comment> \<open>the loops \<^verbatim>\<open>if r.Total > hostMax { hostMax = r.Total }\<close>\<close>
  "max_from start xs = fold (\<lambda>x m. if m < x then x else m) xs start"

definition crit_text :: "nat \<Rightarrow> nat \<Rightarrow> string" where
  "crit_text crit warn =
     (if 0 < crit then num crit @ '' crit'' else []) @ (if 0 < crit \<and> 0 < warn then '', '' else []) @
     (if 0 < warn then num warn @ '' warn'' else [])"

definition share_pct :: "int \<Rightarrow> int \<Rightarrow> f64" where
  "share_pct n whole = round1f (f_mul (f_div (f_of_int n) (f_of_int whole)) (f_num 100))"

definition host_rows :: "host_finding_count list \<Rightarrow> html_host_row list" where
  "host_rows rows =
     (let host_max = max_from 1 (map (int \<circ> hf_total) rows)
      in map (\<lambda>r. \<lparr>hhr_subject = hf_subject r, hhr_crit = hf_crit r, hhr_warn = hf_warn r,
                    hhr_crit_pct = share_pct (hf_crit r) host_max, hhr_warn_pct = share_pct (hf_warn r) host_max,
                    hhr_crit_text = crit_text (hf_crit r) (hf_warn r)\<rparr>) (take 8 rows))"

definition bar_height :: "int \<Rightarrow> int \<Rightarrow> int" where
  \<comment> \<open>\<^verbatim>\<open>trendHeight-18\<close> is the constant 72\<close>
  "bar_height n whole = f_to_int64 (f_round (f_mul (f_div (f_of_int n) (f_of_int whole)) (f_num 72)))"

definition trend_bars :: "trend_point list \<Rightarrow> html_trend_point list" where
  "trend_bars points =
     (let trend_max = max_from 1 (map (\<lambda>p. tp_crit p + tp_warn p) points)
      in map (\<lambda>p. \<lparr>htp_date = tp_date p, htp_total = tp_crit p + tp_warn p,
                    htp_warn_height = bar_height (tp_warn p) trend_max,
                    htp_crit_height = bar_height (tp_crit p) trend_max,
                    htp_has_warn = 0 < tp_warn p, htp_has_crit = 0 < tp_crit p\<rparr>) points)"

definition html_host :: "state_host \<Rightarrow> html_state_host" where
  "html_host h =
     \<lparr>hsh_name = sh_name h, hsh_uptime = sh_uptime h,
      hsh_memory_label = (case sh_memory h of None \<Rightarrow> ''?'' | Some m \<Rightarrow> fmt_fixed 1 (round1f m)),
      hsh_load_label = (case sh_load h of None \<Rightarrow> ''?'' | Some l \<Rightarrow> fmt_v l),
      hsh_filesystems =
        map (\<lambda>m. \<lparr>hfs_mountpoint = sfs_mountpoint m, hfs_used_percent = round1f (sfs_used_percent m),
                   hfs_bar_color = mount_bar_color (sfs_used_percent m)\<rparr>) (sh_filesystems h)\<rparr>"

definition html_target :: "backup_target_state \<Rightarrow> html_backup_target" where
  "html_target t =
     (case bt_used_percent t of
        Some u \<Rightarrow>
          \<lparr>hbt_name = bt_name t, hbt_has_percent = True, hbt_used_percent = round1f u,
           hbt_bar_color = target_bar_color u,
           hbt_detail =
             (case bt_free_gib t of
                Some free \<Rightarrow> fmt_fixed 1 (round1f u) @ ''%'' @ dot_sep @ int_str free @ '' GiB free''
              | None \<Rightarrow> fmt_fixed 1 (round1f u) @ ''%'')\<rparr>
      | None \<Rightarrow>
          \<lparr>hbt_name = bt_name t, hbt_has_percent = False, hbt_used_percent = f_zero, hbt_bar_color = [],
           hbt_detail = or_default (bt_note t) ''unknown''\<rparr>)"

definition html_issues :: "(string, observation) gmap \<Rightarrow> narrative option \<Rightarrow> html_top_issue list" where
  "html_issues by_id narrative =
     map (\<lambda>issue. \<lparr>hti_id = ti_id issue, hti_why = ti_why issue, hti_url = evidence_url (mget by_id (ti_id issue))\<rparr>)
       (from_narrative narrative na_issues)"

definition html_failures :: "'d facts \<Rightarrow> html_collector_failure list" where
  "html_failures facts =
     map (\<lambda>name. \<lparr>hcf_name = name,
                   hcf_error = (case mget (f_collectors facts) name of None \<Rightarrow> [] | Some c \<Rightarrow> c_error c)\<rparr>)
       (su_failed (f_summary facts))"

definition tiles_of :: "summary \<Rightarrow> diff_result \<Rightarrow> html_tile list" where
  "tiles_of su diff =
     [\<lparr>ht_label = ''Critical'', ht_value = su_crit su, ht_color = ''#d03b3b''\<rparr>,
      \<lparr>ht_label = ''Warnings'', ht_value = su_warn su, ht_color = ''#fab219''\<rparr>,
      \<lparr>ht_label = ''New'', ht_value = length (d_new diff), ht_color = ''#0b0b0b''\<rparr>,
      \<lparr>ht_label = ''Resolved'', ht_value = length (d_resolved diff), ht_color = ''#0ca30c''\<rparr>]"

definition build_html_page_data ::
  "report_facts \<Rightarrow> narrative option \<Rightarrow> string \<Rightarrow> string list option \<Rightarrow> (string \<Rightarrow> (int \<times> int) option) \<Rightarrow> html_page_data" where
  \<comment> \<open>the last two arguments are the history directory below \<open>stateDir\<close>\<close>
  "build_html_page_data facts narrative title entries read =
     (let hosts = map html_host (state_hosts facts)
      in \<lparr>hp_headline = title, hp_run_id = ri_id (f_run facts), hp_run_date = run_date facts,
          hp_run_host = ri_host (f_run facts), hp_observation_count = length (f_observations facts),
          hp_tiles = tiles_of (f_summary facts) (f_diff facts),
          hp_has_narrative = (narrative \<noteq> None),
          hp_assessment = from_narrative narrative na_assessment,
          hp_trend = trend_bars (trend entries read 10),
          hp_by_host = host_rows (by_host facts),
          hp_top_issues = html_issues (obs_by_id (f_observations facts)) narrative,
          hp_suggested_actions = from_narrative narrative na_actions,
          hp_has_state_hosts = (hosts \<noteq> []), hp_state_counts = state_counts facts, hp_state_hosts = hosts,
          hp_backup_targets = map html_target (state_backup_targets facts),
          hp_notes = state_notes facts,
          hp_sections = non_empty_sections (all_sections facts),
          hp_resolved = d_resolved (f_diff facts),
          hp_collectors_failed = html_failures facts,
          hp_llm_status = f_llm_status facts, hp_collector_count = length (f_collectors facts)\<rparr>)"

section \<open>Lemmas\<close>

lemma max_from_bounds:
  "start \<le> max_from start xs" "x \<in> set xs \<Longrightarrow> x \<le> max_from start xs"
proof -
  have "start \<le> max_from start xs \<and> (\<forall>x \<in> set xs. x \<le> max_from start xs)"
    unfolding max_from_def
  proof (induction xs arbitrary: start)
    case (Cons y ys)
    show ?case using Cons [of "if start < y then y else start"] by (auto split: if_splits)
  qed simp
  then show "start \<le> max_from start xs" "x \<in> set xs \<Longrightarrow> x \<le> max_from start xs" by blast+
qed

text \<open>A height is at most half a pixel (and a rounding error) off the exact one.\<close>

lemma round_bin_pos: "0 \<le> r \<Longrightarrow> 0 \<le> round_bin p emin r"
  by (auto simp: round_bin_def Let_def round_half_even_def zero_le_mult_iff less_imp_le)

lemma bar_height_near:
  assumes "0 \<le> n" "n \<le> m" "1 \<le> m" "m < 2 ^ 53"
  shows "0 \<le> bar_height n m" "\<bar>of_int (bar_height n m) - 72 * of_int n / of_int m\<bar> \<le> (1 / 2 + 1 / 2 ^ 40 :: rat)"
proof -
  define q :: rat where "q = of_int n / of_int m"
  have q: "0 \<le> q" "q \<le> 1" using assms by (simp_all add: q_def)
  define a where "a = round_bin 53 (-1074) q"
  have a0: "0 \<le> a" using q(1) by (simp add: a_def round_bin_pos)
  have "\<bar>a - q\<bar> \<le> pow2 (1 - int 53) / 2"
    unfolding a_def by (rule round_bin_error) (use q in \<open>simp_all add: pow2_def\<close>)
  then have a: "\<bar>a - q\<bar> \<le> 1 / 2 ^ 53" by (simp add: pow2_def)
  have d: "f_div (f_of_int n) (f_of_int m) = Fin False a"
    using assms mk_f64_small [of q False] q
    by (simp add: f_of_int_small a_def flip: q_def)
  define b where "b = round_bin 53 (-1074) (a * 72)"
  have "a \<le> q + 1 / 2 ^ 53" using a by (simp only: abs_le_iff) linarith
  with q have "a \<le> 3 / 2" by simp
  with a0 have a72: "0 \<le> a * 72" "a * 72 < 2 ^ 7" by simp_all
  have "\<bar>b - a * 72\<bar> \<le> pow2 (7 - int 53) / 2"
    unfolding b_def by (rule round_bin_error) (use a72 in \<open>simp_all add: pow2_def\<close>)
  then have b: "\<bar>b - a * 72\<bar> \<le> 1 / 2 ^ 47" by (simp add: pow2_def)
  have b0: "0 \<le> b" using a72(1) by (simp add: b_def round_bin_pos)
  have mul: "f_mul (Fin False a) (f_num 72) = Fin False b"
    using mk_f64_small [of "a * 72" False] a72 by (simp add: f_num_def b_def)
  define h where "h = round_half_away b"
  have h: "\<bar>of_int h - b\<bar> \<le> 1 / 2" "0 \<le> h"
  proof -
    have "of_int \<lfloor>b + 1 / 2\<rfloor> \<le> b + 1 / 2" "b + 1 / 2 < of_int \<lfloor>b + 1 / 2\<rfloor> + 1" by linarith+
    then have "of_int \<lfloor>b + 1 / 2\<rfloor> - b \<le> 1 / 2 \<and> - (of_int \<lfloor>b + 1 / 2\<rfloor> - b) \<le> 1 / 2" by linarith
    moreover have "h = \<lfloor>b + 1 / 2\<rfloor>" using b0 by (simp add: h_def round_half_away_def)
    ultimately show "\<bar>of_int h - b\<bar> \<le> 1 / 2" by (simp only: abs_le_iff)
    show "0 \<le> h" using b0 by (simp add: h_def round_half_away_def)
  qed
  have "h < 2 ^ 63"
  proof -
    have "of_int h \<le> (2 ^ 7 + 1 / 2 ^ 47 + 1 / 2 :: rat)" using h(1) b a72(2) unfolding abs_le_iff by linarith
    then have "of_int h \<le> (200 :: rat)" by simp
    then show ?thesis by simp
  qed
  then have eq: "bar_height n m = h"
    using h(2) by (simp add: bar_height_def d mul Let_def flip: h_def)
  show "0 \<le> bar_height n m" using h(2) by (simp add: eq)
  have "\<bar>a * 72 - 72 * q\<bar> \<le> 72 / 2 ^ 53" using a unfolding abs_le_iff by linarith
  with h(1) b have "\<bar>of_int h - 72 * q\<bar> \<le> 1 / 2 + 1 / 2 ^ 47 + 72 / 2 ^ 53" unfolding abs_le_iff by linarith
  then have "\<bar>of_int h - 72 * q\<bar> \<le> 1 / 2 + 1 / 2 ^ 40" by (rule order_trans) simp
  then show "\<bar>of_int (bar_height n m) - 72 * of_int n / of_int m\<bar> \<le> (1 / 2 + 1 / 2 ^ 40 :: rat)"
    by (simp add: eq q_def)
qed

text \<open>The badge of a section has the color of the worst severity in it.\<close>

lemma known_rank_cases': "known_rank s \<le> 2" "known_rank s = 2 \<longleftrightarrow> s = ''crit''" "known_rank s = 1 \<longleftrightarrow> s = ''warn''"
  by (auto simp: known_rank_cases)

lemma severity_color_worst:
  "severity_color (worst sevs) =
     (if ''crit'' \<in> set sevs then severity_color ''crit''
      else if ''warn'' \<in> set sevs then severity_color ''warn'' else severity_color [])"
proof (cases "worst_known (filter (\<lambda>s. 0 \<le> known_rank s) sevs)")
  case None
  then have "\<forall>s \<in> set sevs. known_rank s < 0" by (auto simp: wk.pick_None filter_empty_conv not_le)
  then have "''crit'' \<notin> set sevs" "''warn'' \<notin> set sevs" by (auto simp: known_rank_cases)
  with None show ?thesis by (simp add: worst_eq severity_color_def)
next
  case (Some b)
  have b: "b \<in> set sevs" using wk.pick_in [OF Some] by simp
  have ge: "known_rank s \<le> known_rank b" if "s \<in> set sevs" for s
    using wk.pick_max [OF Some, of s] wk.pick_in [OF Some] that by fastforce
  consider "b = ''crit''" | "b = ''warn''" | "b \<noteq> ''crit''" "b \<noteq> ''warn''" by blast
  then show ?thesis
  proof cases
    case 1
    with b Some show ?thesis by (simp add: worst_eq)
  next
    case 2
    with ge [of "''crit''"] have "''crit'' \<notin> set sevs" by (auto simp: known_rank_cases)
    with 2 b Some show ?thesis by (simp add: worst_eq)
  next
    case 3
    with ge [of "''crit''"] ge [of "''warn''"] have "''crit'' \<notin> set sevs" "''warn'' \<notin> set sevs"
      by (auto simp: known_rank_cases split: if_splits)
    with 3 Some show ?thesis by (simp add: worst_eq severity_color_def)
  qed
qed

lemma worst_color_from:
  "worst_color_from w rows =
     (if ''crit'' \<in> hor_severity ` set rows then severity_color ''crit''
      else if ''warn'' \<in> hor_severity ` set rows then severity_color ''warn'' else severity_color w)"
  by (induction rows arbitrary: w) auto

lemma worst_severity_color_eq: "worst_severity_color rows = severity_color (worst (map hor_severity rows))"
  by (simp add: worst_severity_color_def worst_color_from severity_color_worst)

text \<open>Filling the badge and dropping the empty sections keeps every row.\<close>

lemma non_empty_rows: "concat (map hs_rows (non_empty_sections ss)) = concat (map hs_rows ss)"
  by (induction ss) (simp_all add: non_empty_sections_def)

lemma in_non_empty:
  "s \<in> set (non_empty_sections ss) \<Longrightarrow> hs_rows s \<noteq> [] \<and> hs_badge_color s = worst_severity_color (hs_rows s)"
  by (auto simp: non_empty_sections_def)

lemma all_section_rows:
  "concat (map hs_rows (all_sections facts)) =
     (let by_id = obs_by_id (f_observations facts); diff = f_diff facts
      in map (to_row False) (lookups by_id (d_new diff)) @
         map (to_row True) (lookups by_id (d_reopened diff)) @
         map (to_row True) (lookups by_id (d_persisting diff)) @ map (to_row False) (notices facts))"
  by (simp add: all_sections_def Let_def)

lemma listed_row:
  assumes "x \<in> set (lookups (obs_by_id (f_observations facts)) ids)"
    and "ids \<in> {d_new (f_diff facts), d_reopened (f_diff facts), d_persisting (f_diff facts)}"
  shows "\<exists>age. to_row age x \<in> set (concat (map hs_rows (all_sections facts)))"
proof (cases "ids = d_new (f_diff facts)")
  case True
  with assms(1) show ?thesis by (intro exI [of _ False]) (simp add: all_section_rows Let_def)
next
  case False
  with assms show ?thesis by (intro exI [of _ True]) (auto simp: all_section_rows Let_def)
qed

section \<open>Properties\<close>

text \<open>
   The HTML report leaves nothing actionable out: on the page of a run every warning and
  critical observation has a row with its id, the message and the color of the observation its
  id stands for, and every notice has one; no section is empty, and its badge has the color of the
  worst severity in it.
\<close>

theorem html_complete:
  "let facts = fst (run_facts hostname rules inp sd);
       page = build_html_page_data facts narrative title entries read;
       rows = concat (map hs_rows (hp_sections page))
   in list_all (\<lambda>obs. \<exists>age. to_row age (the (mget (obs_by_id (f_observations facts)) (o_id obs))) \<in> set rows)
        (filter (\<lambda>obs. actionable (o_severity obs)) (f_observations facts)) \<and>
      list_all (\<lambda>obs. to_row False obs \<in> set rows) (notices facts) \<and>
      list_all (\<lambda>s. hs_rows s \<noteq> [] \<and> hs_badge_color s = severity_color (worst (map hor_severity (hs_rows s))))
        (hp_sections page)"
proof -
  define facts where "facts = fst (run_facts hostname rules inp sd)"
  let ?page = "build_html_page_data facts narrative title entries read"
  have rows: "concat (map hs_rows (hp_sections ?page)) = concat (map hs_rows (all_sections facts))"
    by (simp add: build_html_page_data_def Let_def non_empty_rows)
  have "\<exists>age. to_row age (the (mget (obs_by_id (f_observations facts)) (o_id obs))) \<in>
      set (concat (map hs_rows (all_sections facts)))"
    if "obs \<in> set (f_observations facts)" "actionable (o_severity obs)" for obs
    using actionable_listed [OF that [unfolded facts_def]] listed_row
    unfolding facts_def [symmetric] by (metis option.sel)
  moreover have "to_row False obs \<in> set (concat (map hs_rows (all_sections facts)))"
    if "obs \<in> set (notices facts)" for obs
    using that by (simp add: all_section_rows Let_def)
  moreover have "s \<in> set (hp_sections ?page) \<Longrightarrow>
      hs_rows s \<noteq> [] \<and> hs_badge_color s = severity_color (worst (map hor_severity (hs_rows s)))" for s
    using in_non_empty [of s "all_sections facts"]
    by (simp add: build_html_page_data_def Let_def worst_severity_color_eq)
  ultimately show ?thesis
    unfolding Let_def facts_def [symmetric] rows
    by (simp add: list_all_iff del: set_concat)
qed

lemma max_from_eq: "max_from start xs = Max (insert start (set xs))"
proof -
  have "max_from start xs \<in> insert start (set xs)"
    unfolding max_from_def by (induction xs arbitrary: start) auto
  then show ?thesis using max_from_bounds [where start = start and xs = xs]
    by (intro Max_eqI [symmetric]) auto
qed

text \<open>
   The bars of the trend fit their row of 90 pixels: with counts that are not negative,
  each bar is within half a pixel (and a rounding error) of its share of 72 pixels, and the two
  bars of a day are together at most 73 pixels high.
\<close>

theorem trend_bars_fit:
  assumes "\<forall>p \<in> set points. 0 \<le> tp_crit p \<and> 0 \<le> tp_warn p \<and> tp_crit p + tp_warn p < 2 ^ 53"
  shows "list_all2 (\<lambda>p b.
      let top = of_int (Max (insert 1 (set (map (\<lambda>p. tp_crit p + tp_warn p) points)))) :: rat
      in 0 \<le> htp_warn_height b \<and> 0 \<le> htp_crit_height b \<and> htp_warn_height b + htp_crit_height b \<le> 73 \<and>
         \<bar>of_int (htp_warn_height b) - 72 * of_int (tp_warn p) / top\<bar> \<le> 1 / 2 + 1 / 2 ^ 40 \<and>
         \<bar>of_int (htp_crit_height b) - 72 * of_int (tp_crit p) / top\<bar> \<le> 1 / 2 + 1 / 2 ^ 40)
    points (trend_bars points)"
proof -
  define m where "m = max_from 1 (map (\<lambda>p. tp_crit p + tp_warn p) points)"
  have m1: "1 \<le> m" unfolding m_def by (rule max_from_bounds)
  have top: "p \<in> set points \<Longrightarrow> tp_crit p + tp_warn p \<le> m" for p
    unfolding m_def by (rule max_from_bounds) simp
  have "m \<in> insert 1 ((\<lambda>p. tp_crit p + tp_warn p) ` set points)"
    unfolding m_def max_from_eq using Max_in by (metis finite_insert finite_imageI insert_not_empty List.finite_set set_map)
  with assms have m53: "m < 2 ^ 53" by auto
  have near: "0 \<le> bar_height n m \<and> \<bar>of_int (bar_height n m) - 72 * of_int n / of_int m\<bar> \<le> (1 / 2 + 1 / 2 ^ 40 :: rat)"
    if "0 \<le> n" "n \<le> m" for n
    using bar_height_near [OF that m1 m53] by blast
  have n: "0 \<le> tp_warn p" "tp_warn p \<le> m" "0 \<le> tp_crit p" "tp_crit p \<le> m" if "p \<in> set points" for p
    using assms top [OF that] that by auto
  have both: "bar_height (tp_warn p) m + bar_height (tp_crit p) m \<le> 73" if p: "p \<in> set points" for p
  proof -
    have "72 * of_int (tp_warn p) / of_int m + 72 * of_int (tp_crit p) / of_int m \<le> (72 :: rat)"
    proof -
      have "of_int (tp_warn p) + of_int (tp_crit p) \<le> (of_int m :: rat)"
        using top [OF p] by (metis add.commute of_int_add of_int_le_iff)
      moreover have "(0 :: rat) < of_int m" using m1 by simp
      ultimately show ?thesis by (simp add: field_simps flip: add_divide_distrib)
    qed
    then have "of_int (bar_height (tp_warn p) m) + of_int (bar_height (tp_crit p) m) \<le> (72 + 1 + 2 / 2 ^ 40 :: rat)"
      using near [OF n(1) [OF p] n(2) [OF p]] near [OF n(3) [OF p] n(4) [OF p]] unfolding abs_le_iff by linarith
    then have "of_int (bar_height (tp_warn p) m + bar_height (tp_crit p) m) < (of_int 74 :: rat)" by simp
    then show ?thesis by (simp only: of_int_less_iff)
  qed
  show ?thesis
    unfolding max_from_eq [symmetric] m_def [symmetric] trend_bars_def Let_def list_all2_map2 list_all2_same
    using both near [OF n(1,2)] near [OF n(3,4)] by (simp only: html_trend_point.simps ball_simps) blast
qed

theorem trend_bars_fit_witness:
  "list_all (\<lambda>b. htp_warn_height b + htp_crit_height b \<le> 73)
     (trend_bars [\<lparr>tp_date = ''07-20'', tp_crit = 1, tp_warn = 2\<rparr>])"
  using trend_bars_fit [of "[\<lparr>tp_date = ''07-20'', tp_crit = 1, tp_warn = 2\<rparr>]"]
  by (auto simp: Let_def list_all2_Cons1)

end
