(* ===== verification/Go_Regex.thy ===== *)
theory Go_Regex
  imports Go_Base
begin

text \<open>
  Regular expressions as \<^verbatim>\<open>regexp\<close> matches them: leftmost first, preferring the left alternative and
  the longer repetition.  A place in a text is the character before it and the text after it, for
  the boundary \<^verbatim>\<open>\b\<close>.  \<open>ends\<close> lists the places where a match can end, the preferred one first.
  Texts are bytes: the classes used are ASCII, and a class that excludes ASCII characters only matches
  every byte of the others.
\<close>

section \<open>Expressions and their matches\<close>

datatype re =
    Eps
  | Chr "char \<Rightarrow> bool"
  | Cat re re
  | Alt re re
  | Star re
  | Boundary

type_synonym place = "char option \<times> string"

definition re_space :: "char \<Rightarrow> bool" where
  \<comment> \<open>\<^verbatim>\<open>\s\<close>\<close>
  "re_space c \<longleftrightarrow> c \<in> {CHR 0x20, CHR 0x09, CHR 0x0A, CHR 0x0C, CHR 0x0D}"

definition re_word :: "char \<Rightarrow> bool" where
  \<comment> \<open>\<^verbatim>\<open>\w\<close>\<close>
  "re_word c \<longleftrightarrow> (CHR ''a'' \<le> c \<and> c \<le> CHR ''z'') \<or> (CHR ''A'' \<le> c \<and> c \<le> CHR ''Z'') \<or> is_digit c \<or> c = CHR ''_''"

definition at_boundary :: "place \<Rightarrow> bool" where
  "at_boundary p \<longleftrightarrow>
     ((case fst p of None \<Rightarrow> False | Some c \<Rightarrow> re_word c) \<noteq> (case snd p of [] \<Rightarrow> False | c # _ \<Rightarrow> re_word c))"

fun star_ends :: "(place \<Rightarrow> place list) \<Rightarrow> nat \<Rightarrow> place \<Rightarrow> place list" where
  \<comment> \<open>greedy repetition; a round that consumes nothing is not repeated\<close>
  "star_ends f 0 p = [p]"
| "star_ends f (Suc n) p =
     concat (map (star_ends f n) (filter (\<lambda>q. length (snd q) < length (snd p)) (f p))) @ [p]"

primrec ends :: "re \<Rightarrow> place \<Rightarrow> place list" where
  "ends Eps p = [p]"
| "ends (Chr P) p = (case snd p of [] \<Rightarrow> [] | c # s \<Rightarrow> if P c then [(Some c, s)] else [])"
| "ends (Cat r1 r2) p = concat (map (ends r2) (ends r1 p))"
| "ends (Alt r1 r2) p = ends r1 p @ ends r2 p"
| "ends (Star r) p = star_ends (ends r) (length (snd p)) p"
| "ends Boundary p = (if at_boundary p then [p] else [])"

lemma suffix_star_ends:
  assumes "\<And>p q. q \<in> set (f p) \<Longrightarrow> suffix (snd q) (snd p)"
  shows "q \<in> set (star_ends f n p) \<Longrightarrow> suffix (snd q) (snd p)"
proof (induction n arbitrary: p)
  case (Suc n)
  show ?case
  proof (cases "q = p")
    case False
    with Suc.prems obtain q' where q': "q' \<in> set (f p)" "q \<in> set (star_ends f n q')" by auto
    from Suc.IH [OF q'(2)] assms [OF q'(1)] show ?thesis by (rule suffix_order.trans)
  qed simp
qed simp

lemma suffix_ends: "q \<in> set (ends r p) \<Longrightarrow> suffix (snd q) (snd p)"
proof (induction r arbitrary: p q)
  case (Chr P)
  then show ?case by (cases "snd p") (auto split: if_splits intro: suffix_ConsI)
next
  case (Cat r1 r2)
  then obtain p' where p': "p' \<in> set (ends r1 p)" "q \<in> set (ends r2 p')" by auto
  from Cat.IH(2) [OF p'(2)] Cat.IH(1) [OF p'(1)] show ?case by (rule suffix_order.trans)
next
  case (Star r)
  then have "q \<in> set (star_ends (ends r) (length (snd p)) p)" by simp
  then show ?case by (rule suffix_star_ends [rotated]) (rule Star.IH)
qed (auto split: if_splits)

section \<open>Replacing every match\<close>

definition first_match :: "re \<Rightarrow> place \<Rightarrow> place option" where
  \<comment> \<open>the preferred match at a place; the expressions used match no empty text\<close>
  "first_match r p = find (\<lambda>q. length (snd q) < length (snd p)) (ends r p)"

lemma first_match_shorter: "first_match r p = Some q \<Longrightarrow> length (snd q) < length (snd p)"
  by (auto simp: first_match_def dest: find_SomeD)

function re_replace :: "re \<Rightarrow> string \<Rightarrow> place \<Rightarrow> string" where
  "re_replace r new p =
     (case snd p of [] \<Rightarrow> []
      | c # s \<Rightarrow> (case first_match r p of Some q \<Rightarrow> new @ re_replace r new q
                 | None \<Rightarrow> c # re_replace r new (Some c, s)))"
  by auto
termination
proof (relation "measure (\<lambda>(r, new, p). length (snd p))")
  show "wf (measure (\<lambda>(r :: re, new :: string, p :: place). length (snd p)))" by simp
next
  fix r new p c s q
  show "snd p = c # s \<Longrightarrow> first_match r p = Some q \<Longrightarrow>
      ((r, new, q), r, new, p) \<in> measure (\<lambda>(r :: re, new :: string, p :: place). length (snd p))"
    by (auto dest: first_match_shorter)
next
  fix r new p c s
  show "snd p = c # s \<Longrightarrow> first_match r p = None \<Longrightarrow>
      ((r, new, (Some c, s)), r, new, p) \<in> measure (\<lambda>(r :: re, new :: string, p :: place). length (snd p))"
    by simp
qed

declare re_replace.simps [simp del]

definition replace_re :: "re \<Rightarrow> string \<Rightarrow> string \<Rightarrow> string" where
  "replace_re r new s = re_replace r new (None, s)"

section \<open>Common expressions\<close>

definition char_re :: "char \<Rightarrow> re" where "char_re c = Chr (\<lambda>x. x = c)"

definition plus :: "re \<Rightarrow> re" where "plus r = Cat r (Star r)"

definition opt :: "re \<Rightarrow> re" where "opt r = Alt r Eps"

fun times :: "nat \<Rightarrow> re \<Rightarrow> re" where
  "times 0 r = Eps"
| "times (Suc n) r = Cat r (times n r)"

fun up_to :: "nat \<Rightarrow> re \<Rightarrow> re" where
  \<comment> \<open>\<^verbatim>\<open>r{0,n}\<close>\<close>
  "up_to 0 r = Eps"
| "up_to (Suc n) r = opt (Cat r (up_to n r))"

definition cats :: "re list \<Rightarrow> re" where "cats rs = foldr Cat rs Eps"

text \<open>Where no match starts nothing is replaced.\<close>

lemma re_replace_none:
  assumes "\<And>u v. s = u @ v \<Longrightarrow> v \<noteq> [] \<Longrightarrow> first_match r (if u = [] then b else Some (last u), v) = None"
  shows "re_replace r new (b, s) = s"
  using assms
proof (induction s arbitrary: b)
  case Nil
  then show ?case by (simp add: re_replace.simps)
next
  case (Cons c s)
  have "first_match r (b, c # s) = None" using Cons.prems [of "[]" "c # s"] by simp
  moreover have "re_replace r new (Some c, s) = s"
  proof (rule Cons.IH)
    fix u v
    assume "s = u @ v" "v \<noteq> []"
    with Cons.prems [of "c # u" v] show "first_match r (if u = [] then Some c else Some (last u), v) = None"
      by (cases "u = []") auto
  qed
  ultimately show ?case by (subst re_replace.simps) simp
qed

end
