(* ===== verification/CO_Base.thy ===== *)
theory CO_Base
  imports HR_State Go_Regex
begin

text \<open>
  What the collectors of the health report share: the readers of dynamic JSON values and the rounding
  at the end of \<^verbatim>\<open>src/tools/internal/healthreport/collectors/sshfacts.go\<close>, and the composite literal
  of an observation.  A nil slice in a piece of evidence is the empty list.
\<close>

section \<open>Dynamic values\<close>

fun numeric_any :: "any \<Rightarrow> f64 option" where
  \<comment> \<open>unlike \<open>numeric\<close>, this reads no strings\<close>
  "numeric_any (VF64 x) = Some x"
| "numeric_any (VInt i) = Some (f_of_int i)"
| "numeric_any (VInt64 i) = Some (f_of_int i)"
| "numeric_any _ = None"

definition num_or :: "any \<Rightarrow> f64 \<Rightarrow> f64" where
  "num_or v dflt = (case numeric_any v of None \<Rightarrow> dflt | Some f \<Rightarrow> f)"

fun bool_or :: "any \<Rightarrow> bool" where
  "bool_or (VBool b) = b"
| "bool_or VNil = False"
| "bool_or (VF64 x) = (\<not> f_eq x f_zero)"
| "bool_or (VStr s) = (s \<noteq> [] \<and> s \<noteq> ''false'')"
| "bool_or _ = False"

definition any_or :: "any \<Rightarrow> string \<Rightarrow> any" where
  \<comment> \<open>\<open>orDefault\<close>\<close>
  "any_or v dflt = (if v = VNil \<or> v = VStr [] then VStr dflt else v)"

definition first_n :: "nat \<Rightarrow> any list \<Rightarrow> any list" where
  "first_n n items = take n items"

definition round_n :: "f64 \<Rightarrow> nat \<Rightarrow> f64" where
  "round_n v places =
     (let mult = f_num (10 ^ places); sign = (if f_lt v f_zero then f_num (- 1) else f_num 1)
      in f_div (f_of_int (f_to_int64 (f_add (f_mul v mult) (f_mul sign (f_num (1 / 2)))))) mult)"

definition round1 :: "f64 \<Rightarrow> f64" where "round1 v = round_n v 1"
definition round3 :: "f64 \<Rightarrow> f64" where "round3 v = round_n v 3"

definition maps_of :: "any list \<Rightarrow> (string, any) gmap list" where
  \<comment> \<open>the loops that skip the elements that are no objects\<close>
  "maps_of xs = concat (map (\<lambda>x. case x of VMap m \<Rightarrow> [m] | _ \<Rightarrow> []) xs)"

definition map_at :: "(string, any) gmap \<Rightarrow> string \<Rightarrow> (string, any) gmap option" where
  "map_at m k = as_map (mget m k)"

definition nil_map :: "(string, any) gmap option \<Rightarrow> (string, any) gmap" where
  \<comment> \<open>reading a nil map is reading an empty one\<close>
  "nil_map m = (case m of None \<Rightarrow> [] | Some m' \<Rightarrow> m')"

definition list_at :: "(string, any) gmap \<Rightarrow> string \<Rightarrow> any list" where
  "list_at m k = as_list (mget m k)"

definition str_at :: "(string, any) gmap \<Rightarrow> string \<Rightarrow> string" where
  "str_at m k = as_str (mget m k)"

lemma maps_of_Nil [simp]: "maps_of [] = []"
  by (simp add: maps_of_def)

lemma in_maps_of: "m \<in> set (maps_of xs) \<longleftrightarrow> VMap m \<in> set xs"
  by (induction xs) (auto simp: maps_of_def split: any.splits)

section \<open>Observations\<close>

definition obs_of ::
  "string \<Rightarrow> string \<Rightarrow> string \<Rightarrow> string \<Rightarrow> any \<Rightarrow> any \<Rightarrow> string \<Rightarrow> (string, any) gmap \<Rightarrow> observation" where
  \<comment> \<open>the literal \<^verbatim>\<open>&hr.Observation{ID, Collector, Subject, Kind, Value, Unit, Message, Evidence, Severity: "info"}\<close>\<close>
  "obs_of collector i subject kind val unit msg evidence =
     \<lparr>o_id = i, o_collector = collector, o_subject = subject, o_kind = kind, o_message = msg,
      o_severity = ''info'', o_value = val, o_unit = unit, o_threshold = VNil, o_evidence = evidence,
      o_notice = False, o_previous_value = VNil, o_first_seen = VNil\<rparr>"

lemma obs_of_simps [simp]:
  "o_id (obs_of c i s k v u m e) = i" "o_collector (obs_of c i s k v u m e) = c"
  "o_subject (obs_of c i s k v u m e) = s" "o_kind (obs_of c i s k v u m e) = k"
  "o_message (obs_of c i s k v u m e) = m" "o_value (obs_of c i s k v u m e) = v"
  "o_unit (obs_of c i s k v u m e) = u" "o_evidence (obs_of c i s k v u m e) = e"
  "o_severity (obs_of c i s k v u m e) = ''info''"
  by (simp_all add: obs_of_def)

definition kind_only :: "string \<Rightarrow> observation list \<Rightarrow> observation list" where
  "kind_only kind obs = filter (\<lambda>x. o_kind x = kind) obs"

lemma kind_only_simps [simp]:
  "kind_only k [] = []"
  "kind_only k (x # xs) = (if o_kind x = k then x # kind_only k xs else kind_only k xs)"
  "kind_only k (xs @ ys) = kind_only k xs @ kind_only k ys"
  "kind_only k (concat xss) = concat (map (kind_only k) xss)"
  by (simp_all add: kind_only_def [abs_def] filter_concat)

section \<open>Counting\<close>

definition tally_round :: "'k \<Rightarrow> ('k, int) gmap \<Rightarrow> ('k, int) gmap" where
  \<comment> \<open>\<^verbatim>\<open>m[k]++\<close>, with \<^verbatim>\<open>order\<close> as the order of the keys\<close>
  "tally_round k m = mput k ((case mget m k of Some n \<Rightarrow> n | None \<Rightarrow> 0) + 1) m"

definition tally :: "'k list \<Rightarrow> ('k, int) gmap" where
  "tally ks = fold tally_round ks []"

definition first_seen :: "'k list \<Rightarrow> 'k list" where
  \<comment> \<open>each element once, in the order of its first occurrence\<close>
  "first_seen ks = rev (remdups (rev ks))"

lemma first_seen_simps [simp]:
  "set (first_seen ks) = set ks" "distinct (first_seen ks)" "first_seen [] = []"
  "first_seen (ks @ [k]) = (if k \<in> set ks then first_seen ks else first_seen ks @ [k])"
  by (auto simp: first_seen_def)

lemma mput_map:
  "distinct ks \<Longrightarrow> mput k v (map (\<lambda>x. (x, f x)) ks) =
     (if k \<in> set ks then map (\<lambda>x. (x, if x = k then v else f x)) ks else map (\<lambda>x. (x, f x)) ks @ [(k, v)])"
  by (induction ks) (auto simp: mput_def)

lemma mget_map: "mget (map (\<lambda>x. (x, f x)) ks) k = (if k \<in> set ks then Some (f k) else None)"
  by (induction ks) (auto simp: mget_def)

lemma tally_eq: "tally ks = map (\<lambda>k. (k, int (count_list ks k))) (first_seen ks)"
proof (induction ks rule: rev_induct)
  case (snoc k ks)
  have "k \<notin> set ks \<Longrightarrow> count_list ks k = 0" by (simp add: count_list_0_iff)
  with snoc show ?case by (auto simp: tally_def tally_round_def mput_map mget_map)
qed (simp add: tally_def)

section \<open>Quoting\<close>

definition go_quote :: "string \<Rightarrow> string" where
  \<comment> \<open>\<^verbatim>\<open>%q\<close>, for texts whose other runes are printable\<close>
  "go_quote s = [CHR 0x22] @ concat (map (\<lambda>c.
     if c = CHR 0x22 \<or> c = CHR 0x5C then [CHR 0x5C, c]
     else if c = CHR 0x0A then [CHR 0x5C, CHR ''n''] else if c = CHR 0x0D then [CHR 0x5C, CHR ''r'']
     else if c = CHR 0x09 then [CHR 0x5C, CHR ''t''] else [c]) s) @ [CHR 0x22]"

text \<open>Mapping the values of a map.\<close>

lemma mput_image: "map (\<lambda>(k, v). (k, f v)) (mput k v m) = mput k (f v) (map (\<lambda>(k, v). (k, f v)) m)"
  by (induction m) (auto simp: mput_def)

lemma mget_image: "mget (map (\<lambda>(k, v). (k, f v)) m) k = map_option f (mget m k)"
  by (induction m) (auto simp: mget_def)

section \<open>Query strings\<close>

definition hex_digit :: "nat \<Rightarrow> char" where
  "hex_digit n = ''0123456789ABCDEF'' ! n"

definition query_escape :: "string \<Rightarrow> string" where
  "query_escape s = concat (map (\<lambda>c.
     if re_word c \<or> c \<in> {CHR ''-'', CHR ''.'', CHR ''~''} then [c]
     else if c = CHR '' '' then ''+''
     else [CHR ''%'', hex_digit (of_char c div 16), hex_digit (of_char c mod 16)]) s)"

definition encode_values :: "(string \<times> string) list \<Rightarrow> string" where
  \<comment> \<open>\<^verbatim>\<open>url.Values.Encode\<close>, one value per key\<close>
  "encode_values kvs = join ''&'' (map (\<lambda>(k, v). query_escape k @ ''='' @ query_escape v) (sort_key fst kvs))"

section \<open>Dates\<close>

definition parse_date :: "string \<Rightarrow> int option" where
  \<comment> \<open>\<^verbatim>\<open>time.Parse("2006-01-02", s)\<close>, as the day counted from 1970\<close>
  "parse_date s = do {
     (y, s) \<leftarrow> num_fixed 4 s; s \<leftarrow> lit CHR 0x2D s;
     (mo, s) \<leftarrow> num_fixed 2 s; s \<leftarrow> lit CHR 0x2D s;
     (d, s) \<leftarrow> num_fixed 2 s;
     if s = [] \<and> 1 \<le> mo \<and> mo \<le> 12 \<and> 1 \<le> d \<and> d \<le> days_in mo y then Some (days_of_civil y mo d) else None }"

section \<open>Rounds that may panic\<close>

text \<open>
  The observations of one round after another; the first that panics ends the collector.
\<close>

fun in_sequence :: "(string + 'a list) list \<Rightarrow> string + 'a list" where
  "in_sequence [] = Inr []"
| "in_sequence (Inl err # rest) = Inl err"
| "in_sequence (Inr xs # rest) = map_sum id (append xs) (in_sequence rest)"

lemma in_sequence_Inr:
  "in_sequence rs = Inr xs \<longleftrightarrow> (\<exists>xss. rs = map Inr xss \<and> xs = concat xss)"
proof (induction rs arbitrary: xs)
  case (Cons r rs)
  show ?case
  proof (cases r)
    case (Inl e)
    then show ?thesis by (auto simp: Cons_eq_map_conv)
  next
    case (Inr ys)
    show ?thesis
    proof
      assume "in_sequence (r # rs) = Inr xs"
      with Inr obtain zs where z: "in_sequence rs = Inr zs" "xs = ys @ zs"
        by (cases "in_sequence rs") auto
      with Cons.IH [of zs] obtain zss where "rs = map Inr zss" "zs = concat zss" by auto
      with Inr z show "\<exists>xss. r # rs = map Inr xss \<and> xs = concat xss"
        by (intro exI [of _ "ys # zss"]) simp
    next
      assume "\<exists>xss. r # rs = map Inr xss \<and> xs = concat xss"
      then obtain x xss where "r # rs = map Inr (x # xss)" "xs = x @ concat xss" by (auto simp: Cons_eq_map_conv)
      with Cons.IH [of "concat xss"] show "in_sequence (r # rs) = Inr xs" by auto
    qed
  qed
qed auto

lemma in_sequence_Inl: "(\<exists>e. in_sequence rs = Inl e) \<longleftrightarrow> (\<exists>e. Inl e \<in> set rs)"
proof (induction rs)
  case (Cons r rs)
  then show ?case by (cases r; cases "in_sequence rs") auto
qed simp

end
