(* ===== verification/CO_SSHFacts.thy ===== *)
theory CO_SSHFacts
  imports CO_Base HR_Config "HOL-Library.Product_Lexorder"
begin

text \<open>
  The collector of host facts, \<^verbatim>\<open>src/tools/internal/healthreport/collectors/sshfacts.go\<close>: a command
  per host, run locally or over ssh, gives a JSON document of sections; each section becomes
  observations.  Running a command and decoding its output are parameters, and so is the clock,
  which is read once.  The facts script itself is not part of the program.
\<close>

section \<open>Fetching\<close>

definition ssh_options :: "string list" where
  "ssh_options = [''-o'', ''BatchMode=yes'', ''-o'', ''ConnectTimeout=10'',
     ''-o'', ''StrictHostKeyChecking=accept-new'', ''-o'', ''IdentitiesOnly=yes'']"

datatype command_result = Output string | Failed string string
  \<comment> \<open>the standard output, or the error and the standard error\<close>

record facts_world =
  fw_run :: "string list \<Rightarrow> command_result"
  fw_decode :: "string \<Rightarrow> string + (string, any) gmap"
  fw_bin_exists :: "string \<Rightarrow> bool"
  fw_now :: gtime

definition facts_command :: "config \<Rightarrow> string \<Rightarrow> string \<Rightarrow> string list" where
  "facts_command cfg host address =
     (if host = local_host cfg then [local_facts_bin cfg]
      else ''ssh'' # ssh_options @ [''-i'', ssh_key_path cfg, ''root@'' @ address, local_facts_bin cfg])"

definition fetch_facts :: "facts_world \<Rightarrow> config \<Rightarrow> string \<Rightarrow> string \<Rightarrow> string + (string, any) gmap" where
  "fetch_facts w cfg host address =
     (case fw_run w (facts_command cfg host address) of
        Failed err stderr \<Rightarrow> Inl (host @ '': exit '' @ err @ '': '' @ cut_to 300 stderr)
      | Output stdout \<Rightarrow> fw_decode w stdout)"

definition fact_obs ::
  "string \<Rightarrow> string \<Rightarrow> string \<Rightarrow> any \<Rightarrow> any \<Rightarrow> string \<Rightarrow> (string, any) gmap \<Rightarrow> observation" where
  "fact_obs = obs_of ''ssh_facts''"

definition section_of :: "(string, any) gmap \<Rightarrow> string \<Rightarrow> (string, any) gmap option" where
  \<comment> \<open>\<open>section\<close>: unlike \<open>factsSection\<close>, a section without data is there\<close>
  "section_of sections name =
     (case map_at sections name of None \<Rightarrow> None
      | Some entry \<Rightarrow> if str_at entry ''status'' \<noteq> ''ok'' then None else Some (nil_map (map_at entry ''data'')))"

text \<open>The periods, and how \<^verbatim>\<open>time.Duration\<close> prints them.\<close>

definition integrity_max_age :: int where "integrity_max_age = 8 * 24 * 3600 * 10 ^ 9"
definition restore_max_age :: int where "restore_max_age = 35 * 24 * 3600 * 10 ^ 9"
definition heartbeat_max_age :: int where "heartbeat_max_age = 10 * 60 * 10 ^ 9"

definition watched_machines :: "string list" where "watched_machines = [''nuc'', ''nas'']"

definition verification_stale :: "gtime \<Rightarrow> any \<Rightarrow> int \<Rightarrow> bool \<times> string" where
  "verification_stale now updated_at max_age =
     (let stamp = sprint updated_at
      in case parse_rfc3339 utc stamp of None \<Rightarrow> (True, stamp)
         | Some parsed \<Rightarrow> (max_age < t_sub now parsed, stamp))"

section \<open>Sections of every host\<close>

definition security_updates_obs :: "string \<Rightarrow> (string, any) gmap \<Rightarrow> observation list" where
  "security_updates_obs host updates =
     (let count = f_to_int64 (num_or (any_at updates ''count'') f_zero);
          reboot = bool_or (any_at updates ''reboot_required'');
          packages = any_at updates ''distinct_package_count'';
          kernel = any_at updates ''running_kernel'';
          kernel_name = as_str (Some kernel);
          detail = int_str count @ '' advisories'' @
            (if packages = VNil then []
             else '' across '' @ int_str (f_to_int64 (num_or packages f_zero)) @ '' package(s)'') @
            (if reboot then '', already installed and pending reboot'' else [])
      in [fact_obs (''security_updates.'' @ host @ ''.'') host ''security_updates'' (VInt count) (VStr ''advisories'')
            (host @ '': '' @ detail)
            [(''advisories'', VList (first_n 10 (list_at updates ''advisories''))),
             (''distinct_packages'', VList (first_n 20 (list_at updates ''distinct_packages''))),
             (''reboot_required'', VBool reboot), (''running_kernel'', kernel)]] @
         (if \<not> reboot then [] else
          [fact_obs (''reboot_required.'' @ host @ ''.'') host ''reboot_required''
             (if kernel_name = [] then VBool True else VStr kernel_name) VNil
             (host @ '' needs a reboot to activate installed updates (running '' @
              or_default kernel_name ''unknown kernel'' @ '')'')
             [(''running_kernel'', kernel), (''advisories_pending_reboot'', VInt count)]]))"

definition bouncer_obs :: "string \<Rightarrow> any \<Rightarrow> observation" where
  "bouncer_obs host b =
     (let bouncer = nil_map (as_map (Some b)); name = or_default (str_at bouncer ''name'') ''unknown'';
          last_pull = any_at bouncer ''last_pull''
      in fact_obs (''crowdsec_bouncer.'' @ host @ ''.'' @ name) host ''crowdsec_bouncer''
           (VBool (sprint (any_at bouncer ''revoked'') \<noteq> ''true'')) VNil
           (host @ '': CrowdSec bouncer '' @ name @ '' last seen '' @ sprint (any_or last_pull ''never''))
           [(''last_pull'', last_pull)])"

definition machine_obs :: "gtime \<Rightarrow> string \<Rightarrow> (string, any) gmap \<Rightarrow> observation list" where
  "machine_obs now host machine =
     (let i = str_at machine ''machineId'';
          (stale, last) = verification_stale now (any_at machine ''last_heartbeat'') heartbeat_max_age
      in if i \<notin> set watched_machines \<or> \<not> stale then [] else
         [(fact_obs (''crowdsec_agent_stale.'' @ host @ ''.'' @ i) i ''crowdsec_agent_stale'' (VStr last) VNil
             (''CrowdSec agent '' @ i @ '' hasn'' @ [CHR 0x27] @ ''t heartbeated to '' @ host @ [CHR 0x27] @
              ''s LAPI in over 10m0s (last: '' @ last @ '')'')
             [(''last_heartbeat'', any_at machine ''last_heartbeat'')])\<lparr>o_severity := ''crit''\<rparr>])"

definition crowdsec_obs :: "gtime \<Rightarrow> string \<Rightarrow> (string, any) gmap \<Rightarrow> observation list" where
  "crowdsec_obs now host crowdsec =
     (let status = str_at crowdsec ''status''; data = map_at crowdsec ''data'';
          d = nil_map data; decisions = list_at d ''decisions''
      in if status = ''ok'' \<and> bool_or (any_at d ''available'') then
           [fact_obs (''crowdsec_decisions.'' @ host @ ''.'') host ''crowdsec_decisions''
              (VInt (length decisions)) (VStr ''decisions'')
              (host @ '': CrowdSec is enforcing '' @ int_str (length decisions) @ '' decisions'')
              [(''sample'', VList (map (\<lambda>m. any_at m ''value'') (maps_of (take 10 decisions))))]] @
           map (bouncer_obs host) (list_at d ''bouncers'') @
           concat (map (machine_obs now host) (maps_of (list_at d ''machines'')))
         else if status = ''ok'' \<and> data \<noteq> None then
           [fact_obs (''crowdsec_absent.'' @ host @ ''.'') host ''crowdsec_absent'' (any_at d ''reason'') VNil
              (host @ '': CrowdSec not available ('' @ sprint (any_at d ''reason'') @ '')'') []]
         else [])"

definition nftables_obs :: "string \<Rightarrow> (string, any) gmap \<Rightarrow> observation list" where
  "nftables_obs host nft =
     (if any_at nft ''error'' \<noteq> VNil then [] else
      let tables = map sprint (list_at nft ''tables'');
          rules = f_to_int64 (num_or (any_at nft ''rule_count'') f_zero)
      in [fact_obs (''firewall_rules.'' @ host @ ''.'') host ''firewall_rules'' (VInt rules) (VStr ''rules'')
            (host @ '' firewall has '' @ int_str rules @ '' rules across '' @ join '', '' tables)
            [(''set_element_counts'', any_at nft ''set_element_counts'')]])"

definition backup_target_obs :: "string \<Rightarrow> (string, any) gmap \<Rightarrow> observation list" where
  "backup_target_obs host target =
     (if \<not> bool_or (any_at target ''quota_supported'') \<or> any_at target ''used_percent'' = VNil then [] else
      let used = num_or (any_at target ''used_percent'') f_zero;
          free = f_div (num_or (any_at target ''free_bytes'') f_zero) gib;
          name = sprint (any_at target ''name'')
      in [fact_obs (''backup_target_usage.'' @ host @ ''.'' @ name) host ''backup_target_usage''
            (VF64 used) (VStr ''percent'')
            (''backup target '' @ name @ '' is '' @ fmt_fixed 1 used @ ''% full ('' @ fmt_fixed 0 free @ '' GiB free)'')
            [(''kind'', any_at target ''kind''), (''total_bytes'', any_at target ''total_bytes''),
             (''free_bytes'', any_at target ''free_bytes'')]])"

definition kernel_obs :: "string \<Rightarrow> (string, any) gmap \<Rightarrow> observation list" where
  "kernel_obs host data =
     (let serious = f_to_int64 (num_or (any_at data ''serious_count'') f_zero)
      in if \<not> bool_or (any_at data ''available'') \<or> serious \<le> 0 then [] else
         [fact_obs (''kernel_storage_errors.'' @ host @ ''.'') host ''kernel_storage_errors''
            (VInt serious) (VStr ''messages'')
            (host @ '': '' @ int_str serious @ '' kernel message(s) indicating disk, filesystem or memory trouble'')
            [(''sample'', VList (first_n 5 (list_at data ''serious_sample'')))]])"

definition clock_obs :: "string \<Rightarrow> (string, any) gmap \<Rightarrow> observation list" where
  "clock_obs host data =
     (if \<not> bool_or (any_at data ''available'') then [] else
      let synchronised = (case mget data ''synchronised'' of None \<Rightarrow> True | Some v \<Rightarrow> bool_or v);
          source = any_at data ''source'';
          reason = (if any_at data ''reason'' = VNil then source else any_at data ''reason'');
          offset = num_or (any_at data ''offset_seconds'') f_zero
      in if \<not> synchronised then
           [fact_obs (''time_unsynchronised.'' @ host @ ''.'') host ''time_unsynchronised''
              (any_or source ''unknown'') VNil
              (host @ '': clock is not synchronised ('' @ sprint reason @ '')'') [(''source'', source)]]
         else if any_at data ''offset_seconds'' \<noteq> VNil then
           [fact_obs (''time_offset.'' @ host @ ''.'') host ''time_offset'' (VF64 (round3 offset)) (VStr ''seconds'')
              (host @ '' clock offset '' @ fmt_fixed 3 offset @ ''s ('' @ sprint source @ '', stratum '' @
               sprint (any_at data ''stratum'') @ '')'') [(''source'', source)]]
         else [])"

section \<open>Backups\<close>

definition failed_service_obs :: "string \<Rightarrow> any \<Rightarrow> observation" where
  "failed_service_obs host s =
     fact_obs (''backup_service_failed.'' @ host @ ''.'' @ sprint s) host ''backup_service_failed'' (VStr (sprint s)) VNil
       (host @ '': backup of '' @ sprint s @ '' failed'') []"

definition backup_outcome_obs :: "string \<Rightarrow> (string, any) gmap \<Rightarrow> observation list" where
  "backup_outcome_obs host data =
     (if bool_or (any_at data ''completed'') then
        let failed = list_at data ''failed_services'';
            critical = f_to_int64 (num_or (any_at data ''critical_failures'') f_zero);
            non_critical = f_to_int64 (num_or (any_at data ''non_critical_failures'') f_zero)
        in fact_obs (''backup_failures.'' @ host @ ''.'') host ''backup_failures'' (VInt critical) (VStr ''critical_failures'')
             (host @ '' backup: '' @ int_str critical @ '' critical, '' @ int_str non_critical @ '' non-critical failures'' @
              (if failed = [] then [] else '' ('' @ join '', '' (map sprint failed) @ '')''))
             [(''failed_services'', VList failed)]
           # map (failed_service_obs host) failed
      else if bool_or (any_at data ''still_running'') then
        [fact_obs (''backup_in_progress.'' @ host @ ''.'') host ''backup_in_progress'' (VBool True) VNil
           (host @ '': backup log has no summary yet but was updated in the last 15 minutes - still running'')
           [(''file'', any_at data ''file'')]]
      else
        [fact_obs (''backup_incomplete.'' @ host @ ''.'') host ''backup_incomplete'' (VBool True) VNil
           (host @ '': last backup log has no summary - the run did not finish'')
           [(''file'', any_at data ''file'')]])"

definition backup_obs :: "string \<Rightarrow> (string, any) gmap \<Rightarrow> observation list" where
  "backup_obs host data =
     (if bool_or (any_at data ''available'') then
        let age_h = f_div (num_or (any_at data ''age_seconds'') f_zero) (f_num 3600)
        in fact_obs (''backup_age.'' @ host @ ''.'') host ''backup_age'' (VF64 (round1 age_h)) (VStr ''hours'')
             (host @ '' last backup ran '' @ fmt_fixed 1 age_h @ '' hours ago'') [(''file'', any_at data ''file'')]
           # backup_outcome_obs host data
      else
        [fact_obs (''backup_missing.'' @ host @ ''.'') host ''backup_missing'' (any_at data ''reason'') VNil
           (host @ '': no backup log found ('' @ sprint (any_at data ''reason'') @ '')'') []])"

definition stale_obs :: "gtime \<Rightarrow> string \<Rightarrow> any \<Rightarrow> int \<Rightarrow> string \<Rightarrow> string \<Rightarrow> f64 \<Rightarrow> string \<Rightarrow> observation list" where
  \<comment> \<open>the two blocks \<^verbatim>\<open>if stale, updatedAt := verificationStale(...); stale { ... }\<close>\<close>
  "stale_obs now host updated_at max_age kind check_name age_hours age_text =
     (let (stale, stamp) = verification_stale now updated_at max_age
      in if \<not> stale then [] else
         [fact_obs (kind @ ''.'' @ host @ ''.'') host kind (VStr stamp) VNil
            (host @ '' backup '' @ check_name @ '' verification is older than '' @ age_text)
            [(''updated_at'', VStr stamp), (''max_age_hours'', VF64 age_hours)]])"

definition state_obs :: "string \<Rightarrow> (string, any) gmap \<Rightarrow> string \<Rightarrow> string \<Rightarrow> observation" where
  "state_obs host check kind check_name =
     fact_obs (kind @ ''.'' @ host @ ''.'') host kind (VStr (sprint (any_at check ''state''))) VNil
       (host @ '' backup '' @ check_name @ '' verification: '' @ sprint (any_at check ''state''))
       [(''updated_at'', any_at check ''updated_at''), (''results'', any_at check ''results'')]"

definition integrity_of :: "(string, any) gmap \<Rightarrow> (string, any) gmap" where
  "integrity_of data =
     (case Option.bind (map_at data ''checks'') (\<lambda>c. map_at c ''integrity'') of
        Some integrity \<Rightarrow> integrity | None \<Rightarrow> data)"

definition restore_of :: "(string, any) gmap \<Rightarrow> (string, any) gmap option" where
  "restore_of data = Option.bind (map_at data ''checks'') (\<lambda>c. map_at c ''restore'')"

definition failed_modes :: "(string, any) gmap \<Rightarrow> string list" where
  "failed_modes data =
     (if sprint (any_at (integrity_of data) ''state'') = ''failed'' then [''integrity''] else []) @
     (case restore_of data of None \<Rightarrow> []
      | Some restore \<Rightarrow> if sprint (any_at restore ''state'') = ''failed'' then [''restore''] else [])"

definition restore_obs :: "gtime \<Rightarrow> string \<Rightarrow> (string, any) gmap option \<Rightarrow> observation list" where
  "restore_obs now host restore =
     (case restore of
        Some r \<Rightarrow>
          state_obs host r ''backup_restore_verification'' ''restore'' #
          stale_obs now host (any_at r ''updated_at'') restore_max_age ''backup_restore_verification_stale''
            ''restore'' (f_num 840) ''840h0m0s''
      | None \<Rightarrow>
          [fact_obs (''backup_restore_verification_stale.'' @ host @ ''.'') host ''backup_restore_verification_stale''
             (VStr ''missing'') VNil (host @ '' has no recorded backup restore verification'')
             [(''max_age_hours'', VF64 (f_num 840))]])"

definition verification_obs :: "gtime \<Rightarrow> string \<Rightarrow> (string, any) gmap \<Rightarrow> observation list" where
  "verification_obs now host data =
     (if \<not> bool_or (any_at data ''available'') then [] else
      let integrity = integrity_of data; modes = failed_modes data
      in state_obs host integrity ''backup_verification'' ''integrity'' #
         stale_obs now host (any_at integrity ''updated_at'') integrity_max_age ''backup_verification_stale''
           ''integrity'' (f_num 192) ''192h0m0s'' @
         restore_obs now host (restore_of data) @
         (if modes = [] then [] else
          [fact_obs (''backup_verification_failed.'' @ host @ ''.'') host ''backup_verification_failed'' (VBool True) VNil
             (host @ '' backup verification failed ('' @ join '', '' modes @ '')'')
             [(''failed_modes'', VList (map VStr modes))]]))"

definition of_section :: "('a \<Rightarrow> observation list) \<Rightarrow> 'a option \<Rightarrow> observation list" where
  "of_section f s = (case s of None \<Rightarrow> [] | Some data \<Rightarrow> f data)"

definition data_of :: "(string, any) gmap \<Rightarrow> string \<Rightarrow> (string, any) gmap option" where
  \<comment> \<open>\<^verbatim>\<open>sections[name].(map[string]any)["data"].(map[string]any)\<close>, whatever the status\<close>
  "data_of sections name = Option.bind (map_at sections name) (\<lambda>s. map_at s ''data'')"

definition rocky_observations :: "gtime \<Rightarrow> string \<Rightarrow> (string, any) gmap \<Rightarrow> observation list" where
  "rocky_observations now host sections =
     of_section (security_updates_obs host) (section_of sections ''security_updates'') @
     of_section (crowdsec_obs now host) (map_at sections ''crowdsec'') @
     of_section (nftables_obs host) (section_of sections ''nftables'') @
     of_section (\<lambda>targets. concat (map (backup_target_obs host) (maps_of (list_at targets ''targets''))))
       (section_of sections ''backup_targets'') @
     of_section (kernel_obs host) (data_of sections ''kernel_errors'') @
     of_section (clock_obs host) (data_of sections ''time_sync'') @
     of_section (backup_obs host) (data_of sections ''backup'') @
     of_section (verification_obs now host) (data_of sections ''backup_verification'')"

section \<open>Storage of the backup NAS\<close>

definition history_obs :: "string \<Rightarrow> (string, any) gmap \<Rightarrow> observation list" where
  "history_obs host history =
     (let state = str_at history ''state'' in
      fact_obs (''backup_history.'' @ host @ ''.'') host ''backup_history'' (VStr state) VNil
        (host @ '' backup history target: '' @ state @ '' ('' @ sprint (any_at history ''snapshot_count'') @
         '' snapshots, '' @ fmt_fixed 1 (num_or (any_at history ''free_percent'') f_zero) @ ''% free)'') history #
      (if state = ''ready'' then [] else
       [fact_obs (''backup_history_failed.'' @ host @ ''.'') host ''backup_history_failed'' (VStr state) VNil
          (host @ '' backup history target is not ready'') history]))"

definition mdraid_obs :: "string \<Rightarrow> (string, any) gmap \<Rightarrow> observation list" where
  "mdraid_obs host array =
     (if \<not> bool_or (any_at array ''degraded'') then [] else
      [fact_obs (''mdraid_degraded.'' @ host @ ''.'' @ sprint (any_at array ''array'')) host ''mdraid_degraded''
         (any_at array ''status'') VNil
         (host @ '': mdraid array '' @ sprint (any_at array ''array'') @ '' is degraded ('' @
          sprint (any_at array ''members'') @ '', status '' @ sprint (any_at array ''status'') @ '')'') array])"

definition lvm_obs :: "string \<Rightarrow> (string, any) gmap \<Rightarrow> observation list" where
  "lvm_obs host lv =
     (if any_at lv ''data_percent'' = VNil then [] else
      let percent = num_or (any_at lv ''data_percent'') f_zero; vg = sprint (any_at lv ''vg''); name = sprint (any_at lv ''lv'')
      in [fact_obs (''lvm_usage.'' @ host @ ''.'' @ vg @ ''-'' @ name) host ''lvm_usage'' (VF64 (round1 percent)) (VStr ''percent'')
            (host @ '': LV '' @ vg @ ''/'' @ name @ '' is '' @ fmt_fixed 1 percent @ ''% full'') lv])"

definition ugreen_observations :: "string \<Rightarrow> (string, any) gmap \<Rightarrow> observation list" where
  "ugreen_observations host sections =
     of_section (history_obs host) (section_of sections ''backup_history'') @
     of_section (\<lambda>storage. concat (map (mdraid_obs host) (maps_of (list_at storage ''mdraid''))) @
                           concat (map (lvm_obs host) (maps_of (list_at storage ''lvm''))))
       (section_of sections ''ugreen_storage'')"

section \<open>Unraid\<close>

definition disk_obs :: "string \<Rightarrow> (string, any) gmap \<Rightarrow> observation" where
  "disk_obs host disk =
     (let status = any_at disk ''status'';
          id_part = (if any_at disk ''name'' = VNil then any_at disk ''slot'' else any_at disk ''name'')
      in fact_obs (''array_disk.'' @ host @ ''.'' @ sprint id_part) host ''array_disk'' status VNil
           (host @ '' disk '' @ sprint (any_at disk ''name'') @ '' is '' @ sprint status)
           [(''id'', any_at disk ''id'')])"

definition array_obs :: "string \<Rightarrow> (string, any) gmap \<Rightarrow> observation list" where
  "array_obs host array =
     (let disks = list_at array ''disks''; age = num_or (any_at array ''last_check_age_seconds'') f_zero;
          days = f_div age (f_num 86400)
      in [fact_obs (''array_state.'' @ host @ ''.'') host ''array_state'' (any_at array ''state'') VNil
            (host @ '' array is '' @ sprint (any_at array ''state'')) [(''disks'', VInt (length disks))],
          fact_obs (''parity_sync_errors.'' @ host @ ''.'') host ''parity_sync_errors''
            (VF64 (num_or (any_at array ''sync_errors'') f_zero)) (VStr ''errors'')
            (host @ '' parity reports '' @ sprint (any_at array ''sync_errors'') @ '' sync errors'') []] @
         (if any_at array ''last_check_age_seconds'' = VNil \<or> f_eq age f_zero then [] else
          [fact_obs (''parity_check_age.'' @ host @ ''.'') host ''parity_check_age'' (VF64 (round1 days)) (VStr ''days'')
             (host @ '' last parity check finished '' @ fmt_fixed 1 days @ '' days ago'')
             [(''exit_code'', any_at array ''sync_exit_code'')]]) @
         map (disk_obs host) (maps_of disks))"

definition field_label :: "string \<Rightarrow> string" where
  "field_label field = map (\<lambda>c. if c = CHR ''_'' then CHR '' '' else c) field"

definition smart_field_obs :: "string \<Rightarrow> (string, any) gmap \<Rightarrow> string \<Rightarrow> observation list" where
  "smart_field_obs host device field =
     (let val = any_at device field;
          name = (if any_at device ''device'' = VNil then ''unknown'' else sprint (any_at device ''device''))
      in if val = VNil then [] else
         [fact_obs (field @ ''.'' @ host @ ''.'' @ name) host field val (VStr ''sectors'')
            (host @ '' '' @ name @ '' '' @ field_label field @ '': '' @ sprint val)
            [(''model'', any_at device ''model'')]])"

definition smart_obs :: "string \<Rightarrow> (string, any) gmap \<Rightarrow> observation list" where
  "smart_obs host device =
     (if any_at device ''error'' \<noteq> VNil then []
      else concat (map (smart_field_obs host device) [''reallocated_sectors'', ''pending_sectors'']))"

definition docker_image_obs :: "string \<Rightarrow> (string, any) gmap \<Rightarrow> observation list" where
  "docker_image_obs host img =
     (if any_at img ''used_percent'' = VNil then [] else
      let used = num_or (any_at img ''used_percent'') f_zero
      in [fact_obs (''docker_image_usage.'' @ host @ ''.'') host ''docker_image_usage'' (VF64 used) (VStr ''percent'')
            (host @ '' docker.img is '' @ fmt_fixed 1 used @ ''% full'') [(''path'', any_at img ''image_path'')]])"

text \<open>
  Notifications.  The unread ones are grouped by event and importance, in a map with the list of its
  keys: the keys of an association list.  A group other than of normal importance is skipped when a
  normal notification of the same event is at least as late as the group's latest.
\<close>

record note_group =
  ng_count :: nat
  ng_subject :: string
  ng_description :: string
  ng_max_ts :: f64

type_synonym note_groups = "(string \<times> string, note_group) gmap"

definition float_or_zero :: "string \<Rightarrow> f64" where
  \<comment> \<open>the value of \<^verbatim>\<open>strconv.ParseFloat\<close> with its error dropped: out of range gives an infinity\<close>
  "float_or_zero s =
     (case parse_float s of Some x \<Rightarrow> x
      | None \<Rightarrow> (let (neg, u) = strip_sign s
                in case parse_decimal u of None \<Rightarrow> f_zero | Some r \<Rightarrow> mk_f64 neg r))"

definition note_event :: "(string, any) gmap \<Rightarrow> string" where
  "note_event note = or_default (str_at note ''event'') ''notification''"

definition note_importance :: "(string, any) gmap \<Rightarrow> string" where
  "note_importance note = or_default (str_at note ''importance'') ''normal''"

definition note_ts :: "(string, any) gmap \<Rightarrow> f64" where
  "note_ts note = float_or_zero (sprint (any_at note ''timestamp''))"

definition later :: "f64 \<Rightarrow> f64 \<Rightarrow> f64" where
  \<comment> \<open>\<^verbatim>\<open>if ts > max { max = ts }\<close>\<close>
  "later ts m = (if f_gt ts m then ts else m)"

definition at_zero :: "(string, f64) gmap \<Rightarrow> string \<Rightarrow> f64" where
  "at_zero m k = (case mget m k of Some x \<Rightarrow> x | None \<Rightarrow> f_zero)"

definition new_group :: "(string, any) gmap \<Rightarrow> note_group" where
  "new_group note =
     \<lparr>ng_count = 0, ng_subject = or_default (str_at note ''subject'') ''?'',
      ng_description = str_at note ''description'', ng_max_ts = f_zero\<rparr>"

definition group_round ::
  "(string, any) gmap \<Rightarrow> note_groups \<times> (string, f64) gmap \<Rightarrow> note_groups \<times> (string, f64) gmap" where
  "group_round note = (\<lambda>(groups, normal_max).
     let event = note_event note; importance = note_importance note; ts = note_ts note;
         entry = (case mget groups (event, importance) of Some e \<Rightarrow> e | None \<Rightarrow> new_group note);
         entry' = entry\<lparr>ng_count := Suc (ng_count entry), ng_max_ts := later ts (ng_max_ts entry)\<rparr>
     in (mput (event, importance) entry' groups,
         if importance = ''normal'' \<and> f_gt ts (at_zero normal_max event) then mput event ts normal_max else normal_max))"

definition group_notes :: "(string, any) gmap list \<Rightarrow> note_groups \<times> (string, f64) gmap" where
  "group_notes notes = fold group_round notes ([], [])"

definition superseded :: "(string, f64) gmap \<Rightarrow> string \<times> string \<Rightarrow> note_group \<Rightarrow> bool" where
  "superseded normal_max key entry \<longleftrightarrow>
     snd key \<noteq> ''normal'' \<and> f_ge (at_zero normal_max (fst key)) (ng_max_ts entry)"

definition group_obs :: "string \<Rightarrow> string \<times> string \<Rightarrow> note_group \<Rightarrow> observation" where
  "group_obs host key entry =
     fact_obs (''unraid_notification.'' @ host @ ''.'' @ fst key @ ''/'' @ snd key) host ''unraid_notification''
       (VStr (snd key)) VNil
       (host @ '' notification: '' @ ng_subject entry @ '' - '' @ cut_to 120 (ng_description entry) @
        (if ng_count entry = 1 then [] else '' (x'' @ int_str (ng_count entry) @ '' unread)''))
       [(''event'', VStr (fst key)), (''importance'', VStr (snd key)), (''unread'', VInt (ng_count entry))]"

definition notification_obs :: "string \<Rightarrow> any list \<Rightarrow> observation list" where
  "notification_obs host notes =
     (let (groups, normal_max) = group_notes (maps_of notes)
      in concat (map (\<lambda>key. case mget groups key of None \<Rightarrow> []
                 | Some entry \<Rightarrow> if superseded normal_max key entry then [] else [group_obs host key entry])
           (sorted_keys groups)))"

definition notifications_of :: "(string, any) gmap \<Rightarrow> any list option" where
  "notifications_of sections =
     (case map_at sections ''unraid_notifications'' of None \<Rightarrow> None
      | Some s \<Rightarrow> if str_at s ''status'' = ''ok'' then Some (list_at s ''data'') else None)"

text \<open>Backup coverage: the children of a watched directory; an entry that is no list has none.\<close>

definition drift_obs :: "string \<Rightarrow> string \<Rightarrow> string \<Rightarrow> observation" where
  "drift_obs host base path =
     fact_obs (''backup_drift.'' @ host @ ''.'' @ path) host ''backup_drift'' (VStr path) VNil
       (host @ '': '' @ path @ '' is not backed up and not on the excluded list'') [(''watch_dir'', VStr base)]"

definition covered :: "config \<Rightarrow> (string, any) gmap \<Rightarrow> string \<Rightarrow> bool" where
  "covered cfg watched path \<longleftrightarrow>
     mhas watched path \<or> path \<in> set (backup_known_paths cfg) \<or> path \<in> set (backup_excluded_paths cfg)"

definition watched_obs :: "config \<Rightarrow> string \<Rightarrow> (string, any) gmap \<Rightarrow> observation list" where
  "watched_obs cfg host watched =
     concat (map (\<lambda>base.
         map (drift_obs host base)
           (filter (\<lambda>path. \<not> covered cfg watched path)
              (map (\<lambda>c. base @ ''/'' @ sprint c) (list_at watched base))))
       (sorted_keys watched))"

definition smart_section :: "(string, any) gmap \<Rightarrow> (string, any) gmap option" where
  "smart_section sections =
     (case section_of sections ''smart'' of Some s \<Rightarrow> Some s | None \<Rightarrow> section_of sections ''unraid_smart'')"

definition unraid_observations :: "config \<Rightarrow> string \<Rightarrow> (string, any) gmap \<Rightarrow> observation list" where
  "unraid_observations cfg host sections =
     of_section (array_obs host) (section_of sections ''unraid_array'') @
     of_section (\<lambda>smart. concat (map (smart_obs host) (maps_of (list_at smart ''devices'')))) (smart_section sections) @
     of_section (docker_image_obs host) (section_of sections ''unraid_docker_image'') @
     of_section (notification_obs host) (notifications_of sections) @
     of_section (watched_obs cfg host) (section_of sections ''watched_dirs'')"

section \<open>The collector\<close>

definition fact_targets :: "facts_world \<Rightarrow> config \<Rightarrow> (string, string) gmap" where
  "fact_targets w cfg =
     (if \<not> mhas (ssh_hosts cfg) (local_host cfg) \<and> local_host cfg \<noteq> [] \<and> fw_bin_exists w (local_facts_bin cfg)
      then mput (local_host cfg) ''local'' (ssh_hosts cfg) else ssh_hosts cfg)"

definition unreachable_obs :: "string \<Rightarrow> string \<Rightarrow> observation" where
  "unreachable_obs host err =
     fact_obs (''facts_unreachable.'' @ host @ ''.'') host ''facts_unreachable'' (VStr (cut_to 200 err)) VNil
       (''could not read host facts from '' @ host) [(''error'', VStr (cut_to 300 err))]"

definition section_failed_obs :: "string \<Rightarrow> (string, any) gmap \<Rightarrow> string \<Rightarrow> observation list" where
  "section_failed_obs host sections name =
     (let s = nil_map (map_at sections name); err = any_at s ''error''
      in if str_at s ''status'' = ''ok'' then [] else
         [fact_obs (''facts_section_failed.'' @ host @ ''.'' @ name) host ''facts_section_failed'' (VStr name) VNil
            (host @ '': facts section '' @ name @ '' failed: '' @ sprint err) [(''error'', err)]])"

definition host_observations :: "gtime \<Rightarrow> config \<Rightarrow> string \<Rightarrow> (string, any) gmap \<Rightarrow> observation list" where
  "host_observations now cfg host payload =
     (let sections = nil_map (map_at payload ''sections'')
      in rocky_observations now host sections @ unraid_observations cfg host sections @
         ugreen_observations host sections @
         concat (map (section_failed_obs host sections) (sorted_keys sections)))"

definition fetched :: "facts_world \<Rightarrow> config \<Rightarrow> (string \<times> (string + (string, any) gmap)) list" where
  "fetched w cfg =
     (let targets = fact_targets w cfg
      in map (\<lambda>host. (host, fetch_facts w cfg host (the (mget targets host)))) (sorted_keys targets))"

definition fetch_errors :: "(string \<times> (string + (string, any) gmap)) list \<Rightarrow> (string, string) gmap" where
  "fetch_errors rs = concat (map (\<lambda>(host, r). case r of Inl err \<Rightarrow> [(host, cut_to 300 err)] | Inr _ \<Rightarrow> []) rs)"

definition fetch_payloads :: "(string \<times> (string + (string, any) gmap)) list \<Rightarrow> (string, (string, any) gmap) gmap" where
  "fetch_payloads rs = concat (map (\<lambda>(host, r). case r of Inl _ \<Rightarrow> [] | Inr p \<Rightarrow> [(host, p)]) rs)"

definition fetch_observations :: "(string \<times> (string + (string, any) gmap)) list \<Rightarrow> observation list" where
  "fetch_observations rs = concat (map (\<lambda>(host, r). case r of Inl err \<Rightarrow> [unreachable_obs host err] | Inr _ \<Rightarrow> []) rs)"

definition collect_ssh_facts :: "facts_world \<Rightarrow> config \<Rightarrow> collector_data collector_result" where
  "collect_ssh_facts w cfg =
     (let result = new_collector_result ''ssh_facts'';
          rs = fetched w cfg; errors = fetch_errors rs; payloads = fetch_payloads rs
      in if fact_targets w cfg = [] then
           result\<lparr>c_status := ''unavailable'',
                  c_error := ''no facts endpoints configured (HEALTHREPORT_SSH_HOSTS)''\<rparr>
         else result\<lparr>
           c_status := (if errors \<noteq> [] \<and> payloads = [] then ''error'' else ''ok''),
           c_error := join ''; '' (map (\<lambda>(h, e). h @ '': '' @ e) errors),
           c_data := Some (DSSHFacts \<lparr>sf_hosts = map fst payloads, sf_errors = errors, sf_payloads = payloads\<rparr>),
           c_observations := fetch_observations rs @
             concat (map (\<lambda>(host, p). host_observations (fw_now w) cfg host p) payloads)\<rparr>)"

section \<open>Lemmas\<close>

text \<open>What the grouping of the notifications amounts to, for one group at a time.\<close>

definition note_key :: "(string, any) gmap \<Rightarrow> string \<times> string" where
  "note_key note = (note_event note, note_importance note)"

definition latest :: "(string, any) gmap list \<Rightarrow> f64" where
  "latest notes = fold (\<lambda>n. later (note_ts n)) notes f_zero"

definition notes_of :: "string \<times> string \<Rightarrow> (string, any) gmap list \<Rightarrow> (string, any) gmap list" where
  "notes_of key notes = filter (\<lambda>n. note_key n = key) notes"

definition group_of :: "string \<times> string \<Rightarrow> (string, any) gmap list \<Rightarrow> note_group" where
  "group_of key notes =
     (let own = notes_of key notes
      in (new_group (hd own))\<lparr>ng_count := length own, ng_max_ts := latest own\<rparr>)"

lemma latest_snoc [simp]: "latest (ns @ [n]) = later (note_ts n) (latest ns)"
  by (simp add: latest_def)

lemma notes_of_snoc [simp]:
  "notes_of key (ns @ [n]) = notes_of key ns @ (if note_key n = key then [n] else [])"
  by (simp add: notes_of_def)

lemma latest_short [simp]: "latest [] = f_zero" "latest [n] = later (note_ts n) f_zero"
  by (simp_all add: latest_def)

lemma group_notes_snoc: "group_notes (ns @ [n]) = group_round n (group_notes ns)"
  by (simp add: group_notes_def)

lemma notes_of_eq_Nil: "notes_of key ns = [] \<longleftrightarrow> key \<notin> note_key ` set ns"
  by (auto simp: notes_of_def filter_empty_conv)

lemma group_notes_groups:
  "mget (fst (group_notes ns)) key = (if key \<in> note_key ` set ns then Some (group_of key ns) else None)"
proof (induction ns rule: rev_induct)
  case (snoc n ns)
  obtain g m where gm: "group_notes ns = (g, m)" by (cases "group_notes ns")
  show ?case
  proof (cases "note_key n = key")
    case True
    then have k: "(note_event n, note_importance n) = key" by (simp add: note_key_def)
    show ?thesis
    proof (cases "notes_of key ns = []")
      case True
      with snoc gm have "mget g key = None" by (simp add: notes_of_eq_Nil)
      with True k \<open>note_key n = key\<close> show ?thesis
        by (simp add: group_notes_snoc gm group_round_def Let_def group_of_def new_group_def)
    next
      case False
      with snoc gm have "mget g key = Some (group_of key ns)" by (simp add: notes_of_eq_Nil)
      with False k \<open>note_key n = key\<close> show ?thesis
        by (simp add: group_notes_snoc gm group_round_def Let_def group_of_def new_group_def)
    qed
  next
    case False
    then have "(note_event n, note_importance n) \<noteq> key" by (simp add: note_key_def)
    with False snoc gm show ?thesis
      by (auto simp add: group_notes_snoc group_round_def Let_def group_of_def)
  qed
qed (simp add: group_notes_def)

lemma group_notes_normal: "at_zero (snd (group_notes ns)) event = latest (notes_of (event, ''normal'') ns)"
proof (induction ns rule: rev_induct)
  case (snoc n ns)
  obtain g m where gm: "group_notes ns = (g, m)" by (cases "group_notes ns")
  from snoc gm show ?case
    by (auto simp: group_notes_snoc group_round_def Let_def note_key_def at_zero_def later_def split: option.splits)
qed (simp add: group_notes_def at_zero_def notes_of_def)

lemma group_notes_ok: "map_ok (fst (group_notes ns))"
  by (induction ns rule: rev_induct)
    (auto simp: group_notes_def group_round_def Let_def split: prod.splits)

lemma sorted_groups: "sorted_keys (fst (group_notes ns)) = sorted_list_of_set (note_key ` set ns)"
proof -
  have "set (sorted_keys (fst (group_notes ns))) = note_key ` set ns"
    by (auto simp: group_notes_groups dom_def split: if_splits)
  moreover have "sorted (sorted_keys (fst (group_notes ns)))" "distinct (sorted_keys (fst (group_notes ns)))"
    by (simp_all add: group_notes_ok)
  ultimately show ?thesis by (metis sorted_list_of_set.idem_if_sorted_distinct)
qed

text \<open>The result of the grouping in terms of the notifications alone.\<close>

lemma notification_obs_eq:
  "notification_obs host raw =
     (let notes = maps_of raw
      in map (\<lambda>key. group_obs host key (group_of key notes))
           (filter (\<lambda>key. snd key = ''normal'' \<or>
                \<not> f_ge (latest (notes_of (fst key, ''normal'') notes)) (latest (notes_of key notes)))
             (sorted_list_of_set (note_key ` set notes))))"
proof -
  have *: "concat (map (\<lambda>key. case mget (fst (group_notes ns)) key of None \<Rightarrow> []
        | Some entry \<Rightarrow> if superseded (snd (group_notes ns)) key entry then [] else [group_obs host key entry]) keys) =
      map (\<lambda>key. group_obs host key (group_of key ns))
        (filter (\<lambda>key. snd key = ''normal'' \<or>
           \<not> f_ge (latest (notes_of (fst key, ''normal'') ns)) (latest (notes_of key ns))) keys)"
    if "set keys \<subseteq> note_key ` set ns" for ns keys
    using that
    by (induction keys) (simp_all add: group_notes_groups superseded_def group_notes_normal group_of_def Let_def)
  show ?thesis
    using * [of "sorted_list_of_set (note_key ` set (maps_of raw))" "maps_of raw"]
    by (simp add: notification_obs_def Let_def split_beta sorted_groups)
qed

section \<open>Properties\<close>

text \<open>
  Claim C26.  Notifications are grouped exactly: the collector reports, in the order of event and
  importance, one observation per event and importance that occurs among the unread ones, with
  their number, the texts of the first and the latest time, except the groups other than normal
  whose latest time is not after the latest normal notification of the same event.
\<close>

theorem notifications_exact:
  "notification_obs host raw =
     (let notes = maps_of raw
      in map (\<lambda>key. group_obs host key (group_of key notes))
           (filter (\<lambda>key. \<not> (snd key \<noteq> ''normal'' \<and>
                f_ge (latest (notes_of (fst key, ''normal'') notes)) (latest (notes_of key notes))))
             (sorted_list_of_set (note_key ` set notes))))"
  by (simp add: notification_obs_eq)

lemma latest_zero: "\<forall>n \<in> set ns. \<not> f_gt (note_ts n) f_zero \<Longrightarrow> latest ns = f_zero"
  by (induction ns rule: rev_induct) (auto simp: later_def)



lemma dom_mget: "dom (mget m) = fst ` set m"
  by (simp add: mkeys_def flip: mkeys_dom)

text \<open>Fetching: every target is on exactly one of the two sides.\<close>

lemma fetch_simps [simp]:
  "fetch_payloads [] = []" "fetch_errors [] = []"
  "fetch_payloads ((h, Inl e) # rs) = fetch_payloads rs"
  "fetch_payloads ((h, Inr p) # rs) = (h, p) # fetch_payloads rs"
  "fetch_errors ((h, Inl e) # rs) = (h, cut_to 300 e) # fetch_errors rs"
  "fetch_errors ((h, Inr p) # rs) = fetch_errors rs"
  by (simp_all add: fetch_payloads_def fetch_errors_def)

lemma fetch_induct [case_names Nil Error Payload]:
  assumes "P []" "\<And>h e rs. P rs \<Longrightarrow> P ((h, Inl e) # rs)" "\<And>h p rs. P rs \<Longrightarrow> P ((h, Inr p) # rs)"
  shows "P rs"
proof (induction rs)
  case (Cons x rs)
  obtain h r where "x = (h, r)" by (cases x)
  with Cons assms(2,3) show ?case by (cases r) auto
qed (rule assms(1))

lemma in_fetch_payloads: "(h, p) \<in> set (fetch_payloads rs) \<longleftrightarrow> (h, Inr p) \<in> set rs"
  by (induction rs rule: fetch_induct) auto

lemma in_fetch_errors: "(h, e) \<in> set (fetch_errors rs) \<longleftrightarrow> (\<exists>err. (h, Inl err) \<in> set rs \<and> e = cut_to 300 err)"
  by (induction rs rule: fetch_induct) auto

lemma fst_fetch: "fst ` set (fetch_payloads rs) \<union> fst ` set (fetch_errors rs) = fst ` set rs"
  by (induction rs rule: fetch_induct) auto

lemma distinct_fetch:
  assumes "distinct (map fst rs)"
  shows "distinct (map fst (fetch_payloads rs))" "distinct (map fst (fetch_errors rs))"
proof -
  have "distinct (map fst (fetch_payloads rs)) \<and> distinct (map fst (fetch_errors rs))"
    using assms
  proof (induction rs rule: fetch_induct)
    case (Error h e rs)
    then show ?case using fst_fetch [of rs] by auto
  next
    case (Payload h p rs)
    then show ?case using fst_fetch [of rs] by auto
  qed simp
  then show "distinct (map fst (fetch_payloads rs))" "distinct (map fst (fetch_errors rs))" by simp_all
qed

lemma fetched_keys: "map fst (fetched w cfg) = sorted_keys (fact_targets w cfg)"
  by (simp add: fetched_def Let_def comp_def)

lemma map_ok_targets: "map_ok (ssh_hosts cfg) \<Longrightarrow> map_ok (fact_targets w cfg)"
  by (auto simp: fact_targets_def)

text \<open>
  Claim C28.  The collector of host facts accounts for every configured host: it has either the facts
  of the host or an error, never both; each error is an observation, and so is every section of the
  facts that did not succeed.  The result is an error exactly when no host gave any facts.
\<close>

theorem every_host_accounted:
  assumes "map_ok (ssh_hosts cfg)" "fact_targets w cfg \<noteq> []"
  shows "\<exists>d. c_data (collect_ssh_facts w cfg) = Some (DSSHFacts d) \<and>
    dom (mget (sf_payloads d)) \<union> dom (mget (sf_errors d)) = dom (mget (fact_targets w cfg)) \<and>
    dom (mget (sf_payloads d)) \<inter> dom (mget (sf_errors d)) = {} \<and>
    (c_status (collect_ssh_facts w cfg) = ''error'' \<longleftrightarrow> sf_payloads d = []) \<and>
    (\<forall>host \<in> dom (mget (sf_errors d)).
       ''facts_unreachable.'' @ host @ ''.'' \<in> o_id ` set (c_observations (collect_ssh_facts w cfg))) \<and>
    (\<forall>host p sections name. mget (sf_payloads d) host = Some p \<longrightarrow> map_at p ''sections'' = Some sections \<longrightarrow>
       mhas sections name \<longrightarrow> str_at (nil_map (map_at sections name)) ''status'' \<noteq> ''ok'' \<longrightarrow>
       ''facts_section_failed.'' @ host @ ''.'' @ name \<in> o_id ` set (c_observations (collect_ssh_facts w cfg)))"
proof -
  define rs where "rs = fetched w cfg"
  let ?d = "\<lparr>sf_hosts = map fst (fetch_payloads rs), sf_errors = fetch_errors rs, sf_payloads = fetch_payloads rs\<rparr>"
  let ?r = "collect_ssh_facts w cfg"
  have dist: "distinct (map fst rs)"
    using map_ok_targets [OF assms(1)] by (simp add: rs_def fetched_keys)
  have keys: "fst ` set rs = dom (mget (fact_targets w cfg))"
    unfolding rs_def set_map [symmetric] fetched_keys by simp
  have pay: "mget (fetch_payloads rs) h = Some p \<longleftrightarrow> (h, Inr p) \<in> set rs" for h p
    using distinct_fetch(1) [OF dist] by (simp add: mget_def in_fetch_payloads map_of_eq_Some_iff)
  have ne: "rs \<noteq> []" using assms(2) keys by (auto simp: dom_mget)
  have obs: "c_observations ?r = fetch_observations rs @
      concat (map (\<lambda>(host, p). host_observations (fw_now w) cfg host p) (fetch_payloads rs))"
    and st: "c_status ?r = (if fetch_errors rs \<noteq> [] \<and> fetch_payloads rs = [] then ''error'' else ''ok'')"
    and dat: "c_data ?r = Some (DSSHFacts ?d)"
    using assms(2) by (simp_all add: collect_ssh_facts_def rs_def Let_def)
  have "c_status ?r = ''error'' \<longleftrightarrow> fetch_payloads rs = []"
    using fst_fetch [of rs] ne by (auto simp: st)
  moreover have "dom (mget (fetch_payloads rs)) \<inter> dom (mget (fetch_errors rs)) = {}"
    using eq_key_imp_eq_value [OF dist] by (auto simp: dom_mget in_fetch_payloads in_fetch_errors) blast
  moreover have "''facts_unreachable.'' @ h @ ''.'' \<in> o_id ` set (c_observations ?r)"
    if "h \<in> dom (mget (fetch_errors rs))" for h
  proof -
    from that obtain err where "(h, Inl err) \<in> set rs" by (auto simp: dom_mget in_fetch_errors)
    then have "unreachable_obs h err \<in> set (c_observations ?r)"
      by (force simp: obs fetch_observations_def)
    moreover have "o_id (unreachable_obs h err) = ''facts_unreachable.'' @ h @ ''.''"
      by (simp add: unreachable_obs_def fact_obs_def)
    ultimately show ?thesis by (metis image_eqI)
  qed
  moreover have "''facts_section_failed.'' @ h @ ''.'' @ name \<in> o_id ` set (c_observations ?r)"
    if "mget (fetch_payloads rs) h = Some p" "map_at p ''sections'' = Some sections" "mhas sections name"
      "str_at (nil_map (map_at sections name)) ''status'' \<noteq> ''ok''" for h p sections name
  proof -
    have "(h, p) \<in> set (fetch_payloads rs)" using that(1) by (simp add: pay in_fetch_payloads)
    then have "set (host_observations (fw_now w) cfg h p) \<subseteq> set (c_observations ?r)" by (auto simp: obs)
    moreover have "name \<in> set (sorted_keys sections)" using that(3) by (simp add: mhas_iff)
    then have "set (section_failed_obs h sections name) \<subseteq> set (host_observations (fw_now w) cfg h p)"
      using that(2) by (auto simp: host_observations_def nil_map_def)
    ultimately show ?thesis
      using that(4) by (force simp: section_failed_obs_def Let_def fact_obs_def image_iff)
  qed
  moreover have "dom (mget (fetch_payloads rs)) \<union> dom (mget (fetch_errors rs)) = dom (mget (fact_targets w cfg))"
    unfolding keys [symmetric] fst_fetch [symmetric] by (simp add: dom_mget)
  ultimately show ?thesis
    by (intro exI [of _ ?d]) (simp add: dat)
qed

theorem every_host_accounted_witness:
  "let w = \<lparr>fw_run = \<lambda>_. Failed ''status 255'' ''timeout'', fw_decode = \<lambda>_. Inl [], fw_bin_exists = \<lambda>_. False,
            fw_now = \<lparr>t_ns = 0, t_zone = utc\<rparr>\<rparr>;
       cfg = default_config\<lparr>ssh_hosts := [(''nas'', ''nas.lan'')]\<rparr>
   in \<exists>d. c_data (collect_ssh_facts w cfg) = Some (DSSHFacts d) \<and> dom (mget (sf_payloads d)) \<union> dom (mget (sf_errors d)) = {''nas''}"
proof -
  define w where "w = \<lparr>fw_run = \<lambda>_. Failed ''status 255'' ''timeout'', fw_decode = \<lambda>_. Inl [], fw_bin_exists = \<lambda>_. False,
            fw_now = \<lparr>t_ns = 0, t_zone = utc\<rparr>\<rparr>"
  define cfg where "cfg = default_config\<lparr>ssh_hosts := [(''nas'', ''nas.lan'')]\<rparr>"
  have t: "fact_targets w cfg = [(''nas'', ''nas.lan'')]"
    by (simp add: fact_targets_def cfg_def w_def default_config_def)
  have ok: "map_ok (ssh_hosts cfg)" by (simp add: cfg_def map_ok_def mkeys_def)
  have ne: "fact_targets w cfg \<noteq> []" by (simp add: t)
  have hosts: "dom (mget (fact_targets w cfg)) = {''nas''}" by (simp add: t dom_mget)
  show ?thesis
    unfolding Let_def w_def [symmetric] cfg_def [symmetric] hosts [symmetric]
    using every_host_accounted [OF ok ne] by (rule ex_forward) (elim conjE, intro conjI)
qed

definition fresh :: "gtime \<Rightarrow> any \<Rightarrow> int \<Rightarrow> bool" where
  "fresh now updated_at max_age \<longleftrightarrow>
     (\<exists>t. parse_rfc3339 utc (sprint updated_at) = Some t \<and> t_sub now t \<le> max_age)"

lemma verification_stale_iff: "fst (verification_stale now v age) \<longleftrightarrow> \<not> fresh now v age"
  by (auto simp: verification_stale_def fresh_def Let_def split: option.splits)

lemma stale_obs_Nil: "stale_obs now host v age k c h t = [] \<longleftrightarrow> fresh now v age"
  using verification_stale_iff [of now v age] by (auto simp: stale_obs_def split: prod.splits)

lemma stale_obs_kind: "kind_only j (stale_obs now host v age k c h t) = (if j = k then stale_obs now host v age k c h t else [])"
  by (auto simp: stale_obs_def fact_obs_def split: prod.splits)

text \<open>
  Claim C27.  The alarms of the backup verification fail safe.  For a host with a verification
  record: the failure alarm is silent exactly when neither the integrity check nor the restore check
  says \<open>failed\<close>, the staleness alarm only when the integrity check carries a readable time at most
  8 days old, and the restore alarm only when there is a restore check with a readable time at
  most 35 days old.
\<close>

theorem verification_alarms:
  assumes "bool_or (any_at data ''available'')"
  shows "let obs = verification_obs now host data; silent = (\<lambda>kind. kind_only kind obs = []);
      state = (\<lambda>check. sprint (any_at check ''state'')); when = (\<lambda>check. any_at check ''updated_at'') in
    (silent ''backup_verification_failed'' \<longleftrightarrow>
       state (integrity_of data) \<noteq> ''failed'' \<and> (\<forall>r. restore_of data = Some r \<longrightarrow> state r \<noteq> ''failed'')) \<and>
    (silent ''backup_verification_stale'' \<longleftrightarrow> fresh now (when (integrity_of data)) (8 * 24 * 3600 * 10 ^ 9)) \<and>
    (silent ''backup_restore_verification_stale'' \<longleftrightarrow>
       (\<exists>r. restore_of data = Some r \<and> fresh now (when r) (35 * 24 * 3600 * 10 ^ 9)))"
proof (cases "restore_of data")
  case None
  with assms show ?thesis
    by (simp add: verification_obs_def Let_def restore_obs_def state_obs_def fact_obs_def stale_obs_kind stale_obs_Nil
        failed_modes_def integrity_max_age_def)
next
  case (Some r)
  with assms show ?thesis
    by (simp add: verification_obs_def Let_def restore_obs_def state_obs_def fact_obs_def stale_obs_kind stale_obs_Nil
        failed_modes_def integrity_max_age_def restore_max_age_def)
qed

theorem verification_alarms_witness:
  "kind_only ''backup_restore_verification_stale''
     (verification_obs \<lparr>t_ns = 0, t_zone = utc\<rparr> ''nas'' [(''available'', VBool True), (''state'', VStr ''ok'')]) \<noteq> []"
  using verification_alarms [of "[(''available'', VBool True), (''state'', VStr ''ok'')]" "\<lparr>t_ns = 0, t_zone = utc\<rparr>" "''nas''"]
  by (simp add: Let_def restore_of_def map_at_def as_map_def)

text \<open>
   The collector and the state table read the same facts: a backup target of a reachable
  host with a quota and a percentage becomes an observation with this percentage, and is listed
  with it among the backup targets of any report on these facts.
\<close>

theorem backup_target_agrees:
  assumes "collector_data_of facts ''ssh_facts'' = Some (DSSHFacts d)"
    and "mget (sf_payloads d) host = Some p" "facts_section p ''backup_targets'' = Some data"
    and "VMap target \<in> set (list_at data ''targets'')" "any_at target ''quota_supported'' = VBool True"
    and "mget target ''used_percent'' = Some (VF64 u)" "mget target ''name'' = Some (VStr name)"
  shows "(\<exists>obs \<in> set (host_observations now cfg host p).
      o_id obs = ''backup_target_usage.'' @ host @ ''.'' @ name \<and> o_value obs = VF64 u) \<and>
    (\<exists>t \<in> set (state_backup_targets facts). bt_host t = host \<and> bt_name t = name \<and> bt_used_percent t = Some u)"
proof
  obtain sections where s: "map_at p ''sections'' = Some sections"
    "section_of sections ''backup_targets'' = Some data"
    using assms(3) by (auto simp: facts_section_def section_of_def map_at_def str_at_def nil_map_def
        split: option.splits if_splits)
  have "any_at target ''used_percent'' = VF64 u" "any_at target ''name'' = VStr name"
    using assms(6,7) by (simp_all add: any_at_def)
  with assms(5) have "\<exists>obs \<in> set (backup_target_obs host target).
      o_id obs = ''backup_target_usage.'' @ host @ ''.'' @ name \<and> o_value obs = VF64 u"
    by (simp add: backup_target_obs_def Let_def fact_obs_def num_or_def)
  moreover have "set (backup_target_obs host target) \<subseteq> set (host_observations now cfg host p)"
    using assms(4) s by (auto simp: host_observations_def Let_def nil_map_def rocky_observations_def of_section_def in_maps_of)
  ultimately show "\<exists>obs \<in> set (host_observations now cfg host p).
      o_id obs = ''backup_target_usage.'' @ host @ ''.'' @ name \<and> o_value obs = VF64 u" by blast
next
  define t where "t = hd (target_entry host (VMap target))"
  have t: "target_entry host (VMap target) = [t]" "bt_host t = host" "bt_name t = name" "bt_used_percent t = Some u"
    using assms(6,7) by (simp_all add: t_def target_entry_def any_at_def as_str_def)
  have pl: "ssh_facts_payloads facts = sf_payloads d" by (simp add: ssh_facts_payloads_def assms(1))
  have "t \<in> set (host_targets (sf_payloads d) host)"
    using assms(2,3,4) t(1) by (force simp: host_targets_def list_at_def)
  moreover have "host \<in> set (sorted_keys (sf_payloads d))" using assms(2) by auto
  ultimately have "t \<in> set (concat (map (host_targets (sf_payloads d)) (sorted_keys (sf_payloads d))))" by auto
  then have "t \<in> set (state_backup_targets facts)"
    using t(4) by (force simp: state_backup_targets_def apply_wd_cloud_derived_usage_def Let_def pl split: option.splits)
  with t show "\<exists>t \<in> set (state_backup_targets facts). bt_host t = host \<and> bt_name t = name \<and> bt_used_percent t = Some u"
    by blast
qed

theorem backup_target_agrees_witness:
  "let target = [(''name'', VStr ''gdrive''), (''quota_supported'', VBool True), (''used_percent'', VF64 (f_num 40))];
       p = [(''sections'', VMap [(''backup_targets'', VMap [(''status'', VStr ''ok''),
              (''data'', VMap [(''targets'', VList [VMap target])])])])];
       facts = sample_facts [(''ssh_facts'', DSSHFacts \<lparr>sf_hosts = [''nas''], sf_errors = [], sf_payloads = [(''nas'', p)]\<rparr>)] []
   in \<exists>t \<in> set (state_backup_targets facts). bt_host t = ''nas'' \<and> bt_name t = ''gdrive'' \<and> bt_used_percent t = Some (f_num 40)"
proof -
  define target where "target = [(''name'', VStr ''gdrive''), (''quota_supported'', VBool True), (''used_percent'', VF64 (f_num 40))]"
  define data where "data = [(''targets'', VList [VMap target])]"
  define p where "p = [(''sections'', VMap [(''backup_targets'', VMap [(''status'', VStr ''ok''), (''data'', VMap data)])])]"
  define d where "d = \<lparr>sf_hosts = [''nas''], sf_errors = [], sf_payloads = [(''nas'', p)]\<rparr>"
  define facts where "facts = sample_facts [(''ssh_facts'', DSSHFacts d)] []"
  have "\<exists>t \<in> set (state_backup_targets facts). bt_host t = ''nas'' \<and> bt_name t = ''gdrive'' \<and> bt_used_percent t = Some (f_num 40)"
    by (rule conjunct2 [OF backup_target_agrees [of _ d _ p data target]])
      (simp_all add: facts_def collector_data_of_def d_def p_def data_def target_def facts_section_def as_map_def as_str_def
        list_at_def as_list_def)
  then show ?thesis by (simp only: Let_def facts_def d_def p_def data_def target_def)
qed

end
