(* ===== verification/CO_Kuma.thy ===== *)
theory CO_Kuma
  imports CO_Base HR_Config Go_Regex
begin

text \<open>
  The collector of the monitor states, \<^verbatim>\<open>src/tools/internal/healthreport/collectors/kuma.go\<close>: the
  text Uptime Kuma serves at \<^verbatim>\<open>/metrics\<close> is parsed line by line with two regular expressions.  Both
  are deterministic and are written out as scanners.  The answer of the server is a parameter.
\<close>

section \<open>Parsing\<close>

definition name_char :: "char \<Rightarrow> bool" where
  "name_char c \<longleftrightarrow> (CHR ''a'' \<le> c \<and> c \<le> CHR ''z'') \<or> c = CHR ''_''"

definition value_char :: "char \<Rightarrow> bool" where
  "value_char c \<longleftrightarrow> is_digit c \<or> c \<in> {CHR 0x2D, CHR ''.'', CHR ''e'', CHR ''E'', CHR ''+''}"

definition quote :: char where "quote = CHR 0x22"
definition backslash :: char where "backslash = CHR 0x5C"

definition kuma_sample :: "string \<Rightarrow> (string \<times> string \<times> string) option" where
  \<comment> \<open>\<^verbatim>\<open>^(?P<name>[a-z_]+)\{(?P<labels>[^}]*)\}\s+(?P<value>[-\d.eE+]+)\s*$\<close>\<close>
  "kuma_sample line =
     (let name = takeWhile name_char line; r = dropWhile name_char line;
          labels = takeWhile (\<lambda>c. c \<noteq> CHR ''}'') (tl r); r2 = dropWhile (\<lambda>c. c \<noteq> CHR ''}'') (tl r);
          ws = takeWhile re_space (tl r2); r3 = dropWhile re_space (tl r2);
          val = takeWhile value_char r3
      in if name \<noteq> [] \<and> has_prefix r ''{'' \<and> r2 \<noteq> [] \<and> ws \<noteq> [] \<and> val \<noteq> [] \<and>
            list_all re_space (dropWhile value_char r3)
         then Some (name, labels, val) else None)"

fun label_value :: "string \<Rightarrow> (string \<times> string) option" where
  \<comment> \<open>\<^verbatim>\<open>((?:[^"\\]|\\.)*)"\<close>: the text up to the closing quote, and what follows it\<close>
  "label_value [] = None"
| "label_value (c # s) =
     (if c = quote then Some ([], s)
      else if c = backslash then
        (case s of [] \<Rightarrow> None
         | d # t \<Rightarrow> if d = CHR 0x0A then None else map_option (\<lambda>(v, r). (c # d # v, r)) (label_value t))
      else map_option (\<lambda>(v, r). (c # v, r)) (label_value s))"

lemma label_value_length: "label_value s = Some (v, r) \<Longrightarrow> length r < length s"
  by (induction s arbitrary: v r rule: label_value.induct) (fastforce split: if_splits list.splits)+

definition label_at_start :: "string \<Rightarrow> (string \<times> string \<times> string) option" where
  \<comment> \<open>\<^verbatim>\<open>(\w+)="((?:[^"\\]|\\.)*)"\<close> at the start of the text\<close>
  "label_at_start s =
     (let w = takeWhile re_word s; r = dropWhile re_word s
      in if w = [] \<or> \<not> has_prefix r [CHR ''='', quote] then None
         else map_option (\<lambda>(v, r'). (w, v, r')) (label_value (drop 2 r)))"

lemma label_at_start_length: "label_at_start s = Some (w, v, r) \<Longrightarrow> length r < length s"
proof -
  assume "label_at_start s = Some (w, v, r)"
  then have "length r < length (drop 2 (dropWhile re_word s))"
    by (auto simp: label_at_start_def Let_def dest!: label_value_length split: if_splits)
  also have "\<dots> \<le> length s" using length_dropWhile_le [of re_word s] by simp
  finally show ?thesis .
qed

function find_labels :: "string \<Rightarrow> (string \<times> string) list" where
  \<comment> \<open>\<^verbatim>\<open>FindAllStringSubmatch\<close>: the leftmost match, then the rest after it\<close>
  "find_labels s =
     (case s of [] \<Rightarrow> []
      | c # t \<Rightarrow> (case label_at_start s of None \<Rightarrow> find_labels t
                 | Some (w, v, r) \<Rightarrow> (w, v) # find_labels r))"
  by auto
termination
proof (relation "measure length")
  fix s c t p w v r x2
  show "s = c # t \<Longrightarrow> label_at_start s = None \<Longrightarrow> (t, s) \<in> measure length" by simp
  show "s = c # t \<Longrightarrow> label_at_start s = Some p \<Longrightarrow> (w, x2) = p \<Longrightarrow> (v, r) = x2 \<Longrightarrow> (r, s) \<in> measure length"
    using label_at_start_length [of s w v r] by auto
qed simp

declare find_labels.simps [simp del]

definition unescape :: "string \<Rightarrow> string" where
  "unescape v = replace_all v [backslash, quote] [quote]"

record kuma_line =
  kl_name :: string
  kl_labels :: "(string, string) gmap"
  kl_value :: f64

definition parse_kuma_line :: "string \<Rightarrow> kuma_line list" where
  \<comment> \<open>one round of the loop: none or one sample is appended\<close>
  "parse_kuma_line raw =
     (let line = trim_space raw in
      if line = [] \<or> has_prefix line ''#'' then [] else
      case kuma_sample line of None \<Rightarrow> []
      | Some (name, labels, val) \<Rightarrow>
          (case parse_float val of None \<Rightarrow> []
           | Some x \<Rightarrow> [\<lparr>kl_name = name,
                         kl_labels = fold (\<lambda>(k, v). mput k (unescape v)) (find_labels labels) [],
                         kl_value = x\<rparr>]))"

definition parse_kuma_metrics :: "string \<Rightarrow> kuma_line list" where
  "parse_kuma_metrics text = concat (map parse_kuma_line (split_char CHR 0x0A text))"

section \<open>The collector\<close>

definition monitor_key :: "kuma_line \<Rightarrow> string" where
  "monitor_key s =
     (let label = (\<lambda>k. case mget (kl_labels s) k of Some v \<Rightarrow> v | None \<Rightarrow> [])
      in if label ''monitor_name'' \<noteq> [] then label ''monitor_name''
         else if label ''monitor_url'' \<noteq> [] then label ''monitor_url'' else ''unknown'')"

definition new_row :: "kuma_line \<Rightarrow> kuma_row" where
  "new_row s = \<lparr>km_name = monitor_key s, km_url = mget (kl_labels s) ''monitor_url'', km_status = None,
                km_cert_days = None, km_response_ms = None\<rparr>"

definition set_field :: "kuma_line \<Rightarrow> kuma_row \<Rightarrow> kuma_row" where
  "set_field s row =
     (if kl_name s = ''monitor_status'' then row\<lparr>km_status := Some (f_to_int64 (kl_value s))\<rparr>
      else if kl_name s = ''monitor_cert_days_remaining'' then row\<lparr>km_cert_days := Some (f_to_int64 (kl_value s))\<rparr>
      else if kl_name s = ''monitor_response_time'' then row\<lparr>km_response_ms := Some (kl_value s)\<rparr> else row)"

definition monitor_round :: "kuma_line \<Rightarrow> (string, kuma_row) gmap \<Rightarrow> (string, kuma_row) gmap" where
  "monitor_round s monitors =
     (let key = monitor_key s; row = (case mget monitors key of Some r \<Rightarrow> r | None \<Rightarrow> new_row s)
      in mput key (set_field s row) monitors)"

definition kuma_status_name :: "int \<Rightarrow> string" where
  "kuma_status_name status =
     (if status = 0 then ''down'' else if status = 1 then ''up'' else if status = 2 then ''pending''
      else if status = 3 then ''maintenance'' else int_str status)"

definition deref_str :: "string option \<Rightarrow> any" where
  "deref_str s = (case s of None \<Rightarrow> VNil | Some v \<Rightarrow> VStr v)"

definition monitor_obs :: "config \<Rightarrow> kuma_row \<Rightarrow> observation list" where
  "monitor_obs cfg row =
     (let name = km_name row in
      (case km_status row of None \<Rightarrow> []
       | Some status \<Rightarrow>
           [obs_of ''uptime_kuma'' (''monitor_status.'' @ name @ ''.'') name ''monitor_status''
              (VStr (kuma_status_name status)) VNil (''monitor '' @ name @ '' is '' @ kuma_status_name status)
              [(''kuma_url'', VStr (kuma_url cfg)), (''monitor_url'', deref_str (km_url row))]]) @
      (case km_cert_days row of None \<Rightarrow> []
       | Some days \<Rightarrow>
           if days < 0 then [] else
           [obs_of ''uptime_kuma'' (''cert_expiry.'' @ name @ ''.'') name ''cert_expiry'' (VInt days) (VStr ''days'')
              (''certificate for '' @ name @ '' expires in '' @ int_str days @ '' days'')
              [(''monitor_url'', deref_str (km_url row))]]))"

definition collect_kuma :: "(config \<Rightarrow> string + string) \<Rightarrow> config \<Rightarrow> string + collector_data collector_result" where
  \<comment> \<open>the parameter is the outcome of the request: an error or the body\<close>
  "collect_kuma fetch cfg =
     (let result = new_collector_result ''uptime_kuma'' in
      if kuma_api_key cfg = [] then
        Inr (result\<lparr>c_status := ''unavailable'', c_error := ''no Kuma API key configured (secrets.kuma.api_key)''\<rparr>)
      else case fetch cfg of Inl err \<Rightarrow> Inl err
      | Inr body \<Rightarrow>
          let monitors = fold monitor_round (parse_kuma_metrics body) []; rows = map snd monitors
          in Inr (result\<lparr>c_data := Some (DKuma \<lparr>kd_count = length monitors, kd_monitors = rows\<rparr>),
                         c_observations := concat (map (monitor_obs cfg) rows)\<rparr>))"

section \<open>Lemmas\<close>

definition escape :: "string \<Rightarrow> string" where
  "escape v = concat (map (\<lambda>c. if c = quote then [backslash, quote] else [c]) v)"

definition render_label :: "string \<times> string \<Rightarrow> string" where
  "render_label = (\<lambda>(k, v). k @ [CHR ''='', quote] @ escape v @ [quote])"

definition render_sample :: "string \<Rightarrow> (string \<times> string) list \<Rightarrow> string \<Rightarrow> string" where
  \<comment> \<open>a line of the text format a server writes\<close>
  "render_sample name labels val = name @ ''{'' @ join '','' (map render_label labels) @ ''} '' @ val"

definition plain_label :: "string \<times> string \<Rightarrow> bool" where
  "plain_label = (\<lambda>(k, v). k \<noteq> [] \<and> list_all re_word k \<and> backslash \<notin> set v \<and> CHR ''}'' \<notin> set v)"

lemma quote_backslash [simp]: "quote \<noteq> backslash" "backslash \<noteq> quote"
  by (simp_all add: quote_def backslash_def)

lemma escape_simps [simp]: "escape [] = []"
  "escape (c # v) = (if c = quote then [backslash, quote] else [c]) @ escape v"
  by (simp_all add: escape_def)

lemma label_value_escape: "backslash \<notin> set v \<Longrightarrow> label_value (escape v @ quote # r) = Some (escape v, r)"
proof (induction v)
  case (Cons c v)
  moreover have "quote \<noteq> CHR 0x0A" by (simp add: quote_def)
  ultimately show ?case by auto
qed simp

lemma takeWhile_stop: "list_all P xs \<Longrightarrow> \<not> P y \<Longrightarrow> takeWhile P (xs @ y # ys) = xs \<and> dropWhile P (xs @ y # ys) = y # ys"
  by (simp add: list_all_iff takeWhile_append dropWhile_append)

lemma label_at_start_render:
  assumes "plain_label l"
  shows "label_at_start (render_label l @ r) = Some (fst l, escape (snd l), r)"
proof -
  obtain k v where l: "l = (k, v)" by (cases l)
  have "\<not> re_word (CHR ''='')" by code_simp
  with assms takeWhile_stop [of re_word k "CHR ''=''" "quote # escape v @ quote # r"] show ?thesis
    by (simp add: l label_at_start_def render_label_def plain_label_def has_prefix_def label_value_escape)
qed

lemma find_labels_Nil [simp]: "find_labels [] = []"
  by (simp add: find_labels.simps)

lemma find_labels_render: "plain_label l \<Longrightarrow> find_labels (render_label l @ r) = (fst l, escape (snd l)) # find_labels r"
  using label_at_start_render [of l r]
  by (subst find_labels.simps) (auto simp: render_label_def split: list.splits prod.splits)

lemma find_labels_comma: "find_labels (CHR '','' # r) = find_labels r"
proof -
  have "\<not> re_word (CHR '','')" by code_simp
  then have "label_at_start (CHR '','' # r) = None" by (simp add: label_at_start_def)
  then show ?thesis by (subst find_labels.simps) simp
qed

lemma find_labels_join:
  "list_all plain_label ls \<Longrightarrow> find_labels (join '','' (map render_label ls)) = map (\<lambda>l. (fst l, escape (snd l))) ls"
proof (induction ls rule: induct_list012)
  case (2 l)
  then show ?case using find_labels_render [of l "[]"] by simp
next
  case (3 l l' ls)
  then show ?case by (simp add: find_labels_render find_labels_comma)
qed simp

lemma unescape_escape:
  assumes "backslash \<notin> set v"
  shows "unescape (escape v) = v"
proof -
  have "replace_all_fuel n [backslash, quote] [quote] (escape v) = v" if "length (escape v) \<le> n" for n
    using that assms
  proof (induction v arbitrary: n)
    case Nil
    show ?case by (cases n) auto
  next
    case (Cons c v)
    then obtain m where n: "n = Suc m" by (cases n) (auto split: if_splits)
    with Cons show ?case by (auto simp: has_prefix_def split: if_splits)
  qed
  then show ?thesis by (simp add: unescape_def replace_all_def)
qed

lemma no_brace_labels:
  assumes "list_all plain_label ls"
  shows "CHR ''}'' \<notin> set (join '','' (map render_label ls))"
proof -
  have w: "\<not> re_word (CHR ''}'')" by code_simp
  have e: "set (escape v) \<subseteq> insert backslash (insert quote (set v))" for v
    by (induction v) auto
  have "CHR ''}'' \<notin> set (render_label l)" if "plain_label l" for l
    using that w e [of "snd l"]
    by (auto simp: plain_label_def render_label_def list_all_iff quote_def backslash_def split: prod.splits)
  with assms show ?thesis
    by (induction ls rule: induct_list012) auto
qed

lemma kuma_sample_render:
  assumes "name \<noteq> []" "list_all name_char name" "CHR ''}'' \<notin> set labels" "val \<noteq> []" "list_all value_char val"
  shows "kuma_sample (name @ ''{'' @ labels @ ''} '' @ val) = Some (name, labels, val)"
proof -
  have c: "\<not> name_char (CHR ''{'')" "re_space (CHR '' '')" by code_simp+
  have sp: "value_char x \<Longrightarrow> \<not> re_space x" for x
    by (auto simp: value_char_def re_space_def is_digit_def)
  from assms(4,5) sp obtain x xs where v: "val = x # xs" "\<not> re_space x" by (cases val) auto
  have val: "takeWhile value_char val = val" "dropWhile value_char val = []"
    using assms(5) by (simp_all add: list_all_iff takeWhile_eq_all_conv)
  have labels: "takeWhile (\<lambda>c. c \<noteq> CHR ''}'') (labels @ CHR ''}'' # r) = labels"
    "dropWhile (\<lambda>c. c \<noteq> CHR ''}'') (labels @ CHR ''}'' # r) = CHR ''}'' # r" for r
  proof -
    have "list_all (\<lambda>c. c \<noteq> CHR ''}'') labels" using assms(3) by (auto simp: list_all_iff)
    with takeWhile_stop [of "\<lambda>c. c \<noteq> CHR ''}''" labels "CHR ''}''" r]
    show "takeWhile (\<lambda>c. c \<noteq> CHR ''}'') (labels @ CHR ''}'' # r) = labels"
      "dropWhile (\<lambda>c. c \<noteq> CHR ''}'') (labels @ CHR ''}'' # r) = CHR ''}'' # r" by simp_all
  qed
  have name: "takeWhile name_char (name @ CHR ''{'' # r) = name" "dropWhile name_char (name @ CHR ''{'' # r) = CHR ''{'' # r" for r
    using takeWhile_stop [of name_char name "CHR ''{''" r] assms(2) c(1) by auto
  show ?thesis
    using assms(1,4) c v val by (simp add: kuma_sample_def name labels has_prefix_def Let_def)
qed

lemma no_lead_hd:
  "list_all (\<lambda>w. w \<noteq> [] \<and> \<not> P (hd w)) ws \<Longrightarrow> P c \<Longrightarrow> no_lead ws (c # s)"
  by (fastforce simp: no_lead_def has_prefix_def list_all_iff neq_Nil_conv)

lemma trimmed_ends:
  assumes "s \<noteq> []" "name_char (hd s)" "value_char (last s)"
  shows "trim_space s = s"
proof -
  obtain c t where s: "s = c # t" using assms(1) by (cases s) auto
  obtain d u where r: "rev s = d # u" using assms(1) by (cases "rev s") auto
  then have d: "value_char d" using assms(1,3) by (metis hd_rev list.sel(1))
  have "list_all (\<lambda>w. w \<noteq> [] \<and> \<not> name_char (hd w)) unicode_spaces"
    "list_all (\<lambda>w. w \<noteq> [] \<and> \<not> value_char (hd w)) (map rev unicode_spaces)" by code_simp+
  with assms(2) d have "no_lead unicode_spaces s" "no_lead (map rev unicode_spaces) (rev s)"
    unfolding r by (auto simp: s intro: no_lead_hd)
  then show ?thesis by (simp only: trimmed_iff)
qed

lemma fold_mput_map:
  assumes "distinct (map fst ls)"
  shows "fold (\<lambda>(k, v). mput k (f v)) ls [] = map (\<lambda>(k, v). (k, f v)) ls"
proof -
  have "fst ` set ls \<inter> fst ` set m = {} \<Longrightarrow> fold (\<lambda>(k, v). mput k (f v)) ls m = m @ map (\<lambda>(k, v). (k, f v)) ls" for m
    using assms
  proof (induction ls arbitrary: m)
    case (Cons l ls)
    obtain k v where l: "l = (k, v)" by (cases l)
    with Cons.prems have "mput k (f v) m = m @ [(k, f v)]"
      by (induction m) (auto simp: mput_def)
    with Cons l show ?case by force
  qed simp
  from this [of "[]"] show ?thesis by simp
qed

section \<open>Properties\<close>

text \<open>
  Claim C31.  Parsing reads back what the server writes: a line with a name, labels with distinct names
  and a number gives the sample with these labels, quotes in the values included, as long as no
  value holds a backslash or a closing brace.
\<close>

theorem kuma_line_roundtrip:
  assumes "name \<noteq> []" "list_all name_char name" "list_all plain_label labels" "distinct (map fst labels)"
    and "val \<noteq> []" "list_all value_char val" "parse_float val = Some x"
  shows "parse_kuma_line (render_sample name labels val) = [\<lparr>kl_name = name, kl_labels = labels, kl_value = x\<rparr>]"
proof -
  let ?s = "render_sample name labels val"
  have "hd ?s = hd name" "last ?s = last val" "?s \<noteq> []" using assms(1,5) by (simp_all add: render_sample_def)
  moreover have n: "name_char (hd name)" and "value_char (last val)"
    using assms by (simp_all add: list_all_iff)
  ultimately have "trim_space ?s = ?s" by (intro trimmed_ends) simp_all
  moreover have "\<not> has_prefix ?s ''#''"
  proof -
    have "\<not> name_char (CHR ''#'')" by code_simp
    with n assms(1) show ?thesis by (cases name) (auto simp: render_sample_def has_prefix_def)
  qed
  moreover have "kuma_sample ?s = Some (name, join '','' (map render_label labels), val)"
    unfolding render_sample_def using assms no_brace_labels [OF assms(3)] by (intro kuma_sample_render)
  moreover have "fold (\<lambda>(k, v). mput k (unescape v)) (find_labels (join '','' (map render_label labels))) [] = labels"
  proof -
    have "distinct (map fst (map (\<lambda>l. (fst l, escape (snd l))) labels))" using assms(4) by (simp add: comp_def)
    then have "fold (\<lambda>(k, v). mput k (unescape v)) (map (\<lambda>l. (fst l, escape (snd l))) labels) [] =
        map (\<lambda>(k, v). (k, unescape v)) (map (\<lambda>l. (fst l, escape (snd l))) labels)"
      by (rule fold_mput_map)
    also have "\<dots> = labels"
      using assms(3) by (induction labels) (auto simp: plain_label_def unescape_escape)
    finally show ?thesis using assms(3) by (simp add: find_labels_join)
  qed
  ultimately show ?thesis using \<open>?s \<noteq> []\<close> assms(7) by (simp add: parse_kuma_line_def)
qed

theorem kuma_line_roundtrip_witness:
  "parse_kuma_line (render_sample ''monitor_status'' [(''monitor_name'', ''Home Assistant''), (''monitor_type'', ''http'')] ''1'') =
     [\<lparr>kl_name = ''monitor_status'', kl_labels = [(''monitor_name'', ''Home Assistant''), (''monitor_type'', ''http'')],
       kl_value = f_num 1\<rparr>]"
  by (rule kuma_line_roundtrip) code_simp+

text \<open>
   A closing brace in the name of a monitor hides the monitor: the pattern ends the labels at the
  first brace, what follows is no number, and the line is skipped without a trace.
\<close>

theorem kuma_brace_skipped:
  assumes "name \<noteq> []" "list_all name_char name" "val \<noteq> []" "list_all value_char val" "list_all re_word k" "k \<noteq> []"
    and "CHR ''}'' \<in> set v" "backslash \<notin> set v"
  shows "parse_kuma_line (render_sample name [(k, v)] val) = []"
proof -
  let ?L = "render_label (k, v) @ ''} '' @ val"
  let ?r = "dropWhile (\<lambda>c. c \<noteq> CHR ''}'') ?L"
  have c: "\<not> name_char (CHR ''{'')" "\<not> re_space quote" "\<not> value_char quote" by code_simp+
  have hd: "takeWhile name_char (name @ CHR ''{'' # t) = name" "dropWhile name_char (name @ CHR ''{'' # t) = CHR ''{'' # t" for t
    using takeWhile_stop [of name_char name "CHR ''{''" t] assms(2) c(1) by auto
  have "CHR ''}'' \<in> set (escape v)" using assms(7) by (induction v) (auto simp: quote_def backslash_def)
  then obtain a b where ab: "escape v = a @ CHR ''}'' # b" "CHR ''}'' \<notin> set a" by (meson split_list_first)
  have k: "CHR ''}'' \<notin> set k"
  proof -
    have "\<not> re_word (CHR ''}'')" by code_simp
    with assms(5) show ?thesis by (auto simp: list_all_iff)
  qed
  define pre where "pre = k @ [CHR ''='', quote] @ a"
  have "list_all (\<lambda>c. c \<noteq> CHR ''}'') pre" using k ab(2) by (auto simp: pre_def list_all_iff quote_def)
  from takeWhile_stop [OF this, of "CHR ''}''" "b @ quote # ''} '' @ val"]
  have r: "?r = CHR ''}'' # b @ quote # ''} '' @ val"
    by (simp add: pre_def render_label_def ab(1))
  have "\<not> list_all re_space (dropWhile value_char (dropWhile re_space (b @ quote # t)))" for t
  proof -
    have q: "quote \<in> set (dropWhile P (u @ quote # t))" if "\<not> P quote" for P u t
      using that by (induction u) auto
    obtain u t' where "dropWhile re_space (b @ quote # t) = u @ quote # t'"
      using q [of re_space b t] c(2) by (meson split_list)
    with q [of value_char u t'] c(2,3) show ?thesis by (auto simp: list_all_iff)
  qed
  with r have "kuma_sample (render_sample name [(k, v)] val) = None"
    by (simp add: kuma_sample_def render_sample_def hd Let_def)
  moreover have "trim_space (render_sample name [(k, v)] val) = render_sample name [(k, v)] val"
    using assms(1-4) by (intro trimmed_ends) (simp_all add: render_sample_def list_all_iff)
  ultimately show ?thesis by (simp add: parse_kuma_line_def Let_def)
qed

theorem kuma_brace_skipped_witness:
  "parse_kuma_line (render_sample ''monitor_status'' [(''monitor_name'', ''api {v2}'')] ''0'') = []"
  by (rule kuma_brace_skipped) code_simp+

end
