(* ===== verification/CO_Victoria.thy ===== *)
theory CO_Victoria
  imports CO_Base HR_Config HR_Run "HOL-Library.Product_Lexorder"
begin

text \<open>
  The collectors that query VictoriaMetrics: host metrics and containers
  (\<^verbatim>\<open>src/tools/internal/healthreport/collectors/victoria.go\<close>), the availability of the monitors
  (\<^verbatim>\<open>kuma_availability.go\<close>).  The answer to a query is a parameter: an error of the transport or of
  decoding, or the decoded document.  A panic is an \<open>Inl\<close>, which \<open>run_collector\<close> records as a
  failed collector.
\<close>

section \<open>Queries\<close>

record vm_payload =
  vm_status :: string
  vm_error :: string
  vm_result :: "((string, string) gmap \<times> any) list"
    \<comment> \<open>the labels and the second element of the value of each series\<close>

record vm_sample =
  vs_metric :: "(string, string) gmap"
  vs_value :: f64

type_synonym vm = "string \<Rightarrow> string + vm_payload"

definition vm_query :: "vm \<Rightarrow> string \<Rightarrow> string + vm_sample list" where
  "vm_query vm promql =
     (case vm promql of Inl err \<Rightarrow> Inl err
      | Inr payload \<Rightarrow>
          if vm_status payload \<noteq> ''success'' then Inl (''query failed: '' @ vm_error payload)
          else Inr (concat (map (\<lambda>(metric, val).
                 case val of VStr s \<Rightarrow> (case parse_float s of None \<Rightarrow> []
                                        | Some v \<Rightarrow> [\<lparr>vs_metric = metric, vs_value = v\<rparr>])
                 | _ \<Rightarrow> []) (vm_result payload))))"

definition label :: "(string, string) gmap \<Rightarrow> string \<Rightarrow> string" where
  "label m k = (case mget m k of Some v \<Rightarrow> v | None \<Rightarrow> [])"

definition metric_host :: "(string, string) gmap \<Rightarrow> string" where
  "metric_host m = (case mget m ''instance'' of Some v \<Rightarrow> v | None \<Rightarrow> ''unknown'')"

definition smart_host :: "(string, string) gmap \<Rightarrow> string" where
  "smart_host m = (case mget m ''host'' of Some v \<Rightarrow> v | None \<Rightarrow> metric_host m)"

definition sign :: "f64 \<Rightarrow> f64" where
  "sign v = (if f_lt v f_zero then f_num (- 1) else f_num 1)"

definition round2 :: "f64 \<Rightarrow> f64" where
  "round2 v = f_div (f_of_int (f_to_int64 (f_add (f_mul v (f_num 100)) (f_mul (sign v) (f_num (1 / 2)))))) (f_num 100)"

definition observe :: "vm \<Rightarrow> string \<Rightarrow> (vm_sample \<Rightarrow> observation list) \<Rightarrow> string + observation list" where
  "observe vm promql f = map_sum id (\<lambda>rows. concat (map f rows)) (vm_query vm promql)"

section \<open>Host metrics\<close>

definition fs_exclude :: string where
  \<open>fs_exclude = ''fstype!~"tmpfs|overlay|squashfs|ramfs|devtmpfs|fuse.*|iso9660|autofs"''\<close>

definition q_filesystems :: string where
  \<open>q_filesystems = ''100 - (node_filesystem_avail_bytes{'' @ fs_exclude @ ''} / node_filesystem_size_bytes{'' @ fs_exclude @ ''} * 100)''\<close>

definition q_projection :: string where
  \<open>q_projection = ''predict_linear(node_filesystem_avail_bytes{'' @ fs_exclude @ ''}[7d], 14 * 86400)''\<close>

definition q_memory :: string where
  \<open>q_memory = ''100 * (1 - node_memory_MemAvailable_bytes / node_memory_MemTotal_bytes)''\<close>

definition q_load :: string where
  \<open>q_load = ''node_load15 / on(instance) group_left count by(instance) (node_cpu_seconds_total{mode="idle"})''\<close>

definition q_steal :: string where
  \<open>q_steal = ''100 * avg by(instance) (rate(node_cpu_seconds_total{mode="steal"}[1h]))''\<close>

definition q_boot :: string where \<open>q_boot = ''time() - node_boot_time_seconds''\<close>

definition q_units :: string where \<open>q_units = ''node_systemd_unit_state{state="failed"} == 1''\<close>

definition q_age :: string where \<open>q_age = ''time() - max by(instance) (timestamp(node_load1))''\<close>

definition q_smart :: string where \<open>q_smart = ''smartctl_device_smart_status''\<close>

definition q_temperature :: string where
  \<open>q_temperature = ''smartctl_device_temperature{temperature_type="current"}''\<close>

definition q_btrfs :: string where \<open>q_btrfs = ''node_btrfs_device_errors_total''\<close>

definition q_decisions :: string where \<open>q_decisions = ''sum by(host) (cs_active_decisions)''\<close>

definition q_alerts :: string where \<open>q_alerts = ''sum by(host) (increase(cs_alerts[24h]))''\<close>

definition host_obs ::
  "config \<Rightarrow> string \<Rightarrow> string \<Rightarrow> string \<Rightarrow> string \<Rightarrow> any \<Rightarrow> any \<Rightarrow> string \<Rightarrow> observation" where
  "host_obs cfg promql i host kind val unit msg =
     obs_of ''host_metrics'' (kind @ ''.'' @ host @ ''.'' @ i) host kind val unit msg
       [(''promql'', VStr promql), (''grafana_url'', VStr (grafana_url cfg))]"

definition systemd_noise :: "string \<Rightarrow> bool" where
  \<comment> \<open>\<^verbatim>\<open>^session-c?\d+\.scope$\<close>\<close>
  "systemd_noise unit =
     (let r = drop 8 unit; r' = (if has_prefix r ''c'' then tl r else r); ds = takeWhile is_digit r'
      in has_prefix unit ''session-'' \<and> ds \<noteq> [] \<and> dropWhile is_digit r' = ''.scope'')"

definition fill_excluded :: "(string \<times> string) list" where
  "fill_excluded = [(''nas'', ''/mnt/cache'')]"

definition filesystem_obs :: "config \<Rightarrow> vm_sample \<Rightarrow> observation list" where
  "filesystem_obs cfg s =
     (let host = metric_host (vs_metric s); mount = label (vs_metric s) ''mountpoint''
      in [host_obs cfg q_filesystems mount host ''disk_usage'' (VF64 (round2 (vs_value s))) (VStr ''percent'')
            (host @ '' '' @ mount @ '' at '' @ fmt_fixed 1 (vs_value s) @ ''% used'')])"

definition projection_obs :: "config \<Rightarrow> vm_sample \<Rightarrow> observation list" where
  "projection_obs cfg s =
     (let host = metric_host (vs_metric s); mount = label (vs_metric s) ''mountpoint''
      in if f_ge (vs_value s) f_zero \<or> (host, mount) \<in> set fill_excluded then [] else
         [host_obs cfg q_projection mount host ''disk_fill_projection'' (VF64 (round2 (f_div (vs_value s) gib)))
            (VStr ''gib_projected_free'')
            (host @ '' '' @ mount @ '' is projected to run out of space within 14 days'')])"

definition memory_obs :: "config \<Rightarrow> vm_sample \<Rightarrow> observation list" where
  "memory_obs cfg s =
     (let host = metric_host (vs_metric s)
      in [host_obs cfg q_memory [] host ''memory_usage'' (VF64 (round2 (vs_value s))) (VStr ''percent'')
            (host @ '' memory at '' @ fmt_fixed 1 (vs_value s) @ ''% used'')])"

definition load_obs :: "config \<Rightarrow> vm_sample \<Rightarrow> observation list" where
  "load_obs cfg s =
     (let host = metric_host (vs_metric s)
      in [host_obs cfg q_load [] host ''load_per_core'' (VF64 (round2 (vs_value s))) (VStr ''ratio'')
            (host @ '' 15m load is '' @ fmt_fixed 2 (vs_value s) @ '' per core'')])"

definition steal_obs :: "config \<Rightarrow> vm_sample \<Rightarrow> observation list" where
  "steal_obs cfg s =
     (let host = metric_host (vs_metric s)
      in [host_obs cfg q_steal [] host ''cpu_steal'' (VF64 (round2 (vs_value s))) (VStr ''percent'')
            (host @ '' CPU steal at '' @ fmt_fixed 1 (vs_value s) @ ''% over the last hour'')])"

definition boot_obs :: "config \<Rightarrow> vm_sample \<Rightarrow> observation list" where
  "boot_obs cfg s =
     (let host = metric_host (vs_metric s)
      in [host_obs cfg q_boot [] host ''recent_reboot'' (VInt64 (f_to_int64 (vs_value s))) (VStr ''seconds_since_boot'')
            (host @ '' booted '' @ fmt_fixed 1 (f_div (vs_value s) (f_num 3600)) @ '' hours ago'')])"

definition unit_obs :: "config \<Rightarrow> vm_sample \<Rightarrow> observation list" where
  "unit_obs cfg s =
     (let host = metric_host (vs_metric s); unit = or_default (label (vs_metric s) ''name'') ''unknown''
      in if systemd_noise unit then [] else
         [host_obs cfg q_units unit host ''systemd_failed'' (VStr unit) VNil
            (host @ '': systemd unit '' @ unit @ '' is failed'')])"

definition ages_of :: "vm_sample list \<Rightarrow> (string, f64) gmap" where
  "ages_of rows = index_by (\<lambda>s. metric_host (vs_metric s)) vs_value rows"

definition age_obs :: "config \<Rightarrow> (string, f64) gmap \<Rightarrow> string \<Rightarrow> observation" where
  "age_obs cfg ages host =
     (case mget ages host of
        None \<Rightarrow> host_obs cfg q_age [] host ''metrics_missing'' VNil VNil (host @ '' is not reporting any metrics'')
      | Some age \<Rightarrow>
          host_obs cfg q_age [] host ''metrics_stale'' (VF64 (round2 age)) (VStr ''seconds'')
            (host @ '' metrics are '' @ fmt_fixed 0 age @ '' seconds old''))"

definition smart_health_obs :: "config \<Rightarrow> vm_sample \<Rightarrow> observation list" where
  "smart_health_obs cfg s =
     (let host = smart_host (vs_metric s); device = or_default (label (vs_metric s) ''device'') ''unknown'';
          passed = (\<not> f_eq (vs_value s) f_zero)
      in [host_obs cfg q_smart device host ''smart_health'' (VBool passed) VNil
            (host @ '' '' @ device @ '' SMART self-assessment '' @ (if passed then ''passed'' else ''FAILED''))])"

definition temperature_obs :: "config \<Rightarrow> vm_sample \<Rightarrow> observation list" where
  "temperature_obs cfg s =
     (let host = smart_host (vs_metric s); device = or_default (label (vs_metric s) ''device'') ''unknown'';
          t = f_to_int64 (vs_value s)
      in [host_obs cfg q_temperature device host ''disk_temperature'' (VInt64 t) (VStr ''celsius'')
            (host @ '' '' @ device @ '' at '' @ int_str t @ '' C'')])"

type_synonym pool_errors = "(string \<times> string, (string, f64) gmap) gmap"

definition pool_round :: "vm_sample \<Rightarrow> pool_errors \<Rightarrow> pool_errors" where
  "pool_round s pools =
     (if f_le (vs_value s) f_zero then pools else
      let key = (smart_host (vs_metric s), or_default (label (vs_metric s) ''device'') ''unknown'');
          err_type = or_default (label (vs_metric s) ''type'') ''unknown'';
          entry = (case mget pools key of None \<Rightarrow> [] | Some e \<Rightarrow> e);
          old = (case mget entry err_type of None \<Rightarrow> f_zero | Some x \<Rightarrow> x)
      in mput key (mput err_type (f_add old (vs_value s)) entry) pools)"

definition pool_obs :: "config \<Rightarrow> (string \<times> string) \<times> (string, f64) gmap \<Rightarrow> observation" where
  "pool_obs cfg = (\<lambda>((host, device), errs).
     let types = sorted_keys errs; n = (\<lambda>t. the (mget errs t));
         sum = fold (\<lambda>t acc. f_add acc (n t)) types f_zero;
         parts = map (\<lambda>t. t @ ''='' @ int_str (f_to_int64 (n t))) types
     in host_obs cfg q_btrfs device host ''btrfs_pool_errors'' (VInt64 (f_to_int64 sum)) (VStr ''errors'')
          (host @ '': btrfs device '' @ device @ '' has errors: '' @ join '', '' parts))"

definition decisions_obs :: "config \<Rightarrow> vm_sample \<Rightarrow> observation list" where
  "decisions_obs cfg s =
     (let host = smart_host (vs_metric s); n = f_to_int64 (vs_value s)
      in [host_obs cfg q_decisions [] host ''crowdsec_active_decisions'' (VInt64 n) (VStr ''decisions'')
            (host @ '': '' @ int_str n @ '' active CrowdSec ban decision(s)'')])"

definition alerts_obs :: "config \<Rightarrow> vm_sample \<Rightarrow> observation list" where
  "alerts_obs cfg s =
     (let host = smart_host (vs_metric s); n = f_to_int64 (vs_value s)
      in if f_le (vs_value s) f_zero then [] else
         [host_obs cfg q_alerts [] host ''crowdsec_alerts_24h'' (VInt64 n) (VStr ''alerts'')
            (host @ '': '' @ int_str n @ '' CrowdSec alert(s) in the last 24h'')])"

definition rows_of :: "vm \<Rightarrow> string \<Rightarrow> vm_sample list" where
  "rows_of vm promql = (case vm_query vm promql of Inl _ \<Rightarrow> [] | Inr rows \<Rightarrow> rows)"

definition host_metrics_of :: "vm \<Rightarrow> host_metrics" where
  \<comment> \<open>the fields of \<^verbatim>\<open>data\<close>, filled in passing\<close>
  "host_metrics_of vm =
     (let host = (\<lambda>s. metric_host (vs_metric s)); rounded = (\<lambda>s. round2 (vs_value s))
      in \<lparr>hm_filesystems = map (\<lambda>s. \<lparr>fr_instance = host s, fr_mountpoint = label (vs_metric s) ''mountpoint'',
                                     fr_used_percent = rounded s\<rparr>) (rows_of vm q_filesystems),
          hm_memory = map (\<lambda>s. \<lparr>mr_instance = host s, mr_used_percent = rounded s\<rparr>) (rows_of vm q_memory),
          hm_load = map (\<lambda>s. \<lparr>lr_instance = host s, lr_load15 = rounded s\<rparr>) (rows_of vm q_load),
          hm_uptime = map (\<lambda>s. \<lparr>ur_instance = host s, ur_uptime = f_to_int64 (vs_value s)\<rparr>) (rows_of vm q_boot),
          hm_age = map (\<lambda>(h, age). (h, round2 age)) (ages_of (rows_of vm q_age))\<rparr>)"

definition host_rounds :: "vm \<Rightarrow> config \<Rightarrow> (string + observation list) list" where
  "host_rounds vm cfg =
     [observe vm q_filesystems (filesystem_obs cfg), observe vm q_projection (projection_obs cfg),
      observe vm q_memory (memory_obs cfg), observe vm q_load (load_obs cfg),
      observe vm q_steal (steal_obs cfg), observe vm q_boot (boot_obs cfg), observe vm q_units (unit_obs cfg),
      map_sum id (\<lambda>rows. map (age_obs cfg (ages_of rows)) (all_hosts cfg)) (vm_query vm q_age),
      observe vm q_smart (smart_health_obs cfg), observe vm q_temperature (temperature_obs cfg),
      map_sum id (\<lambda>rows. map (pool_obs cfg) (fold pool_round rows [])) (vm_query vm q_btrfs),
      observe vm q_decisions (decisions_obs cfg), observe vm q_alerts (alerts_obs cfg)]"

definition collect_host_metrics :: "vm \<Rightarrow> config \<Rightarrow> string + collector_data collector_result" where
  "collect_host_metrics vm cfg =
     map_sum id
       (\<lambda>obs. (new_collector_result ''host_metrics'')\<lparr>c_data := Some (DHostMetrics (host_metrics_of vm)), c_observations := obs\<rparr>)
       (in_sequence (host_rounds vm cfg))"

section \<open>Containers\<close>

type_synonym container_key = "string \<times> string" \<comment> \<open>host and name\<close>

definition q_containers :: string where
  \<open>q_containers = ''count by(instance, name) (container_last_seen{name!=""})''\<close>

definition q_containers_then :: "string \<Rightarrow> string" where
  \<open>q_containers_then lookback = ''count by(instance, name) (container_last_seen{name!=""} offset '' @ lookback @ '')''\<close>

definition q_restarts :: "string \<Rightarrow> string" where
  \<open>q_restarts lookback = ''changes(container_start_time_seconds{name!=""}['' @ lookback @ ''])''\<close>

definition q_oom :: "string \<Rightarrow> string" where
  \<open>q_oom lookback = ''increase(container_oom_events_total['' @ lookback @ ''])''\<close>

definition inventory :: "vm_sample list \<Rightarrow> container_key list" where
  \<comment> \<open>the keys of the map; it is read only through membership, its size and a sort\<close>
  "inventory rows =
     remdups (map (\<lambda>s. (label (vs_metric s) ''instance'', label (vs_metric s) ''name''))
       (filter (\<lambda>s. \<not> is_ephemeral (label (vs_metric s) ''name'')) rows))"

definition comparable :: "container_key list \<Rightarrow> container_key list \<Rightarrow> string \<Rightarrow> bool" where
  "comparable current previous host \<longleftrightarrow> host \<in> fst ` set current \<and> host \<in> fst ` set previous"

definition lost_keys :: "container_key list \<Rightarrow> container_key list \<Rightarrow> container_key list" where
  \<comment> \<open>what is in the second inventory and not in the first\<close>
  "lost_keys now before = sort (filter (\<lambda>k. k \<notin> set now) before)"

definition missing_obs :: "config \<Rightarrow> string \<Rightarrow> container_key \<Rightarrow> observation" where
  "missing_obs cfg lookback = (\<lambda>(host, name).
     obs_of ''containers'' (''container_missing.'' @ host @ ''.'' @ name) (or_default host ''unknown'') ''container_missing''
       (VStr name) VNil (host @ '': container '' @ name @ '' was running '' @ lookback @ '' ago and is gone now'')
       [(''promql'', VStr (q_containers_then lookback)), (''grafana_url'', VStr (grafana_url cfg))])"

definition added_obs :: "string \<Rightarrow> container_key \<Rightarrow> observation" where
  "added_obs lookback = (\<lambda>(host, name).
     obs_of ''containers'' (''container_new.'' @ host @ ''.'' @ name) host ''container_new''
       (VStr name) VNil (host @ '': container '' @ name @ '' appeared in the last '' @ lookback)
       [(''promql'', VStr q_containers)])"

definition event_obs :: "config \<Rightarrow> string \<Rightarrow> string \<Rightarrow> string \<Rightarrow> string \<Rightarrow> string \<Rightarrow> vm_sample \<Rightarrow> observation" where
  "event_obs cfg lookback promql kind unit verb s =
     (let host = metric_host (vs_metric s); name = or_default (label (vs_metric s) ''name'') ''unknown'';
          n = f_to_int64 (vs_value s)
      in obs_of ''containers'' (kind @ ''.'' @ host @ ''.'' @ name) host kind (VInt64 n) (VStr unit)
           (host @ '': container '' @ name @ '' '' @ verb @ '' '' @ int_str n @ '' times in '' @ lookback)
           [(''promql'', VStr promql), (''grafana_url'', VStr (grafana_url cfg))])"

definition restart_obs :: "config \<Rightarrow> string \<Rightarrow> vm_sample \<Rightarrow> observation list" where
  "restart_obs cfg lookback s =
     (if f_le (vs_value s) (f_num 1) then []
      else [event_obs cfg lookback (q_restarts lookback) ''container_restarts'' ''restarts'' ''restarted'' s])"

definition oom_obs :: "config \<Rightarrow> string \<Rightarrow> vm_sample \<Rightarrow> observation list" where
  "oom_obs cfg lookback s =
     (if f_lt (vs_value s) (f_num 1) then []
      else [event_obs cfg lookback (q_oom lookback) ''container_oom'' ''events'' ''was OOM-killed'' s])"

definition drift_of :: "vm_sample list \<Rightarrow> vm_sample list \<Rightarrow> container_key list \<times> container_key list" where
  "drift_of now_rows then_rows =
     (let cur = inventory now_rows; prev = inventory then_rows;
          keep = filter (\<lambda>k. comparable cur prev (fst k))
      in (keep cur, keep prev))"

definition collect_containers :: "vm \<Rightarrow> config \<Rightarrow> string + collector_data collector_result" where
  "collect_containers vm cfg =
     (let lookback = int_str (lookback_hours cfg) @ ''h'' in
      case vm_query vm q_containers of Inl err \<Rightarrow> Inl err
      | Inr now_rows \<Rightarrow>
          (case vm_query vm (q_containers_then lookback) of Inl err \<Rightarrow> Inl err
           | Inr then_rows \<Rightarrow>
               let (current, previous) = drift_of now_rows then_rows;
                   missing = lost_keys current previous; added = lost_keys previous current;
                   path = (\<lambda>(host, name). host @ ''/'' @ name)
               in map_sum id
                    (\<lambda>obs. (new_collector_result ''containers'')
                       \<lparr>c_data := Some (DContainers
                          \<lparr>cd_current = length current, cd_previous = length previous,
                           cd_missing = map path missing, cd_new = map path added\<rparr>),
                        c_observations := map (missing_obs cfg lookback) missing @ map (added_obs lookback) added @ obs\<rparr>)
                    (in_sequence [observe vm (q_restarts lookback) (restart_obs cfg lookback),
                                  observe vm (q_oom lookback) (oom_obs cfg lookback)])))"

section \<open>Availability of the monitors\<close>

definition availability_query :: "string \<Rightarrow> string" where
  "availability_query window =
     ''100 * sum_over_time((monitor_status == bool 1)['' @ window @
     '':1m]) / sum_over_time((monitor_status != bool 3)['' @ window @ '':1m])''"

definition downtime_minutes :: "f64 \<Rightarrow> f64 \<Rightarrow> f64" where
  "downtime_minutes pct window =
     (if f_ge pct (f_num 100) then f_zero
      else f_round (f_mul (f_div (f_add (f_num 100) (f_neg pct)) (f_num 100)) window))"

definition availability_text :: "f64 \<Rightarrow> f64 \<Rightarrow> string \<Rightarrow> string" where
  "availability_text pct window over =
     fmt_fixed 2 pct @ over @ '' (~'' @ fmt_fixed 0 (downtime_minutes pct window) @ '' min down)''"

definition availability_message :: "string \<Rightarrow> f64 \<Rightarrow> f64 option \<Rightarrow> string" where
  "availability_message name pct24 pct7 =
     name @ '' was '' @ availability_text pct24 (f_num 1440) ''% available over 24h'' @
     (case pct7 of None \<Rightarrow> [] | Some p \<Rightarrow> '', '' @ availability_text p (f_num 10080) ''% over 7d'')"

definition monitor_name_of :: "vm_sample \<Rightarrow> string" where
  "monitor_name_of s = label (vs_metric s) ''monitor_name''"

definition availability_obs :: "config \<Rightarrow> (string, f64) gmap \<Rightarrow> vm_sample \<Rightarrow> observation list" where
  "availability_obs cfg pct7 s =
     (let name = monitor_name_of s; p7 = mget pct7 name
      in if name = [] \<or> vs_value s = NaN then [] else
         [obs_of ''monitor_availability'' (''monitor_availability.'' @ name @ ''.'') name ''monitor_availability''
            (VF64 (round2 (vs_value s))) (VStr ''percent'') (availability_message name (vs_value s) p7)
            ([(''promql_24h'', VStr (availability_query ''24h'')), (''grafana_url'', VStr (grafana_url cfg))] @
             (case p7 of None \<Rightarrow> []
              | Some p \<Rightarrow> [(''availability_7d_percent'', VF64 (round2 p)),
                          (''downtime_minutes_7d'', VF64 (downtime_minutes p (f_num 10080)))]) @
             [(''downtime_minutes_24h'', VF64 (downtime_minutes (vs_value s) (f_num 1440)))])])"

definition collect_monitor_availability :: "vm \<Rightarrow> config \<Rightarrow> string + collector_data collector_result" where
  \<comment> \<open>\<^verbatim>\<open>sort.Slice\<close> by the name of the monitor, of which a query gives one series each\<close>
  "collect_monitor_availability vm cfg =
     (let result = new_collector_result ''monitor_availability'' in
      case vm_query vm (availability_query ''24h'') of Inl err \<Rightarrow> Inl err
      | Inr [] \<Rightarrow> Inr (result\<lparr>c_status := ''unavailable'',
                    c_error := ''no monitor_status series in VictoriaMetrics (Kuma scrape missing?)''\<rparr>)
      | Inr rows24 \<Rightarrow>
          (case vm_query vm (availability_query ''7d'') of Inl err \<Rightarrow> Inl err
           | Inr rows7 \<Rightarrow>
               let pct7 = index_by monitor_name_of vs_value (filter (\<lambda>s. vs_value s \<noteq> NaN) rows7)
               in Inr (result\<lparr>c_observations :=
                    concat (map (availability_obs cfg pct7) (sort_key monitor_name_of rows24))\<rparr>)))"

section \<open>AppSec, the part over metrics\<close>

definition q_appsec :: string where
  \<open>q_appsec = ''sum by(host) (increase(cs_appsec_block_total[24h]))''\<close>

definition appsec_match_obs :: "config \<Rightarrow> vm_sample \<Rightarrow> observation list" where
  "appsec_match_obs cfg s =
     (let host = smart_host (vs_metric s); n = f_to_int64 (vs_value s)
      in if f_lt (vs_value s) (f_num 1) then [] else
         [obs_of ''appsec'' (''appsec_matches_24h.'' @ host @ ''.'') host ''appsec_matches_24h'' (VInt64 n)
            (VStr ''requests'') (host @ '': AppSec matched '' @ int_str n @ '' request(s) in the last 24h'')
            [(''promql'', VStr q_appsec), (''grafana_url'', VStr (grafana_url cfg))]])"

section \<open>Lemmas\<close>

lemma in_inventory:
  "(h, n) \<in> set (inventory rows) \<longleftrightarrow>
     \<not> is_ephemeral n \<and> (\<exists>s \<in> set rows. label (vs_metric s) ''instance'' = h \<and> label (vs_metric s) ''name'' = n)"
  by (force simp: inventory_def)

lemma set_lost_keys: "set (lost_keys now before) = set before - set now"
  by (auto simp: lost_keys_def)

lemma sorted_lost_keys: "sorted (lost_keys now before)"
  by (simp add: lost_keys_def)

lemma distinct_lost_keys: "distinct before \<Longrightarrow> distinct (lost_keys now before)"
  by (simp add: lost_keys_def)

lemma lost_keys_eq:
  "distinct before \<Longrightarrow> lost_keys now before = sorted_list_of_set (set before - set now)"
  by (metis distinct_lost_keys set_lost_keys sorted_list_of_set.idem_if_sorted_distinct sorted_lost_keys)

lemma observe_Inl: "(\<exists>e. observe vm q f = Inl e) \<longleftrightarrow> (\<exists>e. vm_query vm q = Inl e)"
  by (cases "vm_query vm q") (auto simp: observe_def)

section \<open>Properties\<close>

definition running :: "vm_sample list \<Rightarrow> (string \<times> string) set" where
  "running rows =
     {(h, n). \<not> is_ephemeral n \<and> (\<exists>s \<in> set rows. label (vs_metric s) ''instance'' = h \<and> label (vs_metric s) ''name'' = n)}"

lemma set_inventory: "set (inventory rows) = running rows"
  by (auto simp: in_inventory running_def)

lemma distinct_inventory: "distinct (inventory rows)"
  by (simp add: inventory_def)

lemma drift_exact:
  assumes "drift_of nows thens = (current, previous)"
  shows "lost_keys current previous = sorted_list_of_set {k \<in> running thens - running nows. fst k \<in> fst ` running nows}"
    and "lost_keys previous current = sorted_list_of_set {k \<in> running nows - running thens. fst k \<in> fst ` running thens}"
proof -
  have cur: "current = filter (\<lambda>k. comparable (inventory nows) (inventory thens) (fst k)) (inventory nows)"
    and prev: "previous = filter (\<lambda>k. comparable (inventory nows) (inventory thens) (fst k)) (inventory thens)"
    using assms by (simp_all add: drift_of_def Let_def)
  have c: "distinct current" "set current = {k \<in> running nows. fst k \<in> fst ` running nows \<and> fst k \<in> fst ` running thens}"
    and p: "distinct previous" "set previous = {k \<in> running thens. fst k \<in> fst ` running nows \<and> fst k \<in> fst ` running thens}"
    unfolding cur prev by (simp_all add: comparable_def set_inventory distinct_inventory)
  have "set previous - set current = {k \<in> running thens - running nows. fst k \<in> fst ` running nows}"
    "set current - set previous = {k \<in> running nows - running thens. fst k \<in> fst ` running thens}"
    unfolding c p by auto
  with c(1) p(1) show "lost_keys current previous = sorted_list_of_set {k \<in> running thens - running nows. fst k \<in> fst ` running nows}"
    "lost_keys previous current = sorted_list_of_set {k \<in> running nows - running thens. fst k \<in> fst ` running thens}"
    by (simp_all add: lost_keys_eq)
qed

lemma kind_only_map_event:
  "kind_only k (concat (map (restart_obs cfg l) rows)) = (if k = ''container_restarts'' then concat (map (restart_obs cfg l) rows) else [])"
  "kind_only k (concat (map (oom_obs cfg l) rows)) = (if k = ''container_oom'' then concat (map (oom_obs cfg l) rows) else [])"
  by (induction rows) (auto simp: restart_obs_def oom_obs_def event_obs_def Let_def simp del: kind_only_simps(4))

lemma kind_only_map: "\<forall>x. o_kind (f x) = j \<Longrightarrow> kind_only k (map f xs) = (if k = j then map f xs else [])"
  by (induction xs) auto

text \<open>
  Claim C30.  The containers reported missing are exactly those that ran at the start of the
  window and do not run now, on the hosts that still run some container, each once and in order; those
  reported new are exactly the ones that run now and did not then, on the hosts that ran some.
  Containers of one-off runs count as neither.
\<close>

theorem container_drift_exact:
  assumes "vm_query vm q_containers = Inr nows"
    and "vm_query vm (q_containers_then (int_str (lookback_hours cfg) @ ''h'')) = Inr thens"
    and "collect_containers vm cfg = Inr r"
  shows "map (\<lambda>obs. (o_subject obs, o_value obs)) (kind_only ''container_missing'' (c_observations r)) =
      map (\<lambda>(h, n). (or_default h ''unknown'', VStr n))
        (sorted_list_of_set {k \<in> running thens - running nows. fst k \<in> fst ` running nows}) \<and>
    map (\<lambda>obs. (o_subject obs, o_value obs)) (kind_only ''container_new'' (c_observations r)) =
      map (\<lambda>(h, n). (h, VStr n))
        (sorted_list_of_set {k \<in> running nows - running thens. fst k \<in> fst ` running thens})"
proof -
  define l where "l = int_str (lookback_hours cfg) @ ''h''"
  obtain cur prev where d: "drift_of nows thens = (cur, prev)" by fastforce
  note lost = drift_exact [OF d]
  obtain rs ooms where obs: "c_observations r =
      map (missing_obs cfg l) (lost_keys cur prev) @ map (added_obs l) (lost_keys prev cur) @
      concat (map (restart_obs cfg l) rs) @ concat (map (oom_obs cfg l) ooms)"
  proof -
    from assms d obtain obs where o: "in_sequence [observe vm (q_restarts l) (restart_obs cfg l), observe vm (q_oom l) (oom_obs cfg l)] = Inr obs"
      "c_observations r = map (missing_obs cfg l) (lost_keys cur prev) @ map (added_obs l) (lost_keys prev cur) @ obs"
      by (auto simp: collect_containers_def Let_def l_def map_sum_def split: sum.splits)
    from o(1) obtain a b where "observe vm (q_restarts l) (restart_obs cfg l) = Inr a" "observe vm (q_oom l) (oom_obs cfg l) = Inr b"
      "obs = a @ b" by (auto simp: in_sequence_Inr Cons_eq_map_conv)
    with o(2) that show thesis by (auto simp: observe_def map_sum_def split: sum.splits)
  qed
  have m: "o_kind (missing_obs cfg l k) = ''container_missing''" "o_subject (missing_obs cfg l k) = or_default (fst k) ''unknown''"
    "o_value (missing_obs cfg l k) = VStr (snd k)" for k
    by (simp_all add: missing_obs_def split_beta)
  have a: "o_kind (added_obs l k) = ''container_new''" "o_subject (added_obs l k) = fst k" "o_value (added_obs l k) = VStr (snd k)" for k
    by (simp_all add: added_obs_def split_beta)
  show ?thesis
    unfolding obs lost [symmetric]
    by (simp add: kind_only_map_event kind_only_map [of "missing_obs cfg l" "''container_missing''"]
        kind_only_map [of "added_obs l" "''container_new''"] m a split_beta del: kind_only_simps(4))
qed

definition sample_series :: "string \<Rightarrow> vm_sample" where
  "sample_series name = \<lparr>vs_metric = [(''instance'', ''nas''), (''name'', name)], vs_value = f_num 1\<rparr>"

definition sample_vm :: vm where
  "sample_vm q =
     (let series = (\<lambda>name. ([(''instance'', ''nas''), (''name'', name)], VStr ''1''))
      in Inr \<lparr>vm_status = ''success'', vm_error = [],
              vm_result = (if q = q_containers then [series ''db''] else [series ''db'', series ''web''])\<rparr>)"

lemma sample_queries:
  "vm_query sample_vm q_containers = Inr [sample_series ''db'']"
  "q \<noteq> q_containers \<Longrightarrow> vm_query sample_vm q = Inr [sample_series ''db'', sample_series ''web'']"
proof -
  have "parse_float ''1'' = Some (f_num 1)" by code_simp
  then show "vm_query sample_vm q_containers = Inr [sample_series ''db'']"
    "q \<noteq> q_containers \<Longrightarrow> vm_query sample_vm q = Inr [sample_series ''db'', sample_series ''web'']"
    by (simp_all add: vm_query_def sample_vm_def sample_series_def)
qed

theorem container_drift_exact_witness:
  "\<exists>r. collect_containers sample_vm default_config = Inr r \<and>
     map (\<lambda>obs. (o_subject obs, o_value obs)) (kind_only ''container_missing'' (c_observations r)) = [(''nas'', VStr ''web'')]"
proof -
  let ?l = "int_str (lookback_hours default_config) @ ''h''"
  have q: "q_containers_then ?l \<noteq> q_containers" "q_restarts ?l \<noteq> q_containers" "q_oom ?l \<noteq> q_containers"
    by code_simp+
  have "\<exists>r. collect_containers sample_vm default_config = Inr r"
    by (simp add: collect_containers_def Let_def sample_queries q observe_def split_beta)
  then obtain r where r: "collect_containers sample_vm default_config = Inr r" by blast
  have "\<not> is_ephemeral ''db''" "\<not> is_ephemeral ''web''" by code_simp+
  then have run: "running [sample_series ''db''] = {(''nas'', ''db'')}"
    "running [sample_series ''db'', sample_series ''web''] = {(''nas'', ''db''), (''nas'', ''web'')}"
    by (auto simp: running_def sample_series_def label_def)
  have "{k \<in> {(''nas'', ''db''), (''nas'', ''web'')} - {(''nas'', ''db'')}. fst k \<in> fst ` {(''nas'', ''db'')}} = {(''nas'', ''web'')}"
    by auto
  with container_drift_exact [OF sample_queries(1) sample_queries(2) [OF q(1)] r] r show ?thesis
    by (simp add: run or_default_def)
qed

text \<open>
   No configured host goes unnoticed: when the host metrics are collected at all, every
  query succeeded, and each configured host is reported with the age of its metrics, or as
  missing exactly when the query for the ages returned nothing for it.
\<close>

theorem host_metrics_cover_hosts:
  assumes "collect_host_metrics vm cfg = Inr r" "host \<in> set (all_hosts cfg)"
  shows "list_all (\<lambda>q. \<exists>rows. vm_query vm q = Inr rows)
      [q_filesystems, q_projection, q_memory, q_load, q_steal, q_boot, q_units, q_age, q_smart, q_temperature, q_btrfs,
       q_decisions, q_alerts] \<and>
    (\<exists>obs \<in> set (c_observations r). o_subject obs = host \<and>
       o_kind obs = (if host \<in> (\<lambda>s. metric_host (vs_metric s)) ` set (rows_of vm q_age)
                     then ''metrics_stale'' else ''metrics_missing''))"
proof -
  from assms(1) obtain obs where obs: "in_sequence (host_rounds vm cfg) = Inr obs" "c_observations r = obs"
    by (cases "in_sequence (host_rounds vm cfg)") (auto simp: collect_host_metrics_def)
  then obtain xss where x: "host_rounds vm cfg = map Inr xss" "obs = concat xss" by (auto simp: in_sequence_Inr)
  have all: "\<exists>ys. q = Inr ys \<and> set ys \<subseteq> set obs" if "q \<in> set (host_rounds vm cfg)" for q
    using that x by auto
  have ok: "\<exists>rows. vm_query vm q = Inr rows" if "observe vm q f \<in> set (host_rounds vm cfg)" for q f
    using all [OF that] by (cases "vm_query vm q") (auto simp: observe_def)
  have age: "\<exists>rows. vm_query vm q_age = Inr rows \<and> set (map (age_obs cfg (ages_of rows)) (all_hosts cfg)) \<subseteq> set obs"
    using all [of "map_sum id (\<lambda>rows. map (age_obs cfg (ages_of rows)) (all_hosts cfg)) (vm_query vm q_age)"]
    by (cases "vm_query vm q_age") (auto simp: host_rounds_def)
  have pool: "\<exists>rows. vm_query vm q_btrfs = Inr rows"
    using all [of "map_sum id (\<lambda>rows. map (pool_obs cfg) (fold pool_round rows [])) (vm_query vm q_btrfs)"]
    by (cases "vm_query vm q_btrfs") (auto simp: host_rounds_def)
  from age obtain rows where rows: "vm_query vm q_age = Inr rows" "age_obs cfg (ages_of rows) host \<in> set obs"
    using assms(2) by auto
  have "host \<in> dom (mget (ages_of rows)) \<longleftrightarrow> host \<in> (\<lambda>s. metric_host (vs_metric s)) ` set rows"
    unfolding ages_of_def index_by_dom by simp
  then have "o_subject (age_obs cfg (ages_of rows) host) = host \<and>
      o_kind (age_obs cfg (ages_of rows) host) =
        (if host \<in> (\<lambda>s. metric_host (vs_metric s)) ` set (rows_of vm q_age) then ''metrics_stale'' else ''metrics_missing'')"
    by (auto simp: age_obs_def host_obs_def rows_of_def rows(1) split: option.splits)
  with rows(2) obs(2) have "\<exists>obs \<in> set (c_observations r). o_subject obs = host \<and>
       o_kind obs = (if host \<in> (\<lambda>s. metric_host (vs_metric s)) ` set (rows_of vm q_age)
                     then ''metrics_stale'' else ''metrics_missing'')" by blast
  moreover have "list_all (\<lambda>q. \<exists>rows. vm_query vm q = Inr rows)
      [q_filesystems, q_projection, q_memory, q_load, q_steal, q_boot, q_units, q_age, q_smart, q_temperature, q_btrfs,
       q_decisions, q_alerts]"
    unfolding list.pred_inject
    using ok [of _ "filesystem_obs cfg"] ok [of _ "projection_obs cfg"] ok [of _ "memory_obs cfg"] ok [of _ "load_obs cfg"]
      ok [of _ "steal_obs cfg"] ok [of _ "boot_obs cfg"] ok [of _ "unit_obs cfg"] ok [of _ "smart_health_obs cfg"]
      ok [of _ "temperature_obs cfg"] ok [of _ "decisions_obs cfg"] ok [of _ "alerts_obs cfg"] rows(1) pool
    by (intro conjI) (simp_all add: host_rounds_def)
  ultimately show ?thesis by blast
qed

theorem host_metrics_cover_hosts_witness:
  "\<exists>r. collect_host_metrics (\<lambda>_. Inr \<lparr>vm_status = ''success'', vm_error = [], vm_result = []\<rparr>)
         (default_config\<lparr>local_host := ''nuc''\<rparr>) = Inr r \<and>
     (\<exists>obs \<in> set (c_observations r). o_subject obs = ''nuc'' \<and> o_kind obs = ''metrics_missing'')"
proof -
  let ?vm = "\<lambda>_. Inr \<lparr>vm_status = ''success'', vm_error = [], vm_result = []\<rparr>"
  have q: "vm_query ?vm q = Inr []" for q by (simp add: vm_query_def)
  have "\<exists>r. collect_host_metrics ?vm (default_config\<lparr>local_host := ''nuc''\<rparr>) = Inr r"
    by (simp add: collect_host_metrics_def host_rounds_def observe_def q)
  then obtain r where r: "collect_host_metrics ?vm (default_config\<lparr>local_host := ''nuc''\<rparr>) = Inr r" by blast
  have "''nuc'' \<in> set (all_hosts (default_config\<lparr>local_host := ''nuc''\<rparr>))"
    by (simp add: all_hosts_def default_config_def mkeys_def)
  from conjunct2 [OF host_metrics_cover_hosts [OF r this]] r show ?thesis by (auto simp: rows_of_def q)
qed

end
