(* ===== verification/CO_Loki.thy ===== *)
theory CO_Loki
  imports CO_Base HR_Config HR_Run Go_Regex Go_Sort Go_Time CO_Victoria
begin

text \<open>
  The collectors that query Loki: the log facts
  (\<^verbatim>\<open>src/tools/internal/healthreport/collectors/loki.go\<close>) with the link of \<^verbatim>\<open>base.go\<close>, the AppSec
  failures (\<^verbatim>\<open>appsec.go\<close>), the violations of the content security policy (\<^verbatim>\<open>csp_reports.go\<close>) and the
  refused pushes (\<^verbatim>\<open>ntfy_denied.go\<close>).  The answer to a query is a parameter: an error, or the
  decoded document, with \<^verbatim>\<open>json.RawMessage\<close> as the value it encodes.  A panic is an \<open>Inl\<close>.
\<close>

section \<open>Normalized lines\<close>

definition hex_re :: re where
  \<comment> \<open>\<^verbatim>\<open>(?i)[0-9a-f]\<close>\<close>
  "hex_re = Chr (\<lambda>c. is_digit c \<or> (CHR ''a'' \<le> c \<and> c \<le> CHR ''f'') \<or> (CHR ''A'' \<le> c \<and> c \<le> CHR ''F''))"

definition digit_re :: re where "digit_re = Chr is_digit"

definition path_char :: "char \<Rightarrow> bool" where
  "path_char c \<longleftrightarrow> re_word c \<or> c = CHR ''.'' \<or> c = CHR ''-''"

definition ansi_re :: re where
  "ansi_re = cats [char_re (CHR 0x1B), char_re (CHR ''[''), Star (Chr (\<lambda>c. is_digit c \<or> c = CHR '';'')),
     Chr (\<lambda>c. (CHR ''A'' \<le> c \<and> c \<le> CHR ''Z'') \<or> (CHR ''a'' \<le> c \<and> c \<le> CHR ''z''))]"

definition uuid_re :: re where
  "uuid_re = (let dash = char_re (CHR ''-'') in
     cats [Boundary, times 8 hex_re, dash, times 4 hex_re, dash, times 4 hex_re, dash, times 4 hex_re, dash,
       times 12 hex_re, Boundary])"

definition ip_re :: re where
  "ip_re = (let part = Cat digit_re (up_to 2 digit_re) in
     cats [Boundary, times 3 (Cat part (char_re (CHR ''.''))), part,
       opt (Cat (char_re (CHR '':'')) (plus digit_re)), Boundary])"

definition hash_re :: re where
  "hash_re = cats [Boundary, times 16 hex_re, Star hex_re, Boundary]"

definition stamp_re :: re where
  "stamp_re = (let dash = char_re (CHR ''-''); colon = char_re (CHR '':''); two = times 2 digit_re in
     cats [Boundary, times 4 digit_re, dash, two, dash, two, Chr (\<lambda>c. c = CHR ''T'' \<or> c = CHR '' ''),
       two, colon, two, colon, two, Star (Chr (\<lambda>c. \<not> re_space c))])"

definition path_re :: re where
  "path_re = cats [Star (Chr path_char), char_re (CHR ''/''), plus (Chr (\<lambda>c. path_char c \<or> c = CHR ''/''))]"

definition number_re :: re where
  "number_re = cats [Boundary, plus digit_re, Boundary]"

definition normalizers :: "(re \<times> string) list" where
  "normalizers = [(ansi_re, []), (uuid_re, ''<uuid>''), (ip_re, ''<ip>''), (hash_re, ''<hash>''), (stamp_re, ''<ts>''),
     (path_re, ''<path>''), (number_re, ''<n>''), (plus (Chr re_space), '' '')]"

definition normalize :: "string \<Rightarrow> string" where
  "normalize line = cut_to 200 (fold (\<lambda>(r, new) text. replace_re r new text) normalizers (trim_space line))"

section \<open>Maintenance windows\<close>

definition weekdays :: "string list" where
  "weekdays = [''mon'', ''tue'', ''wed'', ''thu'', ''fri'', ''sat'', ''sun'']"

record maintenance_window =
  mw_day :: int \<comment> \<open>-1 for daily\<close>
  mw_start :: int
  mw_end :: int

definition window_time :: "string \<Rightarrow> (int \<times> string) option" where
  \<comment> \<open>\<^verbatim>\<open>(\d{1,2}):(\d{2})\<close>; in \<^verbatim>\<open>windowRe\<close> no digit can follow\<close>
  "window_time s =
     (let h = takeWhile is_digit s
      in if h = [] \<or> 2 < length h then None
         else case dropWhile is_digit s of [] \<Rightarrow> None
         | c # r \<Rightarrow>
             let m = takeWhile is_digit r
             in if c = CHR '':'' \<and> length m = 2 then Some (digits_val h * 60 + digits_val m, dropWhile is_digit r)
                else None)"

definition parse_window :: "string \<Rightarrow> maintenance_window option" where
  "parse_window spec =
     (let s = dropWhile re_space spec
      in case find (has_prefix (to_lower s)) (''daily'' # weekdays) of None \<Rightarrow> None
      | Some day \<Rightarrow>
          let r = drop (length day) s
          in if r = [] \<or> \<not> re_space (hd r) then None
             else case window_time (dropWhile re_space r) of None \<Rightarrow> None
             | Some (start, r1) \<Rightarrow>
                 (case dropWhile re_space r1 of [] \<Rightarrow> None
                  | c # r2 \<Rightarrow>
                      if c \<noteq> CHR ''-'' then None
                      else case window_time (dropWhile re_space r2) of None \<Rightarrow> None
                      | Some (end_minute, r3) \<Rightarrow>
                          if \<not> list_all re_space r3 then None
                          else Some \<lparr>mw_day = (if day = ''daily'' then - 1
                                               else int (length (takeWhile (\<lambda>d. d \<noteq> day) weekdays))),
                                     mw_start = start, mw_end = end_minute\<rparr>))"

definition parse_maintenance_windows :: "string list \<Rightarrow> maintenance_window list" where
  "parse_maintenance_windows specs =
     concat (map (\<lambda>spec. case parse_window spec of None \<Rightarrow> [] | Some w \<Rightarrow> [w]) specs)"

definition go_weekday :: "gtime \<Rightarrow> int" where
  \<comment> \<open>\<^verbatim>\<open>t.Weekday()\<close>, Sunday is 0; day 0 was a Thursday\<close>
  "go_weekday t = (local_sec t div 86400 + 4) mod 7"

definition window_hit :: "int \<Rightarrow> int \<Rightarrow> maintenance_window \<Rightarrow> bool" where
  "window_hit weekday minute w \<longleftrightarrow>
     (if mw_start w \<le> mw_end w then
        (mw_day w = - 1 \<or> mw_day w = weekday) \<and> mw_start w \<le> minute \<and> minute < mw_end w
      else
        ((mw_day w = - 1 \<or> mw_day w = weekday) \<and> mw_start w \<le> minute) \<or>
        ((mw_day w = - 1 \<or> mw_day w = (weekday - 1 + 7) mod 7) \<and> minute < mw_end w))"

definition in_window :: "gtime \<Rightarrow> maintenance_window list \<Rightarrow> bool" where
  "in_window t windows =
     (let minute = local_sec t mod 86400 div 60; weekday = (go_weekday t + 6) mod 7
      in list_ex (window_hit weekday minute) windows)"

record sample =
  sm_ts :: int
  sm_value :: f64

definition unix_time :: "zone \<Rightarrow> int \<Rightarrow> gtime" where
  "unix_time loc ts = \<lparr>t_ns = ts * 10 ^ 9, t_zone = loc\<rparr>"

definition split_maintenance ::
  "zone \<Rightarrow> sample list \<Rightarrow> maintenance_window list \<Rightarrow> sample list \<times> sample list" where
  "split_maintenance loc series windows =
     (if windows = [] then (series, [])
      else let hit = (\<lambda>s. in_window (unix_time loc (sm_ts s - 3600)) windows)
           in (filter (\<lambda>s. \<not> hit s) series, filter hit series))"

definition weekday_names :: "string list" where
  "weekday_names = [''Sun'', ''Mon'', ''Tue'', ''Wed'', ''Thu'', ''Fri'', ''Sat'']"

definition hour_label :: "zone \<Rightarrow> int \<Rightarrow> string" where
  "hour_label loc ts =
     (if ts = 0 then ''n/a''
      else let t = unix_time loc ts; s = local_sec t mod 86400
           in weekday_names ! nat (go_weekday t) @ '' '' @ pad2 (s div 3600) @ '':'' @ pad2 (s mod 3600 div 60))"

section \<open>Queries\<close>

record 'r loki_payload =
  lp_status :: string
  lp_text :: string \<comment> \<open>the document as \<^verbatim>\<open>%v\<close> prints it\<close>
  lp_result :: "'r list"

type_synonym matrix_row = "(string, string) gmap \<times> (any option \<times> any option) list"
  \<comment> \<open>the labels and the pairs of a series; \<open>None\<close> where the array is too short\<close>

record loki_stream =
  ls_stream :: "(string, string) gmap"
  ls_values :: "(string \<times> string) list"

record loki_world =
  lw_matrix :: "string \<Rightarrow> int \<Rightarrow> int \<Rightarrow> string + matrix_row loki_payload" \<comment> \<open>query, hours, step\<close>
  lw_instant :: "string \<Rightarrow> string + ((string, string) gmap \<times> any option) loki_payload"
  lw_range :: "string \<Rightarrow> int \<Rightarrow> int \<Rightarrow> string + loki_stream loki_payload" \<comment> \<open>query, hours, limit\<close>
  lw_local :: zone
  lw_sha1 :: "string \<Rightarrow> string" \<comment> \<open>in hexadecimal\<close>
  lw_json :: "any \<Rightarrow> string" \<comment> \<open>\<^verbatim>\<open>json.Marshal\<close> of a value of maps and strings\<close>

definition loki_result :: "string + 'r loki_payload \<Rightarrow> string + 'r list" where
  "loki_result answer =
     (case answer of Inl err \<Rightarrow> Inl err
      | Inr p \<Rightarrow> if lp_status p \<noteq> ''success'' then Inl (''loki query failed: '' @ lp_text p) else Inr (lp_result p))"

definition raw_string :: "any option \<Rightarrow> string option" where
  \<comment> \<open>\<^verbatim>\<open>json.Unmarshal\<close> into a string; a null leaves it empty\<close>
  "raw_string raw =
     (case raw of Some (VStr s) \<Rightarrow> Some s | Some VNil \<Rightarrow> Some [] | _ \<Rightarrow> None)"

definition raw_float :: "any option \<Rightarrow> f64 option" where
  "raw_float raw = Option.bind (raw_string raw) parse_float"

definition matrix_points :: "(any option \<times> any option) list \<Rightarrow> sample list" where
  "matrix_points pairs =
     concat (map (\<lambda>(ts, val).
         case raw_float ts of None \<Rightarrow> []
         | Some t \<Rightarrow> (case raw_float val of None \<Rightarrow> [] | Some v \<Rightarrow> [\<lparr>sm_ts = f_to_int64 t, sm_value = v\<rparr>]))
       pairs)"

definition loki_query_matrix ::
  "loki_world \<Rightarrow> string \<Rightarrow> int \<Rightarrow> int \<Rightarrow> string + ((string, string) gmap \<times> sample list) list" where
  "loki_query_matrix w logql hrs step =
     map_sum id (map (map_prod id matrix_points)) (loki_result (lw_matrix w logql hrs step))"

definition loki_query_instant :: "loki_world \<Rightarrow> string \<Rightarrow> string + vm_sample list" where
  "loki_query_instant w logql =
     map_sum id (\<lambda>rows. concat (map (\<lambda>(metric, val).
         case raw_float val of None \<Rightarrow> [] | Some v \<Rightarrow> [\<lparr>vs_metric = metric, vs_value = v\<rparr>]) rows))
       (loki_result (lw_instant w logql))"

definition loki_query_range :: "loki_world \<Rightarrow> string \<Rightarrow> int \<Rightarrow> int \<Rightarrow> string + loki_stream list" where
  "loki_query_range w logql hrs limit = loki_result (lw_range w logql hrs limit)"

section \<open>Links\<close>

definition grafana_explore_url :: "loki_world \<Rightarrow> string \<Rightarrow> string \<Rightarrow> string" where
  "grafana_explore_url w base logql =
     (if base = [] \<or> logql = [] then []
      else let pane = VMap [(''datasource'', VStr ''loki''),
             (''queries'', VList [VMap [(''refId'', VStr ''A''), (''expr'', VStr logql),
                (''datasource'', VMap [(''type'', VStr ''loki''), (''uid'', VStr ''loki'')])]]),
             (''range'', VMap [(''from'', VStr ''now-24h''), (''to'', VStr ''now'')])]
           in trim_right_char (CHR ''/'') base @ ''/explore?'' @
              encode_values [(''schemaVersion'', ''1''), (''panes'', lw_json w (VMap [(''p1'', pane)])), (''orgId'', ''1'')])"

section \<open>The queries of the log facts\<close>

definition error_pattern :: string where
  "error_pattern = ''(?i)(error|fatal|panic|traceback|exception)''"

definition not_error_pattern :: string where
  \<open>not_error_pattern = ''(?i)(error=<nil>|error=null|"error":null|"error":""|err=<nil>|error='' @ [CHR 0x5C] @ ''s*$|error:'' @
     [CHR 0x5C] @ ''s*none'' @ [CHR 0x5C] @ ''b)''\<close>

definition self_log_pattern :: string where
  "self_log_pattern = ''(component=querier|component=ingester|caller=(metrics|engine)'' @ [CHR 0x5C] @ ''.go)''"

definition known_noise_pattern :: string where
  "known_noise_pattern =
     ''(?i)(ConflictInMappingEntry|Failed to acquire open port|Couldn'' @ [CHR 0x27] @
     ''t add pinhole|SvelteKitError: Not found|Error ID: [0-9a-f-]+ '' @ [CHR 0x5C] @ ''{ status: 40[45], message: '' @
     [CHR 0x27] @ ''[^'' @ [CHR 0x27] @ '']*'' @ [CHR 0x27] @ '' '' @ [CHR 0x5C] @
     ''}|Error occurred during request: (GET|POST|HEAD|PUT|DELETE|OPTIONS) https://)''"

definition docker_errors :: string where
  \<open>docker_errors =
     (let tick = (\<lambda>s. [CHR 0x60] @ s @ [CHR 0x60])
      in ''{job="docker"} |~ '' @ tick error_pattern @ '' !~ '' @ tick not_error_pattern @ '' !~ '' @
         tick self_log_pattern @ '' !~ '' @ tick known_noise_pattern)\<close>

definition q_error_counts :: "string \<Rightarrow> string" where
  "q_error_counts hrs =
     ''sum by (host, container) (count_over_time('' @ docker_errors @ '' ['' @ hrs @ ''h]))''"

definition q_auth :: "string \<Rightarrow> string" where
  \<open>q_auth hrs = ''sum by (host) (count_over_time({job="auth"} |= "Failed password" ['' @ hrs @ ''h]))''\<close>

definition q_caddy :: string where
  \<open>q_caddy = ''sum by (host) (count_over_time({job="caddy"} | json | status >= 500 [1h]))''\<close>

section \<open>Log facts\<close>

record log_signature =
  lg_container :: string
  lg_host :: string
  lg_text :: string
  lg_count :: int
  lg_example :: string

definition host_label :: "(string, string) gmap \<Rightarrow> string" where
  "host_label m = or_default (or_default (label m ''host'') (label m ''instance'')) ''unknown''"

definition container_label :: "(string, string) gmap \<Rightarrow> string" where
  "container_label m = or_default (label m ''container'') ''unknown''"

definition count_round ::
  "vm_sample \<Rightarrow> (string \<times> string, int) gmap \<Rightarrow> (string \<times> string, int) gmap" where
  "count_round row m =
     (if is_ephemeral (container_label (vs_metric row)) then m
      else mput (host_label (vs_metric row), container_label (vs_metric row)) (f_to_int64 (vs_value row)) m)"

definition signature_key :: "string \<Rightarrow> string \<Rightarrow> string" where
  "signature_key container sig = container @ ''|'' @ sig"

definition line_round ::
  "(string, string) gmap \<Rightarrow> string \<Rightarrow> (string, log_signature) gmap \<Rightarrow> (string, log_signature) gmap" where
  "line_round m line sigs =
     (let container = container_label m; sig = normalize line; key = signature_key container sig;
          entry = (case mget sigs key of Some e \<Rightarrow> e
                   | None \<Rightarrow> \<lparr>lg_container = container, lg_host = host_label m, lg_text = sig, lg_count = 0,
                              lg_example = cut_to 400 (trim_space line)\<rparr>)
      in if sig = [] then sigs else mput key (entry\<lparr>lg_count := lg_count entry + 1\<rparr>) sigs)"

definition stream_round :: "loki_stream \<Rightarrow> (string, log_signature) gmap \<Rightarrow> (string, log_signature) gmap" where
  "stream_round st sigs =
     (if is_ephemeral (container_label (ls_stream st)) then sigs
      else fold (\<lambda>pair. line_round (ls_stream st) (snd pair)) (ls_values st) sigs)"

definition by_count :: "log_signature \<Rightarrow> log_signature \<Rightarrow> bool" where
  "by_count a b \<longleftrightarrow> lg_count b < lg_count a"

definition ranked_signatures :: "loki_stream list \<Rightarrow> log_signature list" where
  "ranked_signatures streams = slice_stable by_count (map snd (fold stream_round streams []))"

definition min_signature_count :: int where "min_signature_count = 10"
definition max_signatures :: nat where "max_signatures = 15"

definition notable_signatures :: "log_signature list \<Rightarrow> log_signature list" where
  "notable_signatures ranked = take max_signatures (filter (\<lambda>e. min_signature_count \<le> lg_count e) ranked)"

definition signature_row :: "log_signature \<Rightarrow> any" where
  "signature_row e = VMap [(''container'', VStr (lg_container e)), (''host'', VStr (lg_host e)),
     (''signature'', VStr (lg_text e)), (''count'', VInt (lg_count e)), (''example'', VStr (lg_example e))]"

definition count_row :: "(string \<times> string) \<times> int \<Rightarrow> any" where
  "count_row = (\<lambda>((host, container), n).
     VMap [(''host'', VStr host), (''container'', VStr container), (''errors'', VInt n)])"

definition logs_obs ::
  "string \<Rightarrow> string \<Rightarrow> string \<Rightarrow> any \<Rightarrow> string \<Rightarrow> string \<Rightarrow> (string, any) gmap \<Rightarrow> observation" where
  "logs_obs i subject kind val unit msg evidence = obs_of ''logs'' i subject kind val (VStr unit) msg evidence"

definition log_evidence :: "loki_world \<Rightarrow> config \<Rightarrow> (string, any) gmap" where
  "log_evidence w cfg = [(''logql'', VStr docker_errors), (''url'', VStr (grafana_explore_url w (grafana_url cfg) docker_errors))]"

definition sig_key :: "loki_world \<Rightarrow> string \<Rightarrow> string" where
  "sig_key w sig = take 12 (lw_sha1 w sig)"

definition signature_obs :: "loki_world \<Rightarrow> config \<Rightarrow> log_signature \<Rightarrow> observation" where
  "signature_obs w cfg e =
     logs_obs (''log_signature.'' @ lg_container e @ ''.'' @ sig_key w (lg_text e)) (lg_host e) ''log_signature''
       (VInt (lg_count e)) ''occurrences_in_sample''
       (lg_container e @ '': '' @ cut_to 140 (lg_text e) @ '' (x'' @ int_str (lg_count e) @ '' in sample)'')
       ((''example'', VStr (lg_example e)) # log_evidence w cfg)"

definition rate_obs :: "loki_world \<Rightarrow> config \<Rightarrow> (string \<times> string) \<times> int \<Rightarrow> observation" where
  "rate_obs w cfg = (\<lambda>((host, container), n).
     logs_obs (''log_error_rate.'' @ host @ ''.'' @ container) host ''log_error_rate'' (VInt n) ''lines''
       (host @ ''/'' @ container @ '' logged '' @ format_thousands (f_of_int n) @ '' error lines in '' @
        int_str (lookback_hours cfg) @ ''h'')
       (log_evidence w cfg))"

definition auth_counts :: "vm_sample list \<Rightarrow> (string, int) gmap" where
  "auth_counts rows =
     fold (\<lambda>row. mput (or_default (label (vs_metric row) ''host'') ''unknown'') (f_to_int64 (vs_value row))) rows []"

definition auth_obs :: "string \<Rightarrow> string \<times> int \<Rightarrow> observation" where
  "auth_obs hrs = (\<lambda>(host, n).
     logs_obs (''auth_failures.'' @ host @ ''.'') host ''auth_failures'' (VInt n) ''attempts''
       (host @ '' saw '' @ int_str n @ '' failed SSH password attempts in '' @ hrs @ ''h'')
       [(''logql'', VStr (q_auth hrs))])"

text \<open>The answers of 500 and above that the proxy served, hour by hour.\<close>

definition bucket_round ::
  "(string, string) gmap \<times> sample list \<Rightarrow> (string, sample list) gmap \<Rightarrow> (string, sample list) gmap" where
  "bucket_round = (\<lambda>(metric, series) m.
     let host = or_default (label metric ''host'') ''mljr''
     in mput host ((case mget m host of Some xs \<Rightarrow> xs | None \<Rightarrow> []) @ series) m)"

definition sum_values :: "sample list \<Rightarrow> f64" where
  "sum_values xs = fold (\<lambda>s total. f_add total (sm_value s)) xs f_zero"

definition peak_of :: "sample list \<Rightarrow> f64 \<times> int" where
  "peak_of xs = fold (\<lambda>s (peak, ts). if f_gt (sm_value s) peak then (sm_value s, sm_ts s) else (peak, ts)) xs (f_zero, 0)"

definition caddy_host :: "loki_world \<Rightarrow> config \<Rightarrow> string \<times> sample list \<Rightarrow> any \<times> observation list" where
  "caddy_host w cfg = (\<lambda>(host, series).
     let (kept, suppressed) = split_maintenance (lw_local w) series (parse_maintenance_windows (maintenance_windows cfg));
         all = sum_values kept; suppressed_all = f_to_int64 (sum_values suppressed); threshold = caddy_5xx_hour_threshold cfg;
         bad = int (length (filter (\<lambda>s. f_ge (sm_value s) (f_of_int threshold)) kept)); (peak, peak_ts) = peak_of kept;
         at_peak = hour_label (lw_local w) peak_ts; hrs = int_str (lookback_hours cfg); n = int (length suppressed);
         evidence = [(''logql'', VStr q_caddy), (''hour_threshold'', VInt threshold), (''peak_hour'', VStr at_peak),
           (''peak'', VInt64 (f_to_int64 peak)), (''maintenance_windows'', VList (map VStr (maintenance_windows cfg))),
           (''suppressed_responses'', VInt64 suppressed_all), (''suppressed_hours'', VInt n)]
     in (VMap [(''total'', VInt64 (f_to_int64 all)), (''suppressed'', VInt64 suppressed_all), (''suppressed_hours'', VInt n),
           (''bad_hours'', VInt bad), (''peak'', VInt64 (f_to_int64 peak))],
         [logs_obs (''caddy_5xx.'' @ host @ ''.'') host ''caddy_5xx'' (VInt64 (f_to_int64 all)) ''responses''
            (host @ '' served '' @ format_thousands all @ '' 5xx responses in '' @ hrs @ ''h (excluding '' @ int_str n @
             '' maintenance hour(s))'') evidence,
          (logs_obs (''caddy_5xx_hours.'' @ host @ ''.'') host ''caddy_5xx_hours'' (VInt bad) ''hours''
            (host @ '' had '' @ int_str bad @ '' hour(s) above '' @ int_str threshold @ '' 5xx in '' @ hrs @ ''h (peak '' @
             format_thousands peak @ '' at '' @ at_peak @ '')'') evidence)\<lparr>o_threshold := VInt threshold\<rparr>]))"

definition collect_logs :: "loki_world \<Rightarrow> config \<Rightarrow> string + collector_data collector_result" where
  "collect_logs w cfg =
     (let hrs = int_str (lookback_hours cfg)
      in case loki_query_instant w (q_error_counts hrs) of Inl err \<Rightarrow> Inl err
      | Inr count_rows \<Rightarrow>
      case loki_query_range w docker_errors (lookback_hours cfg) 5000 of Inl err \<Rightarrow> Inl err
      | Inr streams \<Rightarrow>
      case loki_query_instant w (q_auth hrs) of Inl err \<Rightarrow> Inl err
      | Inr auth_rows \<Rightarrow>
      case loki_query_matrix w q_caddy (lookback_hours cfg) 3600 of Inl err \<Rightarrow> Inl err
      | Inr matrix_rows \<Rightarrow>
          let ranked = ranked_signatures streams; notable = notable_signatures ranked;
              counts = take 50 (slice_stable (\<lambda>a b. snd b < snd a) (fold count_round count_rows []));
              auth = auth_counts auth_rows;
              caddy = map (\<lambda>p. (fst p, caddy_host w cfg p)) (fold bucket_round matrix_rows [])
          in Inr ((new_collector_result ''logs'')\<lparr>
               c_data := Some (DOther (VMap
                 [(''signature_count'', VInt (int (length ranked))), (''notable_count'', VInt (int (length notable))),
                  (''signatures'', VList (map signature_row (take 100 ranked))),
                  (''per_container'', VList (map count_row counts)),
                  (''auth_failures'', VMap (map (\<lambda>(h, n). (h, VInt n)) auth)),
                  (''caddy_5xx'', VMap (map (\<lambda>(h, r). (h, fst r)) caddy))])),
               c_observations := map (signature_obs w cfg) notable @ map (rate_obs w cfg) counts @
                 map (auth_obs hrs) auth @ concat (map (\<lambda>(_, r). snd r) caddy)\<rparr>))"

section \<open>Lemmas on the windows\<close>

definition duration :: "maintenance_window \<Rightarrow> int" where
  \<comment> \<open>in minutes; a window that ends before it starts ends on the next day\<close>
  "duration w = (if mw_start w \<le> mw_end w then mw_end w - mw_start w else mw_end w + 1440 - mw_start w)"

definition on_day :: "maintenance_window \<Rightarrow> int \<Rightarrow> bool" where
  \<comment> \<open>the window opens on a day, counted from Thursday, the 1st of January 1970\<close>
  "on_day w day \<longleftrightarrow> mw_day w = - 1 \<or> mw_day w = (day + 3) mod 7"

lemma window_hit_days:
  assumes "0 \<le> mw_start w" "mw_start w < 1440" "0 \<le> mw_end w" "mw_end w \<le> 1440" "0 \<le> minute" "minute < 1440"
  shows "window_hit ((day + 3) mod 7) minute w \<longleftrightarrow>
    (\<exists>d. on_day w d \<and> d * 1440 + mw_start w \<le> day * 1440 + minute \<and>
       day * 1440 + minute < d * 1440 + mw_start w + duration w)"
proof -
  have prev: "((day + 3) mod 7 - 1 + 7) mod 7 = (day - 1 + 3) mod 7" by presburger
  have "d = day \<or> d = day - 1"
    if "d * 1440 + mw_start w \<le> day * 1440 + minute" "day * 1440 + minute < d * 1440 + mw_start w + duration w" for d
    using that assms by (auto simp: duration_def split: if_splits)
  then have "(\<exists>d. on_day w d \<and> d * 1440 + mw_start w \<le> day * 1440 + minute \<and>
       day * 1440 + minute < d * 1440 + mw_start w + duration w) \<longleftrightarrow>
    (\<exists>d \<in> {day, day - 1}. on_day w d \<and> d * 1440 + mw_start w \<le> day * 1440 + minute \<and>
       day * 1440 + minute < d * 1440 + mw_start w + duration w)"
    by blast
  also have "\<dots> \<longleftrightarrow> (on_day w day \<and> mw_start w \<le> minute \<and> minute < mw_start w + duration w) \<or>
      (on_day w (day - 1) \<and> minute + 1440 < mw_start w + duration w)"
    using assms by (simp add: left_diff_distrib) linarith
  also have "\<dots> \<longleftrightarrow> window_hit ((day + 3) mod 7) minute w"
    unfolding window_hit_def prev on_day_def duration_def using assms by auto
  finally show ?thesis by simp
qed

section \<open>Lemmas on the signatures\<close>

definition sample_lines :: "loki_stream list \<Rightarrow> ((string, string) gmap \<times> string) list" where
  \<comment> \<open>the lines of the containers that stay, with their labels\<close>
  "sample_lines streams =
     concat (map (\<lambda>st. map (\<lambda>pair. (ls_stream st, snd pair)) (ls_values st))
       (filter (\<lambda>st. \<not> is_ephemeral (container_label (ls_stream st))) streams))"

definition line_keys :: "((string, string) gmap \<times> string) list \<Rightarrow> string list" where
  "line_keys lines =
     map (\<lambda>(m, line). signature_key (container_label m) (normalize line)) (filter (\<lambda>(m, line). normalize line \<noteq> []) lines)"

definition entry_key :: "log_signature \<Rightarrow> string" where
  "entry_key e = signature_key (lg_container e) (lg_text e)"

lemma fold_streams:
  "fold stream_round streams sigs = fold (\<lambda>(m, line). line_round m line) (sample_lines streams) sigs"
proof (induction streams arbitrary: sigs)
  case (Cons st streams)
  then show ?case by (simp add: stream_round_def sample_lines_def fold_map comp_def split_beta)
qed (simp add: sample_lines_def)

definition counted :: "string list \<Rightarrow> (string, log_signature) gmap \<Rightarrow> bool" where
  "counted keys sigs \<longleftrightarrow> map_ok sigs \<and> dom (mget sigs) = set keys \<and>
     (\<forall>k e. mget sigs k = Some e \<longrightarrow> entry_key e = k \<and> lg_count e = int (count_list keys k))"

lemma counted_round:
  assumes "counted (line_keys lines) sigs"
  shows "counted (line_keys (lines @ [(m, line)])) (line_round m line sigs)"
proof (cases "normalize line = []")
  case True
  with assms show ?thesis by (simp add: line_round_def line_keys_def Let_def)
next
  case False
  define key where "key = signature_key (container_label m) (normalize line)"
  have keys: "line_keys (lines @ [(m, line)]) = line_keys lines @ [key]" using False by (simp add: line_keys_def key_def)
  have zero: "count_list (line_keys lines) key = 0" if "mget sigs key = None"
    using that assms unfolding counted_def by (metis count_list_0_iff domIff)
  define e where "e = (case mget sigs key of Some e \<Rightarrow> e
     | None \<Rightarrow> \<lparr>lg_container = container_label m, lg_host = host_label m, lg_text = normalize line, lg_count = 0,
                lg_example = cut_to 400 (trim_space line)\<rparr>)"
  have "line_round m line sigs = mput key (e\<lparr>lg_count := lg_count e + 1\<rparr>) sigs"
    using False by (simp add: line_round_def Let_def key_def e_def)
  moreover have "entry_key e = key" "lg_count e = int (count_list (line_keys lines) key)"
  proof (atomize (full), cases "mget sigs key")
    case None
    then show "entry_key e = key \<and> lg_count e = int (count_list (line_keys lines) key)"
      using zero by (simp add: e_def entry_key_def flip: key_def)
  next
    case (Some e')
    with assms show "entry_key e = key \<and> lg_count e = int (count_list (line_keys lines) key)"
      by (simp add: e_def counted_def)
  qed
  moreover have "entry_key (e\<lparr>lg_count := n\<rparr>) = entry_key e" for n by (simp add: entry_key_def)
  ultimately obtain e where e: "line_round m line sigs = mput key e sigs"
    "entry_key e = key" "lg_count e = int (count_list (line_keys lines) key) + 1" by fastforce
  with assms show ?thesis unfolding keys by (auto simp: counted_def)
qed

lemma counted_all: "counted (line_keys lines) (fold (\<lambda>(m, line). line_round m line) lines [])"
proof (induction lines rule: rev_induct)
  case Nil
  show ?case by (simp add: counted_def line_keys_def map_ok_def mkeys_def)
next
  case (snoc x lines)
  then show ?case using counted_round by (cases x) simp
qed

interpretation count_order: weak_order by_count "\<lambda>_. True"
  by unfold_locales (auto simp: by_count_def)

lemma logs_obs_simps [simp]:
  "o_kind (logs_obs i s k v u m e) = k" "o_value (logs_obs i s k v u m e) = v" "o_subject (logs_obs i s k v u m e) = s"
  "o_id (logs_obs i s k v u m e) = i"
  by (simp_all add: logs_obs_def)

lemma kind_of_obs [simp]:
  "o_kind (signature_obs w cfg e) = ''log_signature''" "o_kind (rate_obs w cfg p) = ''log_error_rate''"
  "o_kind (auth_obs hrs q) = ''auth_failures''"
  by (simp_all add: signature_obs_def rate_obs_def auth_obs_def split_beta)

lemma kind_of_caddy:
  "obs \<in> set (snd (caddy_host w cfg p)) \<Longrightarrow> o_kind obs = ''caddy_5xx'' \<or> o_kind obs = ''caddy_5xx_hours''"
  by (auto simp: caddy_host_def Let_def split_beta)

lemma collect_logs_ok:
  assumes "collect_logs w cfg = Inr r"
  obtains streams counts auth matrix_rows where
    "loki_query_range w docker_errors (lookback_hours cfg) 5000 = Inr streams"
    "loki_query_matrix w q_caddy (lookback_hours cfg) 3600 = Inr matrix_rows"
    "c_observations r = map (signature_obs w cfg) (notable_signatures (ranked_signatures streams)) @
       map (rate_obs w cfg) counts @ map (auth_obs (int_str (lookback_hours cfg))) auth @
       concat (map (\<lambda>p. snd (caddy_host w cfg p)) (fold bucket_round matrix_rows []))"
proof -
  note def = assms [unfolded collect_logs_def Let_def]
  from def obtain count_rows where 1: "loki_query_instant w (q_error_counts (int_str (lookback_hours cfg))) = Inr count_rows"
    by (cases "loki_query_instant w (q_error_counts (int_str (lookback_hours cfg)))") simp_all
  from def 1 obtain streams where 2: "loki_query_range w docker_errors (lookback_hours cfg) 5000 = Inr streams"
    by (cases "loki_query_range w docker_errors (lookback_hours cfg) 5000") simp_all
  from def 1 2 obtain auth_rows where 3: "loki_query_instant w (q_auth (int_str (lookback_hours cfg))) = Inr auth_rows"
    by (cases "loki_query_instant w (q_auth (int_str (lookback_hours cfg)))") simp_all
  from def 1 2 3 obtain matrix_rows where 4: "loki_query_matrix w q_caddy (lookback_hours cfg) 3600 = Inr matrix_rows"
    by (cases "loki_query_matrix w q_caddy (lookback_hours cfg) 3600") simp_all
  from def 1 2 3 4 show thesis by (intro that [OF 2 4]) (auto simp: comp_def)
qed

lemma ranked_exact:
  fixes streams :: "loki_stream list"
  defines "keys \<equiv> line_keys (sample_lines streams)" and "ranked \<equiv> ranked_signatures streams"
  shows "distinct (map entry_key ranked)" "entry_key ` set ranked = set keys"
    "e \<in> set ranked \<Longrightarrow> lg_count e = int (count_list keys (entry_key e))"
    "sorted_wrt (\<lambda>a b. lg_count b \<le> lg_count a) ranked"
proof -
  define sigs where "sigs = fold stream_round streams []"
  have c: "counted keys sigs" unfolding sigs_def fold_streams keys_def by (rule counted_all)
  have entry: "entry_key e = k \<and> lg_count e = int (count_list keys k)" if "(k, e) \<in> set sigs" for k e
    using c that by (auto simp: counted_def map_ok_def mkeys_def mget_def)
  have keys: "map entry_key (map snd sigs) = map fst sigs" using entry by auto
  moreover have "distinct (map fst sigs)" using c by (simp add: counted_def map_ok_def mkeys_def)
  ultimately have "distinct (map entry_key (map snd sigs))" by metis
  moreover have "mset ranked = mset (map snd sigs)" by (simp add: ranked_def ranked_signatures_def sigs_def)
  then have m: "mset (map entry_key ranked) = mset (map entry_key (map snd sigs))" by (metis mset_map)
  ultimately show "distinct (map entry_key ranked)" by (metis mset_eq_imp_distinct_iff)
  have "set (map entry_key ranked) = set (map fst sigs)" using m keys by (metis mset_eq_setD)
  also have "\<dots> = set keys" using c mkeys_dom [of sigs] by (simp add: counted_def mkeys_def)
  finally show "entry_key ` set ranked = set keys" by simp
  show "e \<in> set ranked \<Longrightarrow> lg_count e = int (count_list keys (entry_key e))"
    using entry by (auto simp: ranked_def ranked_signatures_def sigs_def)
  have "sorted_wrt (\<lambda>a b. \<not> by_count b a) ranked"
    unfolding ranked_def ranked_signatures_def by (rule count_order.slice_stable_sorted) (simp add: list_all_iff)
  then show "sorted_wrt (\<lambda>a b. lg_count b \<le> lg_count a) ranked" by (simp add: by_count_def linorder_not_less)
qed

lemma take_best:
  \<comment> \<open>what is left of a descending list by a cut is no larger than what is kept\<close>
  assumes "sorted_wrt (\<lambda>a b. f b \<le> (f a :: nat)) xs" "x \<in> set xs" "x \<notin> set (take n xs)"
  shows "length (take n xs) = n \<and> list_all (\<lambda>y. f x \<le> f y) (take n xs)"
proof -
  from assms(2,3) have d: "x \<in> set (drop n xs)" by (metis Un_iff append_take_drop_id set_append)
  then have "n < length xs" by (metis drop_all empty_iff linorder_not_less list.set(1))
  moreover have "f x \<le> f y" if "y \<in> set (take n xs)" for y
    using assms(1) d that by (metis append_take_drop_id sorted_wrt_append)
  ultimately show ?thesis by (simp add: list_all_iff)
qed

lemma notable_exact:
  fixes streams :: "loki_stream list"
  defines "keys \<equiv> line_keys (sample_lines streams)" and "es \<equiv> notable_signatures (ranked_signatures streams)"
    and "number \<equiv> \<lambda>e. count_list (line_keys (sample_lines streams)) (entry_key e)"
  shows "length es \<le> 15" "distinct (map entry_key es)" "sorted_wrt (\<lambda>a b. number b \<le> number a) es"
    "list_all (\<lambda>e. lg_count e = int (number e) \<and> 10 \<le> number e) es"
    "10 \<le> count_list keys k \<Longrightarrow> k \<notin> entry_key ` set es \<Longrightarrow>
       length es = 15 \<and> list_all (\<lambda>e. count_list keys k \<le> number e) es"
proof -
  define ranked where "ranked = ranked_signatures streams"
  define big where "big = filter (\<lambda>e. min_signature_count \<le> lg_count e) ranked"
  note ranked = ranked_exact [where streams = streams, folded ranked_def keys_def]
  have es: "es = take 15 big" by (simp add: es_def notable_signatures_def big_def ranked_def max_signatures_def)
  have num: "lg_count e = int (number e)" if "e \<in> set ranked" for e
    using ranked(3) [OF that] by (simp add: number_def keys_def)
  have sub: "set big \<subseteq> set ranked" by (auto simp: big_def)
  have sorted: "sorted_wrt (\<lambda>a b. number b \<le> number a) big"
    using sorted_wrt_filter [OF ranked(4), of "\<lambda>e. min_signature_count \<le> lg_count e"] sub num
    unfolding big_def [symmetric] by (elim sorted_wrt_mono_rel [rotated]) (metis of_nat_le_iff subsetD)
  show "length es \<le> 15" by (simp add: es)
  show "distinct (map entry_key es)" using ranked(1) by (simp add: es big_def distinct_map_filter flip: take_map)
  show "sorted_wrt (\<lambda>a b. number b \<le> number a) es" using sorted by (simp add: es sorted_wrt_take)
  have "lg_count e = int (number e) \<and> 10 \<le> lg_count e" if "e \<in> set es" for e
    using num [of e] in_set_takeD [OF that [unfolded es]] by (auto simp: big_def min_signature_count_def)
  then show "list_all (\<lambda>e. lg_count e = int (number e) \<and> 10 \<le> number e) es" by (force simp: list_all_iff)
  assume k: "10 \<le> count_list keys k" "k \<notin> entry_key ` set es"
  from k(1) have "k \<in> set keys" by (metis count_list_0_iff not_numeral_le_zero)
  with ranked(2) obtain e where e: "e \<in> set ranked" "entry_key e = k" by (metis imageE)
  with num k(1) have "e \<in> set big" by (simp add: big_def min_signature_count_def number_def keys_def)
  moreover have "e \<notin> set es" using k(2) e(2) by auto
  ultimately show "length es = 15 \<and> list_all (\<lambda>e. count_list keys k \<le> number e) es"
    using take_best [OF sorted, of e 15] e(2) unfolding es by (simp add: number_def keys_def)
qed

lemma signature_observations:
  assumes "collect_logs w cfg = Inr r"
    and "loki_query_range w docker_errors (lookback_hours cfg) 5000 = Inr streams"
  shows "kind_only ''log_signature'' (c_observations r) =
    map (signature_obs w cfg) (notable_signatures (ranked_signatures streams))"
proof -
  have "kind_only ''log_signature'' (snd (caddy_host w cfg p)) = []" for p
    by (auto simp: kind_only_def filter_empty_conv dest: kind_of_caddy)
  then show ?thesis
    by (rule_tac collect_logs_ok [OF assms(1)]) (simp add: assms(2) kind_only_map comp_def)
qed

section \<open>Properties\<close>

text \<open>
  Claim C32.  A moment is in a maintenance window exactly when the window opened at its start on some day it
  applies to and its duration has not passed, the day before included when it runs past midnight; for
  windows within the 24 hours of a day.
\<close>

theorem in_window_exact:
  assumes "\<forall>w \<in> set windows. 0 \<le> mw_start w \<and> mw_start w < 1440 \<and> 0 \<le> mw_end w \<and> mw_end w \<le> 1440"
  shows "in_window t windows \<longleftrightarrow>
    (let now = local_sec t div 60
     in \<exists>w \<in> set windows. \<exists>d. on_day w d \<and> d * 1440 + mw_start w \<le> now \<and> now < d * 1440 + mw_start w + duration w)"
proof -
  define day minute where "day = local_sec t div 86400" and "minute = local_sec t mod 86400 div 60"
  have now: "local_sec t div 60 = day * 1440 + minute" 
  proof -
    have "local_sec t = 60 * (day * 1440) + local_sec t mod 86400" by (simp add: day_def)
    then have "local_sec t div 60 = day * 1440 + local_sec t mod 86400 div 60"
      by (metis div_mult_self4 zero_neq_numeral)
    then show ?thesis unfolding minute_def .
  qed
  have m: "0 \<le> minute" "minute < 1440" unfolding minute_def by simp_all
  have wd: "(go_weekday t + 6) mod 7 = (day + 3) mod 7" unfolding go_weekday_def day_def [symmetric] by presburger
  have "window_hit ((day + 3) mod 7) minute w \<longleftrightarrow>
      (\<exists>d. on_day w d \<and> d * 1440 + mw_start w \<le> day * 1440 + minute \<and>
         day * 1440 + minute < d * 1440 + mw_start w + duration w)" if "w \<in> set windows" for w
    using that assms m by (intro window_hit_days) simp_all
  then show ?thesis
    unfolding in_window_def Let_def now wd minute_def [symmetric] list_ex_iff by blast
qed

theorem in_window_exact_witness:
  "in_window (unix_time utc 1754184600) [\<lparr>mw_day = 5, mw_start = 1380, mw_end = 120\<rparr>] \<longleftrightarrow>
    (let now = local_sec (unix_time utc 1754184600) div 60; w = \<lparr>mw_day = 5, mw_start = 1380, mw_end = 120\<rparr>
     in \<exists>d. on_day w d \<and> d * 1440 + 1380 \<le> now \<and> now < d * 1440 + 1380 + duration w)"
  using in_window_exact [of "[\<lparr>mw_day = 5, mw_start = 1380, mw_end = 120\<rparr>]" "unix_time utc 1754184600"]
  by (simp add: Let_def)

text \<open>
  Claim C33.  The log signatures reported are the most frequent ones of the sample: each once, with the exact
  number of its lines among the containers that stay, at least 10, in descending order, at most
  15; and any other key with 10 lines or more has no more lines than each of 15 reported ones.
\<close>

theorem signatures_exact:
  assumes "collect_logs w cfg = Inr r"
    and "loki_query_range w docker_errors (lookback_hours cfg) 5000 = Inr streams"
  shows "\<exists>es. kind_only ''log_signature'' (c_observations r) = map (signature_obs w cfg) es \<and>
    (let keys = line_keys (sample_lines streams); number = (\<lambda>e. count_list keys (entry_key e)) in
       length es \<le> 15 \<and> distinct (map entry_key es) \<and> sorted_wrt (\<lambda>a b. number b \<le> number a) es \<and>
       list_all (\<lambda>e. lg_count e = int (number e) \<and> 10 \<le> number e) es \<and>
       (\<forall>k. 10 \<le> count_list keys k \<and> k \<notin> entry_key ` set es \<longrightarrow>
          length es = 15 \<and> list_all (\<lambda>e. count_list keys k \<le> number e) es))"
  using notable_exact [where streams = streams] signature_observations [OF assms] unfolding Let_def by blast

text \<open>Concrete answers of a server.\<close>

definition sample_world :: "loki_stream list \<Rightarrow> matrix_row list \<Rightarrow> loki_world" where
  "sample_world streams rows =
     \<lparr>lw_matrix = (\<lambda>_ _ _. Inr \<lparr>lp_status = ''success'', lp_text = [], lp_result = rows\<rparr>),
      lw_instant = (\<lambda>_. Inr \<lparr>lp_status = ''success'', lp_text = [], lp_result = []\<rparr>),
      lw_range = (\<lambda>_ _ _. Inr \<lparr>lp_status = ''success'', lp_text = [], lp_result = streams\<rparr>),
      lw_local = utc, lw_sha1 = (\<lambda>s. s), lw_json = (\<lambda>_. [])\<rparr>"

lemma sample_collects:
  "\<exists>r. collect_logs (sample_world streams rows) cfg = Inr r"
  by (simp add: collect_logs_def Let_def sample_world_def loki_query_instant_def loki_query_range_def
      loki_query_matrix_def loki_result_def)

definition sample_stream :: loki_stream where
  "sample_stream = \<lparr>ls_stream = [(''container'', ''web''), (''host'', ''nuc'')],
     ls_values = replicate 12 (''0'', ''panic 7'')\<rparr>"

theorem signatures_exact_witness:
  "\<forall>cfg. \<exists>r es. collect_logs (sample_world [sample_stream] []) cfg = Inr r \<and>
     kind_only ''log_signature'' (c_observations r) = map (signature_obs (sample_world [sample_stream] []) cfg) es \<and>
     (''web|panic <n>'' \<in> entry_key ` set es \<or> length es = 15)"
proof
  fix cfg
  obtain r where r: "collect_logs (sample_world [sample_stream] []) cfg = Inr r" using sample_collects by blast
  have q: "loki_query_range (sample_world [sample_stream] []) docker_errors (lookback_hours cfg) 5000 = Inr [sample_stream]"
    by (simp add: sample_world_def loki_query_range_def loki_result_def)
  have "normalize ''panic 7'' = ''panic <n>''" "\<not> is_ephemeral (container_label (ls_stream sample_stream))"
      "signature_key (container_label (ls_stream sample_stream)) ''panic <n>'' = ''web|panic <n>''" by code_simp+
  then have "line_keys (sample_lines [sample_stream]) = replicate 12 ''web|panic <n>''"
    by (simp add: line_keys_def sample_lines_def) (simp add: sample_stream_def)
  then have "10 \<le> count_list (line_keys (sample_lines [sample_stream])) ''web|panic <n>''" by (simp add: numeral_eq_Suc)
  with signatures_exact [OF r q] r show "\<exists>r es. collect_logs (sample_world [sample_stream] []) cfg = Inr r \<and>
     kind_only ''log_signature'' (c_observations r) = map (signature_obs (sample_world [sample_stream] []) cfg) es \<and>
     (''web|panic <n>'' \<in> entry_key ` set es \<or> length es = 15)" unfolding Let_def by blast
qed

lemma set_mput: "p \<in> set (mput k v m) \<Longrightarrow> p = (k, v) \<or> p \<in> set m"
  unfolding mput_def by (induction m) (auto split: if_splits)

lemma buckets_empty:
  assumes "\<forall>row \<in> set rows. snd row = []" "\<forall>p \<in> set m. snd p = []"
  shows "\<forall>p \<in> set (fold bucket_round rows m). snd p = []"
  using assms
proof (induction rows arbitrary: m)
  case (Cons row rows)
  have "\<forall>p \<in> set (bucket_round row m). snd p = []"
    using Cons.prems
    by (auto simp: bucket_round_def split_beta Let_def mget_def dest!: set_mput split: option.splits dest: map_of_SomeD)
  with Cons show ?case by simp
qed simp

lemma caddy_empty:
  "list_all (\<lambda>obs. o_value obs = (if o_kind obs = ''caddy_5xx'' then VInt64 0 else VInt 0)) (snd (caddy_host w cfg (host, [])))"
  by (simp add: caddy_host_def Let_def split_maintenance_def sum_values_def peak_of_def)

text \<open>
  Claim C34.  The report never sees an answer of 500 or above: the server writes the times of a matrix as
  numbers, as its interface says, the code reads them as strings and skips every pair it cannot read.  The
  observations of each host say that it served none, in no bad hour, whatever the values are.
\<close>

theorem caddy_5xx_blind:
  assumes "collect_logs w cfg = Inr r" "lw_matrix w q_caddy (lookback_hours cfg) 3600 = Inr answer"
    and "\<forall>row \<in> set (lp_result answer). \<forall>pair \<in> set (snd row). \<exists>x. fst pair = Some (VF64 x)"
  shows "list_all (\<lambda>obs. o_value obs = VInt64 0) (kind_only ''caddy_5xx'' (c_observations r)) \<and>
    list_all (\<lambda>obs. o_value obs = VInt 0) (kind_only ''caddy_5xx_hours'' (c_observations r))"
proof -
  obtain streams counts auth matrix_rows where rows: "loki_query_matrix w q_caddy (lookback_hours cfg) 3600 = Inr matrix_rows"
    and obs: "c_observations r = map (signature_obs w cfg) (notable_signatures (ranked_signatures streams)) @
       map (rate_obs w cfg) counts @ map (auth_obs (int_str (lookback_hours cfg))) auth @
       concat (map (\<lambda>p. snd (caddy_host w cfg p)) (fold bucket_round matrix_rows []))"
    by (rule collect_logs_ok [OF assms(1)])
  have "matrix_points pairs = []" if "\<forall>pair \<in> set pairs. \<exists>x. fst pair = Some (VF64 x)" for pairs
    using that by (auto simp: matrix_points_def raw_float_def raw_string_def)
  with rows assms(2,3) have "\<forall>row \<in> set matrix_rows. snd row = []"
    by (auto simp: loki_query_matrix_def loki_result_def split: if_splits)
  then have "\<forall>p \<in> set (fold bucket_round matrix_rows []). snd p = []" by (rule buckets_empty) simp
  then have "list_all (\<lambda>obs. o_value obs = (if o_kind obs = ''caddy_5xx'' then VInt64 0 else VInt 0))
      (concat (map (\<lambda>p. snd (caddy_host w cfg p)) (fold bucket_round matrix_rows [])))"
    using caddy_empty [of w cfg] by (force simp: list_all_iff)
  then show ?thesis unfolding obs by (simp add: kind_only_map comp_def list_all_iff) (auto simp: kind_only_def)
qed

theorem caddy_5xx_blind_witness:
  "\<forall>cfg. \<exists>r. collect_logs (sample_world [] [([(''host'', ''mljr'')], [(Some (VF64 (f_num 1754042400)), Some (VStr ''742''))])]) cfg = Inr r \<and>
     list_all (\<lambda>obs. o_value obs = VInt64 0) (kind_only ''caddy_5xx'' (c_observations r))"
proof
  fix cfg
  let ?w = "sample_world [] [([(''host'', ''mljr'')], [(Some (VF64 (f_num 1754042400)), Some (VStr ''742''))])]"
  obtain r where r: "collect_logs ?w cfg = Inr r" using sample_collects by blast
  have "lw_matrix ?w q_caddy (lookback_hours cfg) 3600 = Inr \<lparr>lp_status = ''success'', lp_text = [],
      lp_result = [([(''host'', ''mljr'')], [(Some (VF64 (f_num 1754042400)), Some (VStr ''742''))])]\<rparr>"
    by (simp add: sample_world_def)
  from conjunct1 [OF caddy_5xx_blind [OF r this]] r
  show "\<exists>r. collect_logs ?w cfg = Inr r \<and>
     list_all (\<lambda>obs. o_value obs = VInt64 0) (kind_only ''caddy_5xx'' (c_observations r))" by simp
qed

end
