(* ===== verification/CO_Access.thy ===== *)
theory CO_Access
  imports CO_Loki
begin

text \<open>
  Four small collectors: the requests AppSec matched or missed
  (\<^verbatim>\<open>src/tools/internal/healthreport/collectors/appsec.go\<close>), the pushes the notification server refused
  (\<^verbatim>\<open>ntfy_denied.go\<close>), the updates announced there (\<^verbatim>\<open>ntfy_updates.go\<close>), and the violations of the content
  security policy (\<^verbatim>\<open>csp_reports.go\<close>) with the program that logs them
  (\<^verbatim>\<open>src/tools/cmd/csp-reports/main.go\<close>).  JSON decoding is a parameter.
\<close>

section \<open>AppSec\<close>

definition appsec_unavailable_query :: string where
  \<open>appsec_unavailable_query = ''{host="mljr", container!="caddy-poc"} |= "appsec component unavailable"''\<close>

definition count_loki_lines :: "loki_stream list \<Rightarrow> int" where
  "count_loki_lines streams = sum_list (map (\<lambda>s. int (length (ls_values s))) streams)"

definition appsec_unavailable_obs :: "int \<Rightarrow> observation" where
  "appsec_unavailable_obs n =
     obs_of ''appsec'' ''appsec_unavailable.mljr.'' ''mljr'' ''appsec_unavailable_24h'' (VInt64 n) (VStr ''requests'')
       (''mljr: Caddy could not reach AppSec for '' @ int_str n @ '' request(s) (failing open, those were not inspected)'')
       [(''logql'', VStr appsec_unavailable_query)]"

definition collect_app_sec :: "vm \<Rightarrow> loki_world \<Rightarrow> config \<Rightarrow> string + collector_data collector_result" where
  "collect_app_sec vm w cfg =
     (case observe vm q_appsec (appsec_match_obs cfg) of Inl err \<Rightarrow> Inl err
      | Inr matches \<Rightarrow>
          (case loki_query_range w appsec_unavailable_query (lookback_hours cfg) 5000 of Inl err \<Rightarrow> Inl err
           | Inr streams \<Rightarrow>
               let n = count_loki_lines streams
               in Inr ((new_collector_result ''appsec'')\<lparr>c_observations :=
                    matches @ (if 0 < n then [appsec_unavailable_obs n] else [])\<rparr>)))"

section \<open>Refused pushes\<close>

record caddy_access_line =
  ca_uri :: string
  ca_headers :: "(string, string list) gmap"

type_synonym access_decoder = "string \<Rightarrow> caddy_access_line option"

definition ntfy_name :: string where "ntfy_name = ''ntfy.mljr.eu''"

definition ntfy_denied :: string where
  \<open>ntfy_denied = ''{job="caddy"} | json | request_host="'' @ ntfy_name @ ''" and status = 403''\<close>

definition is_scanner_noise :: "caddy_access_line \<Rightarrow> bool" where
  "is_scanner_noise line \<longleftrightarrow>
     (let ua = (case mget (ca_headers line) ''User-Agent'' of Some (v # _) \<Rightarrow> v | _ \<Rightarrow> [])
      in ua = [] \<or> has_prefix ua ''Mozilla/'')"

definition topic_from_uri :: "string \<Rightarrow> string" where
  \<comment> \<open>the group of \<^verbatim>\<open>^/([^/?]+)\<close>, empty without a match\<close>
  "topic_from_uri uri =
     (case uri of [] \<Rightarrow> []
      | c # r \<Rightarrow> if c = CHR ''/'' then takeWhile (\<lambda>x. x \<noteq> CHR ''/'' \<and> x \<noteq> CHR ''?'') r else [])"

definition topic_from_denied_line :: "access_decoder \<Rightarrow> string \<Rightarrow> string" where
  "topic_from_denied_line decode line =
     (case decode line of None \<Rightarrow> [] | Some parsed \<Rightarrow> topic_from_uri (ca_uri parsed))"

definition denied_topics :: "access_decoder \<Rightarrow> loki_stream list \<Rightarrow> string list" where
  \<comment> \<open>the topics of the lines that no scanner caused, empty where there is none\<close>
  "denied_topics decode streams =
     map (topic_from_denied_line decode)
       (filter (\<lambda>line. case decode line of Some parsed \<Rightarrow> \<not> is_scanner_noise parsed | None \<Rightarrow> True)
         (concat (map (\<lambda>s. map snd (ls_values s)) streams)))"

definition topic_obs :: "string \<times> int \<Rightarrow> observation" where
  "topic_obs = (\<lambda>(topic, n).
     obs_of ''ntfy_access'' (''ntfy_denied_topic.'' @ topic) topic ''ntfy_denied_topic'' (VInt n) (VStr ''denied_requests'')
       (''ntfy topic '' @ go_quote topic @ '' was denied '' @ int_str n @ '' time(s) - missing from ntfy_topic_whitelist?'')
       [(''topic'', VStr topic)])"

definition unknown_topic_obs :: "int \<Rightarrow> observation" where
  "unknown_topic_obs n =
     obs_of ''ntfy_access'' ''ntfy_denied_unknown..'' ntfy_name ''ntfy_denied_unknown'' (VInt n) (VStr ''denied_requests'')
       (int_str n @ '' ntfy request(s) denied without a topic in the URL (JSON-body publish) - '' @
        ''check `docker logs ntfy` on mljr for the topic name'') []"

definition collect_ntfy_denied ::
  "access_decoder \<Rightarrow> loki_world \<Rightarrow> config \<Rightarrow> string + collector_data collector_result" where
  "collect_ntfy_denied decode w cfg =
     (case loki_query_range w ntfy_denied (lookback_hours cfg) 1000 of Inl err \<Rightarrow> Inl err
      | Inr streams \<Rightarrow>
          let topics = denied_topics decode streams; unknown = int (length (filter (\<lambda>t. t = []) topics))
          in Inr ((new_collector_result ''ntfy_access'')\<lparr>c_observations :=
               map topic_obs (tally (filter (\<lambda>t. t \<noteq> []) topics)) @
               (if 0 < unknown then [unknown_topic_obs unknown] else [])\<rparr>))"

section \<open>Announced updates\<close>

definition scan_lines :: "string \<Rightarrow> string list" where
  \<comment> \<open>\<^verbatim>\<open>bufio.Scanner\<close> with a buffer of a mebibyte, which ends silently at a line that does not fit\<close>
  "scan_lines body =
     (let parts = split_char (CHR 0x0A) body;
          ls = (if last parts = [] then butlast parts else parts)
      in map (\<lambda>l. if l \<noteq> [] \<and> last l = CHR 0x0D then butlast l else l) (takeWhile (\<lambda>l. length l < 1024 * 1024) ls))"

definition update_message_of :: "(string \<Rightarrow> (string, any) gmap option) \<Rightarrow> string \<Rightarrow> update_message list" where
  "update_message_of decode raw =
     (let line = trim_space raw
      in if line = [] then [] else
         case decode line of None \<Rightarrow> []
         | Some msg \<Rightarrow>
             if str_at msg ''event'' \<noteq> ''message'' then []
             else [\<lparr>um_title = str_at msg ''title'', um_message = cut_to 300 (str_at msg ''message''),
                    um_time = any_at msg ''time''\<rparr>])"

definition updates_target :: "config \<Rightarrow> string" where
  "updates_target cfg =
     trim_right_char (CHR ''/'') (ntfy_url cfg) @ ''/docker-updates/json?'' @
     encode_values [(''poll'', ''1''), (''since'', int_str (lookback_hours cfg) @ ''h'')]"

definition collect_updates ::
  "(string \<Rightarrow> string + string) \<Rightarrow> (string \<Rightarrow> (string, any) gmap option) \<Rightarrow> config \<Rightarrow>
     string + collector_data collector_result" where
  "collect_updates http_get decode cfg =
     (case http_get (updates_target cfg) of Inl err \<Rightarrow> Inl err
      | Inr body \<Rightarrow>
          let messages = concat (map (update_message_of decode) (scan_lines body)); n = int (length messages)
          in Inr ((new_collector_result ''updates'')\<lparr>
               c_data := Some (DUpdates \<lparr>ud_count = n, ud_messages = take 50 messages\<rparr>),
               c_observations := [obs_of ''updates'' ''image_updates..'' ''homelab'' ''image_updates'' (VInt n) (VStr ''images'')
                 (int_str n @ '' container image update notifications in the last '' @ int_str (lookback_hours cfg) @ ''h'')
                 [(''topic'', VStr ''docker-updates'')]]\<rparr>))"

section \<open>Violations of the content security policy\<close>

subsection \<open>The program that logs them\<close>

record violation =
  vi_document_uri :: string
  vi_directive :: string
  vi_blocked_uri :: string
  vi_source_file :: string
  vi_disposition :: string

record legacy_report =
  lr_document_uri :: string
  lr_violated :: string
  lr_effective :: string
  lr_blocked_uri :: string
  lr_source_file :: string
  lr_disposition :: string

record reporting_entry =
  re_type :: string
  re_document_url :: string
  re_violated :: string
  re_effective :: string
  re_blocked_url :: string
  re_source_file :: string
  re_disposition :: string

record csp_codec =
  cc_entries :: "string \<Rightarrow> reporting_entry list option"
  cc_legacy :: "string \<Rightarrow> legacy_report option"
  cc_marshal :: "violation \<Rightarrow> string option" \<comment> \<open>with \<^verbatim>\<open>"event":"csp_violation"\<close>\<close>
  cc_line :: "string \<Rightarrow> (string \<times> string \<times> string) option"
    \<comment> \<open>document, directive and blocked address of a logged line\<close>

definition extension_prefixes :: "string list" where
  "extension_prefixes =
     [''chrome-extension:'', ''moz-extension:'', ''safari-extension:'', ''safari-web-extension:'', ''ms-browser-extension:'']"

definition is_extension_noise :: "string \<Rightarrow> bool" where
  "is_extension_noise blocked = list_ex (has_prefix blocked) extension_prefixes"

fun first_non_empty :: "string list \<Rightarrow> string" where
  "first_non_empty [] = []"
| "first_non_empty (v # vs) = (if v \<noteq> [] then v else first_non_empty vs)"

definition entry_violation :: "reporting_entry \<Rightarrow> violation" where
  "entry_violation e =
     \<lparr>vi_document_uri = re_document_url e, vi_directive = first_non_empty [re_effective e, re_violated e],
      vi_blocked_uri = re_blocked_url e, vi_source_file = re_source_file e, vi_disposition = re_disposition e\<rparr>"

definition legacy_violation :: "legacy_report \<Rightarrow> violation" where
  "legacy_violation l =
     \<lparr>vi_document_uri = lr_document_uri l, vi_directive = first_non_empty [lr_effective l, lr_violated l],
      vi_blocked_uri = lr_blocked_uri l, vi_source_file = lr_source_file l, vi_disposition = lr_disposition l\<rparr>"

definition log_violation :: "csp_codec \<Rightarrow> violation \<Rightarrow> string list" where
  "log_violation c v =
     (if is_extension_noise (vi_blocked_uri v) then []
      else case cc_marshal c v of None \<Rightarrow> [] | Some line \<Rightarrow> [line])"

type_synonym csp_request = "string \<times> string option" \<comment> \<open>the method, and the body unless it cannot be read\<close>

definition request_violations :: "csp_codec \<Rightarrow> csp_request \<Rightarrow> violation list" where
  \<comment> \<open>the violations handed to \<open>log_violation\<close>\<close>
  "request_violations c = (\<lambda>(meth, body).
     if meth \<noteq> ''POST'' then [] else
      case body of None \<Rightarrow> []
      | Some full \<Rightarrow>
          let b = take (64 * 1024) full
          in if b = [] then [] else
             let entries = (case cc_entries c b of Some es \<Rightarrow> es | None \<Rightarrow> [])
             in if entries \<noteq> [] then
                  map entry_violation (filter (\<lambda>e. re_type e = ''csp-violation'') entries)
                else case cc_legacy c b of None \<Rightarrow> []
                | Some l \<Rightarrow> if lr_document_uri l = [] then [] else [legacy_violation l])"

definition handle_report :: "csp_codec \<Rightarrow> csp_request \<Rightarrow> string list" where
  \<comment> \<open>the lines a request logs\<close>
  "handle_report c request = concat (map (log_violation c) (request_violations c request))"

subsection \<open>The collector\<close>

definition csp_reports_query :: string where
  \<open>csp_reports_query = ''{job="docker", container="csp-reports"} |= "csp_violation"''\<close>

type_synonym csp_key = "string \<times> string" \<comment> \<open>directive and document\<close>

definition csp_round ::
  "csp_codec \<Rightarrow> string \<Rightarrow> (csp_key, int \<times> string) gmap \<Rightarrow> (csp_key, int \<times> string) gmap" where
  \<comment> \<open>the number and the blocked address of the first\<close>
  "csp_round c line m =
     (case cc_line c line of None \<Rightarrow> m
      | Some (document, directive, blocked) \<Rightarrow>
          let (n, b) = (case mget m (directive, document) of Some e \<Rightarrow> e | None \<Rightarrow> (0, blocked))
          in mput (directive, document) (n + 1, b) m)"

definition csp_obs :: "csp_key \<times> int \<times> string \<Rightarrow> observation" where
  "csp_obs = (\<lambda>((directive, document), n, blocked).
     obs_of ''csp_reports'' (''csp_violation.'' @ directive @ ''|'' @ document) document ''csp_violation'' (VInt n)
       (VStr ''reports'')
       (''CSP violation on '' @ document @ '': '' @ directive @ '' blocked '' @ go_quote blocked @ '' ('' @ int_str n @ '' report(s))'')
       [(''directive'', VStr directive), (''document_uri'', VStr document), (''blocked_uri'', VStr blocked)])"

definition collect_csp_reports :: "csp_codec \<Rightarrow> loki_world \<Rightarrow> config \<Rightarrow> string + collector_data collector_result" where
  "collect_csp_reports c w cfg =
     (case loki_query_range w csp_reports_query (lookback_hours cfg) 1000 of Inl err \<Rightarrow> Inl err
      | Inr streams \<Rightarrow>
          Inr ((new_collector_result ''csp_reports'')\<lparr>c_observations :=
            map csp_obs (fold (csp_round c) (concat (map (\<lambda>s. map snd (ls_values s)) streams)) [])\<rparr>))"

section \<open>Lemmas\<close>

definition violation_key :: "violation \<Rightarrow> csp_key" where
  "violation_key v = (vi_directive v, vi_document_uri v)"

lemma csp_counts:
  assumes "\<forall>line \<in> set ls. \<exists>document directive blocked. cc_line c line = Some (document, directive, blocked)"
  shows "map (\<lambda>(k, v). (k, fst v)) (fold (csp_round c) ls []) =
    tally (map (\<lambda>line. case the (cc_line c line) of (document, directive, _) \<Rightarrow> (directive, document)) ls)"
proof -
  have "map (\<lambda>(k, v). (k, fst v)) (fold (csp_round c) ls m) =
      fold tally_round (map (\<lambda>line. case the (cc_line c line) of (document, directive, _) \<Rightarrow> (directive, document)) ls)
        (map (\<lambda>(k, v). (k, fst v)) m)" for m
    using assms
  proof (induction ls arbitrary: m)
    case (Cons line ls)
    then obtain document directive blocked where l: "cc_line c line = Some (document, directive, blocked)" by auto
    have "map (\<lambda>(k, v). (k, fst v)) (csp_round c line m) =
        tally_round (directive, document) (map (\<lambda>(k, v). (k, fst v)) m)"
      by (cases "mget m (directive, document)")
        (simp_all add: csp_round_def l tally_round_def mput_image mget_image split_beta)
    with Cons l show ?case by simp
  qed simp
  from this [of "[]"] show ?thesis by (simp add: tally_def)
qed

section \<open>Properties\<close>

text \<open>
  Claim C35.  What browsers report reaches the health report: the program logs the violations of both
  formats, and the collector, when it reads back those lines, reports exactly the pairs of directive
  and page that no extension caused, each with its number, in the order of their first occurrence.
\<close>

theorem csp_violations_reported:
  assumes "loki_query_range w csp_reports_query (lookback_hours cfg) 1000 = Inr streams"
    and "concat (map (\<lambda>s. map snd (ls_values s)) streams) = concat (map (handle_report c) requests)"
    and "\<forall>v \<in> set (concat (map (request_violations c) requests)). \<exists>line. cc_marshal c v = Some line \<and>
       cc_line c line = Some (vi_document_uri v, vi_directive v, vi_blocked_uri v)"
  shows "\<exists>r. collect_csp_reports c w cfg = Inr r \<and>
    (let keys = map violation_key (filter (\<lambda>v. \<not> is_extension_noise (vi_blocked_uri v))
           (concat (map (request_violations c) requests)))
     in map (\<lambda>obs. (o_id obs, o_value obs)) (c_observations r) =
        map (\<lambda>k. (''csp_violation.'' @ fst k @ ''|'' @ snd k, VInt (int (count_list keys k)))) (first_seen keys))"
proof -
  define ls where "ls = concat (map (handle_report c) requests)"
  define vs where "vs = filter (\<lambda>v. \<not> is_extension_noise (vi_blocked_uri v)) (concat (map (request_violations c) requests))"
  have ls: "ls = map (\<lambda>v. the (cc_marshal c v)) vs"
  proof -
    have "concat (map (log_violation c) us) =
        map (\<lambda>v. the (cc_marshal c v)) (filter (\<lambda>v. \<not> is_extension_noise (vi_blocked_uri v)) us)"
      if "set us \<subseteq> set (concat (map (request_violations c) requests))" for us
      using that
    proof (induction us)
      case (Cons v us)
      then have "\<exists>line. cc_marshal c v = Some line" using assms(3) by (meson list.set_intros(1) subsetD)
      with Cons show ?case by (auto simp: log_violation_def)
    qed simp
    moreover have "concat (map (handle_report c) rs) = concat (map (log_violation c) (concat (map (request_violations c) rs)))" for rs
      by (induction rs) (simp_all add: handle_report_def)
    ultimately show ?thesis by (simp add: ls_def vs_def)
  qed
  have dec: "cc_line c (the (cc_marshal c v)) = Some (vi_document_uri v, vi_directive v, vi_blocked_uri v)"
    if "v \<in> set vs" for v
    using that assms(3) unfolding vs_def by fastforce
  have cnt: "map (\<lambda>(k, v). (k, fst v)) (fold (csp_round c) ls []) = tally (map violation_key vs)"
    using csp_counts [of ls c] dec by (simp add: ls violation_key_def comp_def cong: map_cong)
  have "map (\<lambda>obs. (o_id obs, o_value obs)) (map csp_obs (fold (csp_round c) ls [])) =
      map (\<lambda>(k, n). (''csp_violation.'' @ fst k @ ''|'' @ snd k, VInt n)) (tally (map violation_key vs))"
    unfolding cnt [symmetric] by (simp add: csp_obs_def split_beta)
  then show ?thesis
    by (simp add: collect_csp_reports_def assms(1,2) flip: ls_def vs_def) (simp add: tally_eq comp_def Let_def)
qed

definition sample_codec :: csp_codec where
  "sample_codec =
     \<lparr>cc_entries = (\<lambda>_. None),
      cc_legacy = (\<lambda>_. Some \<lparr>lr_document_uri = ''https://a'', lr_violated = ''img-src'', lr_effective = [],
         lr_blocked_uri = ''https://b'', lr_source_file = [], lr_disposition = []\<rparr>),
      cc_marshal = (\<lambda>_. Some ''line''),
      cc_line = (\<lambda>_. Some (''https://a'', ''img-src'', ''https://b''))\<rparr>"

theorem csp_violations_reported_witness:
  "let st = \<lparr>ls_stream = [], ls_values = [(''1'', ''line''), (''2'', ''line'')]\<rparr>
   in \<forall>cfg. \<exists>r. collect_csp_reports sample_codec (sample_world [st] []) cfg = Inr r \<and>
     map (\<lambda>obs. (o_id obs, o_value obs)) (c_observations r) = [(''csp_violation.img-src|https://a'', VInt 2)]"
proof -
  let ?st = "\<lparr>ls_stream = [], ls_values = [(''1'', ''line''), (''2'', ''line'')]\<rparr>"
  let ?rs = "[(''POST'', Some ''x''), (''GET'', Some ''x''), (''POST'', Some ''x'')]"
  have "loki_query_range (sample_world [?st] []) csp_reports_query (lookback_hours cfg) 1000 = Inr [?st]" for cfg :: config
    by (simp add: sample_world_def loki_query_range_def loki_result_def)
  moreover have r: "request_violations sample_codec (''GET'', Some ''x'') = []"
    "request_violations sample_codec (''POST'', Some ''x'') =
       [\<lparr>vi_document_uri = ''https://a'', vi_directive = ''img-src'', vi_blocked_uri = ''https://b'', vi_source_file = [],
         vi_disposition = []\<rparr>]"
    by (simp_all add: request_violations_def sample_codec_def legacy_violation_def)
  moreover have n: "\<not> is_extension_noise ''https://b''" by code_simp
  moreover have "concat (map (\<lambda>s. map snd (ls_values s)) [?st]) = concat (map (handle_report sample_codec) ?rs)"
    by (simp add: handle_report_def r log_violation_def n) (simp add: sample_codec_def)
  ultimately show ?thesis
    using csp_violations_reported [of "sample_world [?st] []" _ "[?st]" sample_codec ?rs]
    by (simp add: Let_def sample_codec_def violation_key_def first_seen_def)
qed

end
