(* ===== verification/CO_Dojo.thy ===== *)
theory CO_Dojo
  imports CO_Base HR_Config HR_Run Go_Time
begin

text \<open>
  The collector of the findings in DefectDojo,
  \<^verbatim>\<open>src/tools/internal/healthreport/collectors/defectdojo.go\<close>.  The server is a parameter: what it answers
  to a login and to a request for a page, decoded.  The loop over the pages has no bound of its own:
  it is a partial function, and that it returns is a property.
\<close>

section \<open>Data\<close>

record dojo_finding =
  df_title :: string
  df_severity :: string
  df_date :: string
  df_test :: int
  df_fix_available :: bool
  df_known_exploited :: bool
  df_kev_date :: string
  df_epss_score :: "f64 option"
  df_vulnerability_ids :: "string list"

record dojo_test =
  dt_id :: int
  dt_title :: string
  dt_engagement :: int
  dt_updated :: string

record dojo_engagement =
  de_id :: int
  de_name :: string
  de_product :: int

record dojo_product =
  dp_id :: int
  dp_name :: string

record dojo_client =
  dc_base :: string
  dc_token :: string

record 'a dojo_page =
  pg_count :: int
  pg_results :: "'a list"

record dojo_world =
  dw_login :: "string \<Rightarrow> string \<Rightarrow> string + int \<times> string option"
    \<comment> \<open>address and password; the status and the token, unless the body cannot be decoded\<close>
  dw_tests :: "string \<Rightarrow> string \<Rightarrow> string + dojo_test dojo_page" \<comment> \<open>token and address\<close>
  dw_engagements :: "string \<Rightarrow> string \<Rightarrow> string + dojo_engagement dojo_page"
  dw_products :: "string \<Rightarrow> string \<Rightarrow> string + dojo_product dojo_page"
  dw_findings :: "string \<Rightarrow> string \<Rightarrow> string + dojo_finding dojo_page"
  dw_now :: gtime

definition dojo_scan_stale_after :: int where "dojo_scan_stale_after = 36 * 3600 * 10 ^ 9"
definition dojo_epss_threshold :: f64 where "dojo_epss_threshold = f_num (1 / 10)"

section \<open>Requests\<close>

definition dojo_login :: "dojo_world \<Rightarrow> string \<Rightarrow> string \<Rightarrow> string + dojo_client" where
  "dojo_login w base password =
     (case dw_login w (trim_right_char (CHR ''/'') base @ ''/api/v2/api-token-auth/'') password of Inl err \<Rightarrow> Inl err
      | Inr (status, token) \<Rightarrow>
          if status \<noteq> 200 then Inl (''defectdojo login: HTTP '' @ int_str status)
          else if token = None \<or> token = Some [] then Inl ''defectdojo login: no token in response''
          else Inr \<lparr>dc_base = trim_right_char (CHR ''/'') base, dc_token = the token\<rparr>)"

definition page_size :: int where "page_size = 500"

definition page_url :: "dojo_client \<Rightarrow> string \<Rightarrow> (string \<times> string) list \<Rightarrow> int \<Rightarrow> string" where
  "page_url c resource filters offset =
     dc_base c @ ''/api/v2/'' @ resource @ ''/?'' @
     encode_values (filters @ [(''limit'', int_str page_size), (''offset'', int_str offset)])"

partial_function (option) dojo_pages ::
  "(int \<Rightarrow> string + 'a dojo_page) \<Rightarrow> int \<Rightarrow> 'a list \<Rightarrow> (string + 'a list) option" where
  "dojo_pages get offset out =
     (case get offset of Inl err \<Rightarrow> Some (Inl err)
      | Inr page \<Rightarrow>
          if pg_results page = [] \<or> pg_count page \<le> offset + page_size then Some (Inr (out @ pg_results page))
          else dojo_pages get (offset + page_size) (out @ pg_results page))"

definition dojo_list :: "(int \<Rightarrow> string + 'a dojo_page) \<Rightarrow> (string + 'a list) option" where
  "dojo_list get = dojo_pages get 0 []"

section \<open>Findings\<close>

definition dojo_finding_name :: "dojo_finding \<Rightarrow> string" where
  "dojo_finding_name f =
     (case df_vulnerability_ids f of i # _ \<Rightarrow> if i \<noteq> [] then i else df_title f | [] \<Rightarrow> df_title f)"

definition dojo_target_labels ::
  "dojo_test list \<Rightarrow> dojo_engagement list \<Rightarrow> dojo_product list \<Rightarrow> (int, string) gmap" where
  "dojo_target_labels tests engagements products =
     (let names = fold (\<lambda>p. mput (dp_id p) (dp_name p)) products [];
          name_of = (\<lambda>m k. case mget m k of Some s \<Rightarrow> s | None \<Rightarrow> []);
          of_engagement = fold (\<lambda>e. mput (de_id e) (name_of names (de_product e))) engagements []
      in fold (\<lambda>t. mput (dt_id t) (name_of of_engagement (dt_engagement t) @ '': '' @ dt_title t)) tests [])"

definition target_label :: "(int, string) gmap \<Rightarrow> int \<Rightarrow> string" where
  "target_label labels i =
     (case mget labels i of Some l \<Rightarrow> if l \<noteq> [] then l else ''test '' @ int_str i | None \<Rightarrow> ''test '' @ int_str i)"

definition dojo_first_seen_since :: "string \<Rightarrow> gtime \<Rightarrow> bool" where
  "dojo_first_seen_since date since =
     (case parse_date date of None \<Rightarrow> False | Some day \<Rightarrow> local_sec since div 86400 \<le> day)"

definition dojo_obs :: "string \<Rightarrow> string \<Rightarrow> int \<Rightarrow> string \<Rightarrow> string \<Rightarrow> (string, any) gmap \<Rightarrow> observation" where
  "dojo_obs kind subject n unit msg evidence =
     obs_of ''defectdojo'' (kind @ ''.'' @ subject @ ''.'') subject kind (VInt n) (VStr unit) msg evidence"

definition fresh_round :: "gtime \<Rightarrow> dojo_finding \<Rightarrow> (int, string list) gmap \<Rightarrow> (int, string list) gmap" where
  \<comment> \<open>the names of each target; their number is the count\<close>
  "fresh_round since f m =
     (if \<not> df_fix_available f \<or> \<not> dojo_first_seen_since (df_date f) since then m
      else mput (df_test f) ((case mget m (df_test f) of Some ids \<Rightarrow> ids | None \<Rightarrow> []) @ [dojo_finding_name f]) m)"

definition fresh_obs :: "(int, string) gmap \<Rightarrow> int \<times> string list \<Rightarrow> observation" where
  "fresh_obs labels = (\<lambda>(i, ids).
     let lab = target_label labels i; n = int (length ids); examples = take 3 (sort ids)
     in dojo_obs ''vuln_new_fixable'' lab n ''findings''
          (int_str n @ '' new Critical/High finding(s) with a fix available in '' @ lab @ '', e.g. '' @ join '', '' examples)
          [(''examples'', VList (map VStr examples))])"

definition fresh_observations :: "dojo_finding list \<Rightarrow> (int, string) gmap \<Rightarrow> gtime \<Rightarrow> observation list" where
  "fresh_observations findings labels since =
     (let groups = fold (fresh_round since) findings []
      in map (\<lambda>i. fresh_obs labels (i, the (mget groups i))) (sorted_keys groups))"

record cve_group =
  cg_targets :: "string list"
  cg_epss :: f64
  cg_kev_date :: string

definition cve_round ::
  "(int, string) gmap \<Rightarrow> dojo_finding \<Rightarrow> (string, cve_group) gmap \<Rightarrow> (string, cve_group) gmap" where
  "cve_round labels f m =
     (let name = dojo_finding_name f; lab = target_label labels (df_test f);
          g = (case mget m name of Some g \<Rightarrow> g | None \<Rightarrow> \<lparr>cg_targets = [], cg_epss = f_zero, cg_kev_date = []\<rparr>)
      in mput name
           \<lparr>cg_targets = (if lab \<in> set (cg_targets g) then cg_targets g else cg_targets g @ [lab]),
            cg_epss = (case df_epss_score f of Some s \<Rightarrow> if f_gt s (cg_epss g) then s else cg_epss g | None \<Rightarrow> cg_epss g),
            cg_kev_date = (if df_kev_date f \<noteq> [] then df_kev_date f else cg_kev_date g)\<rparr> m)"

definition cve_message :: "string \<Rightarrow> string \<Rightarrow> cve_group \<Rightarrow> string list \<Rightarrow> string" where
  "cve_message kind name g targets =
     (let n = int_str (int (length targets)); some = join '', '' (take 3 targets)
      in if kind = ''vuln_known_exploited'' then
           name @ '' is actively exploited (CISA KEV'' @
           (if cg_kev_date g \<noteq> [] then '', listed '' @ cg_kev_date g else []) @ '') and affects '' @ n @
           '' scan target(s), e.g. '' @ some
         else
           name @ '' has a '' @ fmt_fixed 0 (f_mul (cg_epss g) (f_num 100)) @
           ''% exploitation probability (EPSS) with a fix available and affects '' @ n @ '' scan target(s), e.g. '' @ some)"

definition cve_obs :: "string \<Rightarrow> string \<times> cve_group \<Rightarrow> observation" where
  "cve_obs kind = (\<lambda>(name, g).
     let targets = sort (cg_targets g); n = int (length targets)
     in dojo_obs kind name n ''targets'' (cve_message kind name g targets)
          ([(''targets'', VList (map VStr (take 10 targets))), (''target_count'', VInt n)] @
           (if f_gt (cg_epss g) f_zero then [(''epss'', VF64 (cg_epss g))] else []) @
           (if cg_kev_date g \<noteq> [] then [(''kev_date'', VStr (cg_kev_date g))] else [])))"

definition dojo_cve_observations ::
  "dojo_finding list \<Rightarrow> (int, string) gmap \<Rightarrow> string \<Rightarrow> (dojo_finding \<Rightarrow> bool) \<Rightarrow> observation list" where
  "dojo_cve_observations findings labels kind keep =
     (let groups = fold (cve_round labels) (filter keep findings) []
      in map (\<lambda>name. cve_obs kind (name, the (mget groups name))) (sorted_keys groups))"

definition high_epss :: "dojo_finding \<Rightarrow> bool" where
  "high_epss f \<longleftrightarrow> df_fix_available f \<and> \<not> df_known_exploited f \<and>
     (case df_epss_score f of None \<Rightarrow> False | Some s \<Rightarrow> f_ge s dojo_epss_threshold)"

definition dojo_finding_observations ::
  "dojo_finding list \<Rightarrow> dojo_finding list \<Rightarrow> (int, string) gmap \<Rightarrow> gtime \<Rightarrow> observation list" where
  "dojo_finding_observations findings kev labels since =
     fresh_observations findings labels since @
     dojo_cve_observations kev labels ''vuln_known_exploited'' (\<lambda>_. True) @
     dojo_cve_observations findings labels ''vuln_high_epss'' high_epss"

section \<open>Scans that stopped\<close>

definition zero_time :: gtime where
  \<comment> \<open>the zero \<^verbatim>\<open>time.Time\<close>, the 1st of January of year 1\<close>
  "zero_time = \<lparr>t_ns = - 62135596800 * 10 ^ 9, t_zone = utc\<rparr>"

definition newest_round :: "dojo_test \<Rightarrow> (int, gtime) gmap \<Rightarrow> (int, gtime) gmap" where
  "newest_round t m =
     (case parse_rfc3339 utc (dt_updated t) of None \<Rightarrow> m
      | Some updated \<Rightarrow>
          if t_before (case mget m (dt_engagement t) of Some u \<Rightarrow> u | None \<Rightarrow> zero_time) updated
          then mput (dt_engagement t) updated m else m)"

definition stale_scan_obs :: "gtime \<Rightarrow> (int, string) gmap \<Rightarrow> (int, gtime) gmap \<Rightarrow> dojo_engagement \<Rightarrow> observation list" where
  "stale_scan_obs now names newest e =
     (case mget newest (de_id e) of None \<Rightarrow> []
      | Some last_scan \<Rightarrow>
          let age = t_sub now last_scan; h = f_to_int64 (hours age);
              subject = (case mget names (de_product e) of Some p \<Rightarrow> p | None \<Rightarrow> []) @ ''/'' @ de_name e
          in if age \<le> dojo_scan_stale_after then [] else
             [dojo_obs ''vuln_scan_stale'' subject h ''hours''
                (''last '' @ subject @ '' scan was '' @ int_str h @ '' hours ago - the nightly timer may have stopped'')
                [(''last_scan'', VStr (fmt_rfc3339 last_scan))]])"

definition dojo_stale_observations ::
  "dojo_test list \<Rightarrow> dojo_engagement list \<Rightarrow> dojo_product list \<Rightarrow> gtime \<Rightarrow> observation list" where
  "dojo_stale_observations tests engagements products now =
     (let names = fold (\<lambda>p. mput (dp_id p) (dp_name p)) products []; newest = fold newest_round tests []
      in concat (map (stale_scan_obs now names newest) engagements))"

section \<open>The collector\<close>

fun and_then :: "(string + 'a) option \<Rightarrow> ('a \<Rightarrow> (string + 'b) option) \<Rightarrow> (string + 'b) option" where
  \<comment> \<open>\<^verbatim>\<open>must\<close>: an error is a panic\<close>
  "and_then None f = None"
| "and_then (Some (Inl err)) f = Some (Inl err)"
| "and_then (Some (Inr x)) f = f x"

definition findings_of :: "dojo_world \<Rightarrow> dojo_client \<Rightarrow> (string \<times> string) list \<Rightarrow> (string + dojo_finding list) option" where
  "findings_of w c filters = dojo_list (\<lambda>offset. dw_findings w (dc_token c) (page_url c ''findings'' filters offset))"

definition collect_defect_dojo :: "dojo_world \<Rightarrow> config \<Rightarrow> (string + collector_data collector_result) option" where
  "collect_defect_dojo w cfg =
     (let result = new_collector_result ''defectdojo''; active = (''active'', ''true'')
      in if config.dojo_url cfg = [] \<or> dojo_password cfg = [] then
           Some (Inr (result\<lparr>c_status := ''unavailable'',
             c_error := ''no HEALTHREPORT_DOJO_URL / HEALTHREPORT_DOJO_PASSWORD configured''\<rparr>))
         else case dojo_login w (config.dojo_url cfg) (dojo_password cfg) of Inl err \<Rightarrow> Some (Inl err)
         | Inr c \<Rightarrow>
             and_then (dojo_list (\<lambda>offset. dw_tests w (dc_token c) (page_url c ''tests'' [] offset))) (\<lambda>tests.
             and_then (dojo_list (\<lambda>offset. dw_engagements w (dc_token c) (page_url c ''engagements'' [] offset))) (\<lambda>engagements.
             and_then (dojo_list (\<lambda>offset. dw_products w (dc_token c) (page_url c ''products'' [] offset))) (\<lambda>products.
             and_then (findings_of w c [active, (''severity'', ''Critical'')]) (\<lambda>critical.
             and_then (findings_of w c [active, (''severity'', ''High'')]) (\<lambda>high.
             and_then (findings_of w c [active, (''known_exploited'', ''true'')]) (\<lambda>kev.
               let since = (dw_now w)\<lparr>t_ns := t_ns (dw_now w) - lookback_hours cfg * 3600 * 10 ^ 9\<rparr>
               in Some (Inr (result\<lparr>c_observations :=
                    dojo_finding_observations (critical @ high) kev (dojo_target_labels tests engagements products) since @
                    dojo_stale_observations tests engagements products (dw_now w)\<rparr>)))))))))"

section \<open>Lemmas\<close>

lemma dojo_pages_returns:
  assumes "\<And>offset page. get offset = Inr page \<Longrightarrow> pg_count page \<le> bound"
  shows "\<exists>r. dojo_pages get offset out = Some r"
proof (induction "nat (bound - offset)" arbitrary: offset out rule: less_induct)
  case less
  show ?case
  proof (cases "get offset")
    case (Inr page)
    show ?thesis
    proof (cases "pg_results page = [] \<or> pg_count page \<le> offset + page_size")
      case False
      with assms [OF Inr] have "nat (bound - (offset + page_size)) < nat (bound - offset)"
        by (simp add: page_size_def)
      from less [OF this] False show ?thesis by (subst dojo_pages.simps) (simp add: Inr)
    qed (subst dojo_pages.simps, simp add: Inr)
  qed (subst dojo_pages.simps, simp)
qed

definition page_of :: "'a list \<Rightarrow> int \<Rightarrow> 'a dojo_page" where
  \<comment> \<open>the answer of a server that holds \<open>xs\<close>\<close>
  "page_of xs offset = \<lparr>pg_count = int (length xs), pg_results = take (nat page_size) (drop (nat offset) xs)\<rparr>"

lemma dojo_pages_exact:
  assumes "\<And>k. get (int k * page_size) = Inr (page_of xs (int k * page_size))"
  shows "dojo_pages get (int k * page_size) (take (k * 500) xs) = Some (Inr xs)"
proof (induction "length xs - k * 500" arbitrary: k rule: less_induct)
  case less
  define n where "n = k * 500"
  have n: "nat (int k * page_size) = n" "nat page_size = 500" by (simp_all add: n_def page_size_def nat_mult_distrib)
  have out: "take n xs @ take 500 (drop n xs) = take (n + 500) xs" by (simp add: take_add)
  have next_offset: "int k * page_size + page_size = int (Suc k) * page_size" by (simp add: algebra_simps)
  show ?case
  proof (cases "length xs \<le> n + 500")
    case True
    then have "int (length xs) \<le> int k * page_size + page_size" by (simp add: n_def page_size_def)
    with True out show ?thesis
      by (subst dojo_pages.simps) (simp add: assms page_of_def n n_def [symmetric])
  next
    case False
    then have "\<not> int (length xs) \<le> int k * page_size + page_size" by (simp add: n_def page_size_def)
    moreover have s: "Suc k * 500 = n + 500" by (simp add: n_def)
    have "dojo_pages get (int (Suc k) * page_size) (take (n + 500) xs) = Some (Inr xs)"
      unfolding s [symmetric] using False by (intro less) (simp add: n_def)
    ultimately show ?thesis using False out
      by (subst dojo_pages.simps)
        (simp add: assms page_of_def n n_def [symmetric] next_offset del: of_nat_Suc)
  qed
qed

text \<open>The newest time of an engagement.\<close>

definition scan_times :: "dojo_test list \<Rightarrow> int \<Rightarrow> gtime list" where
  "scan_times tests i =
     concat (map (\<lambda>t. case parse_rfc3339 utc (dt_updated t) of None \<Rightarrow> []
               | Some u \<Rightarrow> if t_before zero_time u then [u] else [])
       (filter (\<lambda>t. dt_engagement t = i) tests))"

lemma newest_exact:
  "(case mget (fold newest_round tests []) i of
      None \<Rightarrow> scan_times tests i = []
    | Some u \<Rightarrow> u \<in> set (scan_times tests i) \<and> (\<forall>v \<in> set (scan_times tests i). t_ns v \<le> t_ns u))"
proof (induction tests rule: rev_induct)
  case (snoc t tests)
  define m where "m = fold newest_round tests []"
  have app: "scan_times (tests @ [t]) i = scan_times tests i @ scan_times [t] i"
    by (simp add: scan_times_def)
  note IH = snoc [folded m_def]
  have pos: "t_before zero_time v" if "v \<in> set (scan_times tests i)" for v
    using that by (auto simp: scan_times_def split: option.splits if_splits)
  show ?case
  proof (cases "\<exists>u. parse_rfc3339 utc (dt_updated t) = Some u \<and> dt_engagement t = i")
    case False
    then have "scan_times [t] i = []" "mget (newest_round t m) i = mget m i"
      by (auto simp: scan_times_def newest_round_def split: option.splits)
    with IH show ?thesis by (cases "mget m i") (simp_all add: app flip: m_def)
  next
    case True
    then obtain u where u: "parse_rfc3339 utc (dt_updated t) = Some u" "dt_engagement t = i" by blast
    then have t: "scan_times [t] i = (if t_before zero_time u then [u] else [])"
      "mget (newest_round t m) i = (if t_before (case mget m i of Some w \<Rightarrow> w | None \<Rightarrow> zero_time) u then Some u else mget m i)"
      by (auto simp: scan_times_def newest_round_def)
    show ?thesis
    proof (cases "mget m i")
      case None
      with IH t show ?thesis by (simp add: app flip: m_def)
    next
      case (Some w)
      with IH have w: "w \<in> set (scan_times tests i)" "\<forall>v \<in> set (scan_times tests i). t_ns v \<le> t_ns w" by auto
      with pos [OF w(1)] Some t show ?thesis by (auto simp: app t_before_def simp flip: m_def)
    qed
  qed
qed (simp add: scan_times_def)

text \<open>The groups of the findings, one name at a time.\<close>

lemma cve_groups:
  "(case mget (fold (cve_round labels) fs []) name of
      None \<Rightarrow> name \<notin> dojo_finding_name ` set fs
    | Some g \<Rightarrow> name \<in> dojo_finding_name ` set fs \<and> distinct (cg_targets g) \<and>
        set (cg_targets g) = (\<lambda>f. target_label labels (df_test f)) ` {f \<in> set fs. dojo_finding_name f = name})"
proof (induction fs rule: rev_induct)
  case (snoc f fs)
  define m where "m = fold (cve_round labels) fs []"
  have set: "{h. (h = f \<or> h \<in> set fs) \<and> dojo_finding_name h = name} =
      {h \<in> set fs. dojo_finding_name h = name} \<union> (if dojo_finding_name f = name then {f} else {})" by auto
  have empty: "{h \<in> set fs. dojo_finding_name h = name} = {}" if "name \<notin> dojo_finding_name ` set fs" using that by auto
  from snoc show ?case
    unfolding fold_append comp_def fold_simps id_apply m_def [symmetric]
    by (cases "mget m name") (auto simp: cve_round_def Let_def set empty image_iff)
qed simp

lemma cve_names: "sorted_keys (fold (cve_round labels) fs []) = sorted_list_of_set (dojo_finding_name ` set fs)"
proof -
  define m where "m = fold (cve_round labels) fs []"
  have ok: "map_ok m"
    unfolding m_def
  proof (induction fs rule: rev_induct)
    case (snoc f fs)
    then show ?case by (simp add: cve_round_def [of labels f] Let_def gm.inv_put)
  qed (simp add: map_ok_def mkeys_def)
  have "dom (mget m) = dojo_finding_name ` set fs"
  proof (rule set_eqI)
    show "name \<in> dom (mget m) \<longleftrightarrow> name \<in> dojo_finding_name ` set fs" for name
      using cve_groups [where labels = labels and fs = fs and name = name, folded m_def] by (cases "mget m name") auto
  qed
  with ok show ?thesis
    unfolding m_def [symmetric]
    by (metis set_sorted_keys sorted_sorted_keys distinct_sorted_keys sorted_list_of_set.idem_if_sorted_distinct)
qed

section \<open>Properties\<close>

text \<open>
  Claim C36.  Reading a list page by page ends: with any server that answers every request and whose count
  stays below some bound it returns, and with a server that holds a fixed list it returns that
  list, complete and in order.
\<close>

theorem dojo_list_returns:
  assumes "\<forall>offset page. get offset = Inr page \<longrightarrow> pg_count page \<le> bound"
  shows "(\<exists>r. dojo_list get = Some r) \<and>
    (\<forall>xs. (\<forall>k. get (int k * page_size) = Inr (page_of xs (int k * page_size))) \<longrightarrow> dojo_list get = Some (Inr xs))"
  unfolding dojo_list_def using dojo_pages_returns [of get bound] dojo_pages_exact [of get _ 0] assms by auto

theorem dojo_list_returns_witness:
  "dojo_list (\<lambda>offset. Inr (page_of (replicate 1201 ''finding'') offset)) = Some (Inr (replicate 1201 ''finding''))"
  using dojo_list_returns [of "\<lambda>offset. Inr (page_of (replicate 1201 ''finding'') offset)" 1201]
  by (simp add: page_of_def)

text \<open>
  Claim C37.  The vulnerabilities are counted exactly: the report has, in order, one observation for each
  name among the findings that are kept, and its value is the number of distinct scan targets
  with such a finding.
\<close>

theorem cve_observations_exact:
  "map (\<lambda>obs. (o_subject obs, o_value obs)) (dojo_cve_observations findings labels kind keep) =
     (let kept = {f \<in> set findings. keep f}
      in map (\<lambda>name. (name, VInt (int (card ((\<lambda>f. target_label labels (df_test f)) ` {f \<in> kept. dojo_finding_name f = name})))))
           (sorted_list_of_set (dojo_finding_name ` kept)))"
proof -
  have "int (length (cg_targets (the (mget (fold (cve_round labels) (filter keep findings) []) name)))) =
      int (card ((\<lambda>f. target_label labels (df_test f)) ` {f \<in> {f \<in> set findings. keep f}. dojo_finding_name f = name}))"
    if "name \<in> dojo_finding_name ` {f \<in> set findings. keep f}" for name
    using that cve_groups [where labels = labels and fs = "filter keep findings" and name = name]
    by (cases "mget (fold (cve_round labels) (filter keep findings) []) name") (auto simp flip: distinct_card)
  then show ?thesis
    by (simp add: dojo_cve_observations_def Let_def cve_names cve_obs_def dojo_obs_def)
qed

text \<open>
  Claim C38.  A scan is reported as stopped exactly when there is a readable time for its engagement and every
  one is older than 36 hours.  In particular an engagement that was never scanned, or whose times
  cannot be read, is never reported, however long ago it was set up.
\<close>

theorem stale_scan_exact:
  assumes "e \<in> set engagements"
  shows "let names = fold (\<lambda>p. mput (dp_id p) (dp_name p)) products []; times = set (scan_times tests (de_id e)) in
    set (stale_scan_obs now names (fold newest_round tests []) e) \<subseteq>
      set (dojo_stale_observations tests engagements products now) \<and>
    (stale_scan_obs now names (fold newest_round tests []) e \<noteq> [] \<longleftrightarrow>
       times \<noteq> {} \<and> (\<forall>t \<in> times. 36 * 3600 * 10 ^ 9 < t_sub now t))"
proof -
  have mono: "t_sub now u \<le> t_sub now v" if "t_ns v \<le> t_ns u" for u v
    using that by (simp add: t_sub_def)
  have obs: "stale_scan_obs now names newest e \<noteq> [] \<longleftrightarrow>
      (\<exists>u. mget newest (de_id e) = Some u \<and> 36 * 3600 * 10 ^ 9 < t_sub now u)" for names newest
    by (cases "mget newest (de_id e)") (auto simp: stale_scan_obs_def Let_def dojo_scan_stale_after_def)
  have "(\<exists>u. mget (fold newest_round tests []) (de_id e) = Some u \<and> 36 * 3600 * 10 ^ 9 < t_sub now u) \<longleftrightarrow>
      set (scan_times tests (de_id e)) \<noteq> {} \<and> (\<forall>t \<in> set (scan_times tests (de_id e)). 36 * 3600 * 10 ^ 9 < t_sub now t)"
    using newest_exact [of tests "de_id e"] mono
    by (cases "mget (fold newest_round tests []) (de_id e)") (auto intro: less_le_trans)
  moreover have "set (stale_scan_obs now names newest e) \<subseteq> set (concat (map (stale_scan_obs now names newest) engagements))"
    for names newest using assms by auto
  ultimately show ?thesis by (simp only: Let_def dojo_stale_observations_def obs simp_thms)
qed

theorem stale_scan_exact_witness:
  "set (stale_scan_obs \<lparr>t_ns = 10 ^ 18, t_zone = utc\<rparr> [] [] \<lparr>de_id = 1, de_name = ''trivy'', de_product = 2\<rparr>) \<subseteq>
     set (dojo_stale_observations [] [\<lparr>de_id = 1, de_name = ''trivy'', de_product = 2\<rparr>] [] \<lparr>t_ns = 10 ^ 18, t_zone = utc\<rparr>) \<and>
   stale_scan_obs \<lparr>t_ns = 10 ^ 18, t_zone = utc\<rparr> [] [] \<lparr>de_id = 1, de_name = ''trivy'', de_product = 2\<rparr> = []"
  using stale_scan_exact [of "\<lparr>de_id = 1, de_name = ''trivy'', de_product = 2\<rparr>"
      "[\<lparr>de_id = 1, de_name = ''trivy'', de_product = 2\<rparr>]" "[]" "[]" "\<lparr>t_ns = 10 ^ 18, t_zone = utc\<rparr>"]
  by (simp add: scan_times_def)

end
