(* ===== verification/CO_Github.thy ===== *)
theory CO_Github
  imports CO_Base HR_Config HR_Run Go_Time
begin

text \<open>
  The collector of the state of the GitHub repositories,
  \<^verbatim>\<open>src/tools/internal/healthreport/collectors/github.go\<close>.  The server is a parameter; a feature it refuses
  with 403 or 404 is \<open>VNil\<close>.  The list of repositories is read page by page, by a partial function.
\<close>

section \<open>Requests\<close>

definition github_api :: string where "github_api = ''https://api.github.com''"
definition github_page :: nat where "github_page = 100"

record github_world =
  gw_http :: "string \<Rightarrow> string + int \<times> string \<times> (string + any)"
    \<comment> \<open>the status, the start of the body, and the body decoded\<close>
  gw_probe :: "string + int \<times> string \<times> string \<times> any"
    \<comment> \<open>of \<^verbatim>\<open>/user\<close>: the status, the body, the header with the expiry of the token, the body decoded\<close>
  gw_now :: gtime

definition ok_status :: "int \<Rightarrow> bool" where "ok_status s \<longleftrightarrow> 200 \<le> s \<and> s < 300"

definition github_get :: "github_world \<Rightarrow> string \<Rightarrow> (string \<times> string) list \<Rightarrow> string + any" where
  "github_get w raw_url params =
     (case gw_http w (if params = [] then raw_url else raw_url @ ''?'' @ encode_values params) of Inl err \<Rightarrow> Inl err
      | Inr (status, start, body) \<Rightarrow>
          if status = 403 \<or> status = 404 then Inr VNil
          else if \<not> ok_status status then Inl (''HTTP '' @ int_str status @ '': '' @ start)
          else body)"

partial_function (option) repo_pages ::
  "github_world \<Rightarrow> int \<Rightarrow> (string, any) gmap list \<Rightarrow> (string + (string, any) gmap list) option" where
  "repo_pages w page repos =
     (case github_get w (github_api @ ''/user/repos'')
          [(''affiliation'', ''owner''), (''per_page'', int_str (int github_page)), (''page'', int_str page)] of
        Inl err \<Rightarrow> Some (Inl err)
      | Inr batch \<Rightarrow>
          let items = as_list (Some batch)
          in if items = [] then Some (Inr repos)
             else if length items < github_page then Some (Inr (repos @ maps_of items))
             else repo_pages w (page + 1) (repos @ maps_of items))"

section \<open>One repository\<close>

definition gh_obs :: "string \<Rightarrow> string \<Rightarrow> string \<Rightarrow> string \<Rightarrow> string \<Rightarrow> (string, any) gmap \<Rightarrow> observation" where
  "gh_obs i subject kind val msg evidence = obs_of ''github'' i subject kind (VStr val) VNil msg evidence"

definition failed_conclusion :: "string \<Rightarrow> bool" where
  "failed_conclusion c \<longleftrightarrow> c \<in> {''failure'', ''timed_out'', ''startup_failure''}"

definition run_of :: "any \<Rightarrow> (string, any) gmap" where
  \<comment> \<open>what is no object is read as an empty one\<close>
  "run_of r = nil_map (as_map (Some r))"

definition run_key :: "(string, any) gmap \<Rightarrow> string \<times> string" where
  "run_key run = (or_default (str_at run ''name'') ''workflow'', or_default (str_at run ''head_branch'') ''?'')"

type_synonym latest_runs = "(string \<times> string, (string, any) gmap) gmap"

definition latest_round :: "(string, any) gmap \<Rightarrow> latest_runs \<Rightarrow> latest_runs" where
  "latest_round run m =
     (case mget m (run_key run) of None \<Rightarrow> mput (run_key run) run m
      | Some existing \<Rightarrow>
          if str_at existing ''created_at'' < str_at run ''created_at'' then mput (run_key run) run m else m)"

definition latest_runs :: "any list \<Rightarrow> latest_runs" where
  "latest_runs rs = fold latest_round (map run_of rs) []"

record repo_ids =
  ri_name :: string
  ri_full :: string
  ri_default_branch :: string

definition repo_url :: "repo_ids \<Rightarrow> string \<Rightarrow> string" where
  "repo_url repo rest = github_api @ ''/repos/'' @ ri_full repo @ rest"

definition workflow_obs ::
  "github_world \<Rightarrow> repo_ids \<Rightarrow> (string \<times> string) \<times> (string, any) gmap \<Rightarrow> string + observation list" where
  "workflow_obs w repo = (\<lambda>((workflow, branch), run).
     let concl = str_at run ''conclusion''; on_default = (branch = ri_default_branch repo);
         kind = (if on_default then ''workflow_failed_default_branch'' else ''workflow_failed'');
         alert = [gh_obs (kind @ ''.'' @ ri_name repo @ ''.'' @ workflow) (ri_name repo) kind concl
           (ri_full repo @ '': workflow '' @ workflow @ '' currently failing on '' @ branch @ '' (latest run)'')
           [(''url'', VStr (str_at run ''html_url'')), (''branch'', VStr branch)]]
     in if \<not> failed_conclusion concl then Inr []
        else if on_default then Inr alert
        else map_sum id (\<lambda>info. if info = VNil then [] else alert) (github_get w (repo_url repo (''/branches/'' @ branch)) []))"

definition json_number_string :: "any \<Rightarrow> string" where
  "json_number_string v = (case v of VF64 x \<Rightarrow> int_str (f_to_int64 x) | _ \<Rightarrow> sprint v)"

definition dependabot_obs :: "repo_ids \<Rightarrow> any \<Rightarrow> observation" where
  "dependabot_obs repo a =
     (let alert = run_of a; advisory = nil_map (map_at alert ''security_advisory'');
          severity = or_default (to_lower (str_at advisory ''severity'')) ''unknown'';
          pkg = nil_map (map_at (nil_map (map_at alert ''dependency'')) ''package'');
          pkg_name = or_default (str_at pkg ''name'') ''?''
      in gh_obs (''dependabot_alert.'' @ ri_name repo @ ''.'' @ json_number_string (any_at alert ''number''))
           (ri_name repo) ''dependabot_alert'' severity
           (ri_full repo @ '': '' @ severity @ '' Dependabot alert in '' @ pkg_name @ '' - '' @
            cut_to 120 (str_at advisory ''summary''))
           [(''url'', VStr (str_at alert ''html_url'')), (''package'', VStr pkg_name)])"

definition scanning_obs :: "repo_ids \<Rightarrow> any \<Rightarrow> observation" where
  "scanning_obs repo a =
     (let alert = run_of a; rule = nil_map (map_at alert ''rule'');
          severity = or_default (to_lower (or_default (str_at rule ''security_severity_level'') (str_at rule ''severity''))) ''unknown'';
          desc = cut_to 120 (or_default (str_at rule ''description'') (str_at rule ''id''))
      in gh_obs (''code_scanning_alert.'' @ ri_name repo @ ''.'' @ json_number_string (any_at alert ''number''))
           (ri_name repo) ''code_scanning_alert'' severity
           (ri_full repo @ '': '' @ severity @ '' code scanning alert - '' @ desc)
           [(''url'', VStr (str_at alert ''html_url''))])"

record repo_report =
  rr_entry :: github_repo
  rr_unavailable :: "string list"
  rr_observations :: "observation list"

definition repo_report_of ::
  "github_world \<Rightarrow> string \<Rightarrow> (string, any) gmap \<Rightarrow> string + repo_report list" where
  \<comment> \<open>the round of a repository; an archived one has none\<close>
  "repo_report_of w since r =
     (let repo = \<lparr>ri_name = str_at r ''name'', ri_full = str_at r ''full_name'',
                  ri_default_branch = or_default (str_at r ''default_branch'') ''main''\<rparr>;
          alerts = [(''state'', ''open''), (''per_page'', int_str (int github_page))];
          missing = (\<lambda>raw feature. if raw = VNil then [ri_full repo @ '':'' @ feature] else [])
      in if mget r ''archived'' = Some (VBool True) then Inr [] else
         case github_get w (repo_url repo ''/actions/runs'') [(''created'', ''>='' @ take 10 since), (''per_page'', ''50'')] of
           Inl err \<Rightarrow> Inl err
         | Inr runs_raw \<Rightarrow>
         let runs = list_at (run_of runs_raw) ''workflow_runs''
         in case in_sequence (map (workflow_obs w repo) (latest_runs runs)) of Inl err \<Rightarrow> Inl err
         | Inr failing \<Rightarrow>
         case github_get w (repo_url repo ''/dependabot/alerts'') alerts of Inl err \<Rightarrow> Inl err
         | Inr alerts_raw \<Rightarrow>
         case github_get w (repo_url repo ''/code-scanning/alerts'') alerts of Inl err \<Rightarrow> Inl err
         | Inr scanning_raw \<Rightarrow>
             let dependabot = as_list (Some alerts_raw); scanning = as_list (Some scanning_raw)
             in Inr [\<lparr>rr_entry = \<lparr>gr_repo = ri_full repo, gr_branch = ri_default_branch repo,
                  gr_failed_runs = int (length (filter (\<lambda>x. failed_conclusion (str_at (run_of x) ''conclusion'')) runs)),
                  gr_dependabot = int (length dependabot), gr_code_scanning = int (length scanning)\<rparr>,
                rr_unavailable = missing runs_raw ''actions'' @ missing alerts_raw ''dependabot'' @
                  missing scanning_raw ''code-scanning'',
                rr_observations = failing @ map (dependabot_obs repo) dependabot @ map (scanning_obs repo) scanning\<rparr>])"

section \<open>The collector\<close>

definition token_days :: "gtime \<Rightarrow> string \<Rightarrow> int option" where
  "token_days now expiry =
     (if length expiry < 10 then None
      else map_option (\<lambda>day. f_to_int64 (f_div (hours (t_sub \<lparr>t_ns = day * 86400 * 10 ^ 9, t_zone = utc\<rparr> now)) (f_num 24)))
        (parse_date (take 10 expiry)))"

definition token_obs :: "string \<Rightarrow> int \<Rightarrow> observation" where
  "token_obs expiry days =
     obs_of ''github'' ''github_token_expiry..'' ''github'' ''github_token_expiry'' (VInt days) (VStr ''days'')
       (''GitHub token expires in '' @ int_str days @ '' days'') [(''expires_at'', VStr expiry)]"

definition since_date :: "gtime \<Rightarrow> int \<Rightarrow> string" where
  \<comment> \<open>the day the window starts in UTC, the first ten characters of \<^verbatim>\<open>since\<close>\<close>
  "since_date now back = fmt_date \<lparr>t_ns = t_ns now - back * 3600 * 10 ^ 9, t_zone = utc\<rparr>"

definition collect_github :: "github_world \<Rightarrow> config \<Rightarrow> (string + collector_data collector_result) option" where
  "collect_github w cfg =
     (let result = new_collector_result ''github''
      in if github_token cfg = [] then
           Some (Inr (result\<lparr>c_status := ''unavailable'',
             c_error := ''no GitHub token configured (secrets.github_readonly.token)''\<rparr>))
         else case gw_probe w of Inl err \<Rightarrow> Some (Inl err)
         | Inr (status, text, expiry, user) \<Rightarrow>
             if \<not> ok_status status then Some (Inl (''github /user: HTTP '' @ int_str status @ '': '' @ text))
             else let days = token_days (gw_now w) expiry;
                      owner = or_default (github_owner cfg) (str_at (run_of user) ''login'')
                  in case repo_pages w 1 [] of None \<Rightarrow> None
                  | Some (Inl err) \<Rightarrow> Some (Inl err)
                  | Some (Inr repos) \<Rightarrow>
                      (case in_sequence (map (repo_report_of w (since_date (gw_now w) (lookback_hours cfg))) repos) of
                         Inl err \<Rightarrow> Some (Inl err)
                       | Inr reports \<Rightarrow> Some (Inr (result\<lparr>
                           c_data := Some (DGithub \<lparr>gd_repos = map rr_entry reports, gd_unavailable = concat (map rr_unavailable reports),
                             gd_count = int (length reports), gd_owner = owner, gd_token_days = days\<rparr>),
                           c_observations := (case days of None \<Rightarrow> [] | Some d \<Rightarrow> [token_obs expiry d]) @
                             concat (map rr_observations reports)\<rparr>))))"

section \<open>Lemmas\<close>

text \<open>The latest run of a workflow on a branch: the first of those with the greatest time.\<close>

definition created :: "(string, any) gmap \<Rightarrow> string" where
  "created run = str_at run ''created_at''"

definition is_latest :: "(string, any) gmap list \<Rightarrow> (string, any) gmap \<Rightarrow> bool" where
  "is_latest runs run \<longleftrightarrow> (\<exists>us vs. runs = us @ run # vs \<and> (\<forall>u \<in> set us. created u < created run) \<and>
     (\<forall>v \<in> set vs. created v \<le> created run))"

definition runs_of_key :: "any list \<Rightarrow> string \<times> string \<Rightarrow> (string, any) gmap list" where
  "runs_of_key rs k = filter (\<lambda>run. run_key run = k) (map run_of rs)"

lemma is_latest_snoc:
  assumes "is_latest runs run"
  shows "is_latest (runs @ [r]) (if created run < created r then r else run)"
proof -
  from assms obtain us vs where runs: "runs = us @ run # vs" "\<forall>u \<in> set us. created u < created run"
    "\<forall>v \<in> set vs. created v \<le> created run" by (auto simp: is_latest_def)
  show ?thesis
  proof (cases "created run < created r")
    case True
    with runs have "\<forall>u \<in> set runs. created u < created r" by auto
    with True show ?thesis unfolding is_latest_def by (intro exI [of _ runs] exI [of _ "[]"]) simp
  next
    case False
    with runs show ?thesis unfolding is_latest_def by (intro exI [of _ us] exI [of _ "vs @ [r]"]) auto
  qed
qed

lemma latest_runs_get:
  "(case mget (latest_runs rs) k of None \<Rightarrow> runs_of_key rs k = [] | Some run \<Rightarrow> is_latest (runs_of_key rs k) run)"
proof (induction rs rule: rev_induct)
  case (snoc r rs)
  define m where "m = latest_runs rs"
  have step: "latest_runs (rs @ [r]) = latest_round (run_of r) m" by (simp add: latest_runs_def m_def)
  have keys: "runs_of_key (rs @ [r]) k = runs_of_key rs k @ (if run_key (run_of r) = k then [run_of r] else [])"
    by (simp add: runs_of_key_def)
  note IH = snoc [folded m_def]
  show ?case
  proof (cases "run_key (run_of r) = k")
    case False
    then have "mget (latest_round (run_of r) m) k = mget m k" by (simp add: latest_round_def split: option.splits)
    with IH False show ?thesis by (cases "mget m k") (simp_all add: step keys)
  next
    case True
    show ?thesis
    proof (cases "mget m k")
      case None
      then have "mget (latest_round (run_of r) m) k = Some (run_of r)" by (simp add: latest_round_def True)
      moreover have "is_latest [run_of r] (run_of r)"
        unfolding is_latest_def by (intro exI [of _ "[]"]) simp
      ultimately show ?thesis using IH None by (simp add: step keys True)
    next
      case (Some run)
      then have "mget (latest_round (run_of r) m) k = Some (if created run < created (run_of r) then run_of r else run)"
        by (simp add: latest_round_def True created_def)
      with IH Some is_latest_snoc [of "runs_of_key rs k" run "run_of r"] show ?thesis by (simp add: step keys True)
    qed
  qed
qed (simp add: latest_runs_def runs_of_key_def)

lemma latest_runs_ok: "map_ok (latest_runs rs)"
  unfolding latest_runs_def
proof (induction rs rule: rev_induct)
  case (snoc r rs)
  then show ?case by (auto simp: latest_round_def gm.inv_put split: option.splits)
qed (simp add: map_ok_def mkeys_def)

lemma in_latest_runs: "(k, run) \<in> set (latest_runs rs) \<longleftrightarrow> mget (latest_runs rs) k = Some run"
  using latest_runs_ok [of rs] by (simp add: mget_def map_ok_def mkeys_def)

text \<open>The list of repositories, from a server that holds one.\<close>

definition serves_repos :: "github_world \<Rightarrow> any list \<Rightarrow> bool" where
  "serves_repos w xs \<longleftrightarrow> (\<forall>k. github_get w (github_api @ ''/user/repos'')
      [(''affiliation'', ''owner''), (''per_page'', int_str (int github_page)), (''page'', int_str (int (Suc k)))] =
     Inr (VList (take github_page (drop (k * github_page) xs))))"

lemma maps_of_append [simp]: "maps_of (xs @ ys) = maps_of xs @ maps_of ys"
  by (simp add: maps_of_def)

lemma repo_pages_exact:
  assumes "serves_repos w xs"
  shows "repo_pages w (int (Suc k)) (maps_of (take (k * github_page) xs)) = Some (Inr (maps_of xs))"
proof (induction "length xs - k * github_page" arbitrary: k rule: less_induct)
  case less
  define n where "n = k * github_page"
  have out: "maps_of (take n xs) @ maps_of (take github_page (drop n xs)) = maps_of (take (n + github_page) xs)"
    by (simp add: take_add)
  have get: "github_get w (github_api @ ''/user/repos'')
      [(''affiliation'', ''owner''), (''per_page'', int_str (int github_page)), (''page'', int_str (int (Suc k)))] =
     Inr (VList (take github_page (drop n xs)))" using assms by (simp add: serves_repos_def n_def)
  have next_page: "int (Suc k) + 1 = int (Suc (Suc k))" by simp
  show ?case
  proof (cases "length xs < n + github_page")
    case True
    then have "take (n + github_page) xs = xs" "length (take github_page (drop n xs)) < github_page"
      by (auto simp: github_page_def)
    then show ?thesis unfolding n_def [symmetric] using out
      by (subst repo_pages.simps) (simp add: get as_list_def Let_def del: of_nat_Suc)
  next
    case False
    then have len: "\<not> length (take github_page (drop n xs)) < github_page" "take github_page (drop n xs) \<noteq> []"
      by (auto simp: github_page_def)
    have s: "Suc k * github_page = n + github_page" by (simp add: n_def)
    have "repo_pages w (int (Suc (Suc k))) (maps_of (take (n + github_page) xs)) = Some (Inr (maps_of xs))"
      unfolding s [symmetric] using False by (intro less) (simp add: n_def github_page_def)
    with len out show ?thesis unfolding n_def [symmetric]
      by (subst repo_pages.simps) (simp add: get as_list_def next_page Let_def del: of_nat_Suc)
  qed
qed

section \<open>Properties\<close>

lemma workflow_obs_Inr:
  assumes "workflow_obs w repo (k, run) = Inr os"
  shows "os \<noteq> [] \<longleftrightarrow> failed_conclusion (str_at run ''conclusion'') \<and>
      (snd k = ri_default_branch repo \<or> github_get w (repo_url repo (''/branches/'' @ snd k)) [] \<noteq> Inr VNil)"
    and "ob \<in> set os \<Longrightarrow> o_id ob = (if snd k = ri_default_branch repo then ''workflow_failed_default_branch.''
        else ''workflow_failed.'') @ ri_name repo @ ''.'' @ fst k"
  using assms
  by (cases "github_get w (repo_url repo (''/branches/'' @ snd k)) []";
      auto simp: workflow_obs_def Let_def split_beta gh_obs_def split: if_splits)+

lemma workflow_rounds:
  assumes "in_sequence (map (workflow_obs w repo) (latest_runs rs)) = Inr obs"
  shows "ob \<in> set obs \<longleftrightarrow>
    (\<exists>k run os. mget (latest_runs rs) k = Some run \<and> workflow_obs w repo (k, run) = Inr os \<and> ob \<in> set os)"
    and "mget (latest_runs rs) k = Some run \<Longrightarrow> \<exists>os. workflow_obs w repo (k, run) = Inr os"
proof -
  obtain oss where oss: "map (workflow_obs w repo) (latest_runs rs) = map Inr oss" "obs = concat oss"
    using assms by (auto simp: in_sequence_Inr)
  have s: "workflow_obs w repo ` set (latest_runs rs) = Inr ` set oss" by (metis oss(1) set_map)
  show "mget (latest_runs rs) k = Some run \<Longrightarrow> \<exists>os. workflow_obs w repo (k, run) = Inr os"
    using s by (auto simp flip: in_latest_runs)
  have "os \<in> set oss \<longleftrightarrow> Inr os \<in> workflow_obs w repo ` set (latest_runs rs)" for os
    unfolding s by auto
  then have "os \<in> set oss \<longleftrightarrow> (\<exists>k run. mget (latest_runs rs) k = Some run \<and> workflow_obs w repo (k, run) = Inr os)" for os
    by (force simp flip: in_latest_runs)
  then show "ob \<in> set obs \<longleftrightarrow>
    (\<exists>k run os. mget (latest_runs rs) k = Some run \<and> workflow_obs w repo (k, run) = Inr os \<and> ob \<in> set os)"
    unfolding oss(2) by (simp add: Bex_def) blast
qed

lemma is_latest_unique:
  assumes "is_latest runs r" "is_latest runs r'"
  shows "r = r'"
proof -
  have *: "r = r'" if "us @ r # vs = us' @ r' # vs'" "length us \<le> length us'"
    "\<forall>v \<in> set vs. created v \<le> created r" "\<forall>u \<in> set us'. created u < created r'" for r r' us vs us' vs'
  proof (cases "length us = length us'")
    case False
    with that have "length us < length us'" by simp
    with that(1) have "r \<in> set us'" by (metis nth_append nth_append_length nth_mem)
    moreover have "r' \<in> set vs"
    proof -
      have "(us @ r # vs) ! length us' = r'" using that(1) by simp
      with \<open>length us < length us'\<close> have "vs ! (length us' - Suc (length us)) = r'"
        by (simp add: nth_append nth_Cons')
      moreover have "length us' - Suc (length us) < length vs"
        using arg_cong [OF that(1), of length] \<open>length us < length us'\<close> by simp
      ultimately show ?thesis by (metis nth_mem)
    qed
    ultimately show ?thesis using that(3,4) by force
  qed (use that in simp)
  from assms obtain us vs us' vs' where d: "runs = us @ r # vs" "runs = us' @ r' # vs'"
    "\<forall>u \<in> set us. created u < created r" "\<forall>v \<in> set vs. created v \<le> created r"
    "\<forall>u \<in> set us'. created u < created r'" "\<forall>v \<in> set vs'. created v \<le> created r'"
    unfolding is_latest_def by metis
  then show ?thesis using * [of us r vs us' r' vs'] * [of us' r' vs' us r vs] by (metis nat_le_linear)
qed

lemma latest_runs_latest: "mget (latest_runs rs) k = Some run \<longleftrightarrow> is_latest (runs_of_key rs k) run"
proof (cases "mget (latest_runs rs) k")
  case None
  with latest_runs_get [of rs k] show ?thesis by (simp add: is_latest_def)
next
  case (Some run')
  with latest_runs_get [of rs k] have "is_latest (runs_of_key rs k) run'" by simp
  with Some show ?thesis by (auto dest: is_latest_unique)
qed

text \<open>
  Claim C39.  What the report says of the default branch is its present state: a workflow is reported as failing
  there exactly when the latest of its runs in the window, by the time of its creation, has failed;
  an earlier failure that a later run repaired is not.
\<close>

theorem default_branch_exact:
  assumes "in_sequence (map (workflow_obs w repo) (latest_runs rs)) = Inr obs"
  shows "(\<exists>ob \<in> set obs. o_id ob = ''workflow_failed_default_branch.'' @ ri_name repo @ ''.'' @ workflow) \<longleftrightarrow>
    (\<exists>run. is_latest (runs_of_key rs (workflow, ri_default_branch repo)) run \<and>
       failed_conclusion (str_at run ''conclusion''))"
  (is "?reported \<longleftrightarrow> ?failed")
proof
  assume ?reported
  then obtain k run os ob where r: "mget (latest_runs rs) k = Some run" "workflow_obs w repo (k, run) = Inr os" "ob \<in> set os"
    "o_id ob = ''workflow_failed_default_branch.'' @ ri_name repo @ ''.'' @ workflow"
    using workflow_rounds [OF assms] by blast
  from workflow_obs_Inr(2) [OF r(2,3)] r(4) have "k = (workflow, ri_default_branch repo)"
    by (auto simp: prod_eq_iff split: if_splits)
  moreover from workflow_obs_Inr(1) [OF r(2)] r(3) have "failed_conclusion (str_at run ''conclusion'')" by auto
  ultimately show ?failed using r(1) by (auto simp: latest_runs_latest)
next
  assume ?failed
  then obtain run where run: "mget (latest_runs rs) (workflow, ri_default_branch repo) = Some run"
    "failed_conclusion (str_at run ''conclusion'')" by (auto simp: latest_runs_latest)
  obtain os where os: "workflow_obs w repo ((workflow, ri_default_branch repo), run) = Inr os"
    using workflow_rounds(2) [OF assms run(1)] by blast
  from run(2) workflow_obs_Inr(1) [OF os] have "os \<noteq> []" by simp
  then obtain ob where "ob \<in> set os" by (cases os) auto
  with os run(1) workflow_obs_Inr(2) [OF os] show ?reported
    by (intro bexI [of _ ob]) (auto simp: workflow_rounds(1) [OF assms])
qed

definition sample_github :: github_world where
  \<comment> \<open>a server that knows every branch\<close>
  "sample_github = \<lparr>gw_http = (\<lambda>_. Inr (200, [], Inr (VMap []))), gw_probe = Inl [], gw_now = \<lparr>t_ns = 0, t_zone = utc\<rparr>\<rparr>"

definition sample_repo :: repo_ids where
  "sample_repo = \<lparr>ri_name = ''homelab'', ri_full = ''me/homelab'', ri_default_branch = ''main''\<rparr>"

definition sample_run :: "string \<Rightarrow> string \<Rightarrow> string \<Rightarrow> any" where
  "sample_run branch stamp concl = VMap [(''name'', VStr ''ci''), (''head_branch'', VStr branch),
     (''created_at'', VStr stamp), (''conclusion'', VStr concl)]"

lemma sample_in_sequence: "\<exists>obs. in_sequence (map (workflow_obs sample_github repo) runs) = Inr obs"
proof -
  have "github_get sample_github u [] = Inr (VMap [])" for u
    by (simp add: github_get_def sample_github_def ok_status_def)
  then have "\<exists>os. workflow_obs sample_github repo r = Inr os" for r
    by (cases r) (auto simp: workflow_obs_def Let_def)
  then have "map (workflow_obs sample_github repo) runs = map Inr (map (\<lambda>r. projr (workflow_obs sample_github repo r)) runs)"
    by simp (metis sum.sel(2))
  then show ?thesis by (auto simp: in_sequence_Inr simp del: map_map)
qed

theorem default_branch_exact_witness:
  "\<exists>obs. in_sequence (map (workflow_obs sample_github sample_repo)
       (latest_runs [sample_run ''main'' ''2026-01-02'' ''failure'', sample_run ''main'' ''2026-01-01'' ''success''])) = Inr obs \<and>
     (\<exists>ob \<in> set obs. o_id ob = ''workflow_failed_default_branch.homelab.ci'')"
proof -
  let ?rs = "[sample_run ''main'' ''2026-01-02'' ''failure'', sample_run ''main'' ''2026-01-01'' ''success'']"
  obtain obs where obs: "in_sequence (map (workflow_obs sample_github sample_repo) (latest_runs ?rs)) = Inr obs"
    using sample_in_sequence by blast
  have "mget (latest_runs ?rs) (''ci'', ''main'') = Some (run_of (hd ?rs))"
    "failed_conclusion (str_at (run_of (hd ?rs)) ''conclusion'')" by code_simp+
  then have "is_latest (runs_of_key ?rs (''ci'', ''main'')) (run_of (hd ?rs))" by (simp only: latest_runs_latest)
  with default_branch_exact [OF obs, of "''ci''"] obs \<open>failed_conclusion _\<close> show ?thesis
    by (auto simp: sample_repo_def)
qed

text \<open>
  Claim C40.  The failures of one workflow on two branches that both still exist, neither of them the default one,
  are reported under the same id: the id names the repository and the workflow, not the branch.
\<close>

theorem branch_failures_share_id:
  assumes "in_sequence (map (workflow_obs w repo) (latest_runs rs)) = Inr obs"
    and "is_latest (runs_of_key rs (workflow, a)) r" "is_latest (runs_of_key rs (workflow, b)) s"
    and "failed_conclusion (str_at r ''conclusion'')" "failed_conclusion (str_at s ''conclusion'')"
    and "a \<noteq> b" "ri_default_branch repo \<notin> {a, b}"
    and "github_get w (repo_url repo (''/branches/'' @ a)) [] \<noteq> Inr VNil"
      "github_get w (repo_url repo (''/branches/'' @ b)) [] \<noteq> Inr VNil"
  shows "\<exists>x \<in> set obs. \<exists>y \<in> set obs. o_id x = o_id y \<and> mget (o_evidence x) ''branch'' = Some (VStr a) \<and>
    mget (o_evidence y) ''branch'' = Some (VStr b)"
proof -
  have one: "\<exists>x \<in> set obs. o_id x = ''workflow_failed.'' @ ri_name repo @ ''.'' @ workflow \<and>
      mget (o_evidence x) ''branch'' = Some (VStr c)"
    if c: "is_latest (runs_of_key rs (workflow, c)) run" "failed_conclusion (str_at run ''conclusion'')"
      "c \<noteq> ri_default_branch repo" "github_get w (repo_url repo (''/branches/'' @ c)) [] \<noteq> Inr VNil" for c run
  proof -
    from c(1) have m: "mget (latest_runs rs) (workflow, c) = Some run" by (simp add: latest_runs_latest)
    obtain os where os: "workflow_obs w repo ((workflow, c), run) = Inr os" using workflow_rounds(2) [OF assms(1) m] by blast
    with c(2-4) workflow_obs_Inr(1) [OF os] obtain x where x: "x \<in> set os" by (cases os) auto
    from os x c(2,3) have "mget (o_evidence x) ''branch'' = Some (VStr c)"
      by (cases "github_get w (repo_url repo (''/branches/'' @ c)) []")
        (auto simp: workflow_obs_def Let_def gh_obs_def mget_def split: if_splits)
    with os x m workflow_obs_Inr(2) [OF os x] c(3) show ?thesis
      by (intro bexI [of _ x]) (auto simp: workflow_rounds(1) [OF assms(1)])
  qed
  from one [OF assms(2,4)] one [OF assms(3,5)] assms(7-9) show ?thesis by (metis insertCI)
qed

theorem branch_failures_share_id_witness:
  "\<exists>obs. in_sequence (map (workflow_obs sample_github sample_repo)
       (latest_runs [sample_run ''dev'' ''2026-01-02'' ''failure'', sample_run ''next'' ''2026-01-01'' ''failure''])) = Inr obs \<and>
     (\<exists>x \<in> set obs. \<exists>y \<in> set obs. o_id x = o_id y \<and> mget (o_evidence x) ''branch'' = Some (VStr ''dev'') \<and>
        mget (o_evidence y) ''branch'' = Some (VStr ''next''))"
proof -
  let ?rs = "[sample_run ''dev'' ''2026-01-02'' ''failure'', sample_run ''next'' ''2026-01-01'' ''failure'']"
  obtain obs where obs: "in_sequence (map (workflow_obs sample_github sample_repo) (latest_runs ?rs)) = Inr obs"
    using sample_in_sequence by blast
  have l: "mget (latest_runs ?rs) (''ci'', ''dev'') = Some (run_of (hd ?rs))"
    "mget (latest_runs ?rs) (''ci'', ''next'') = Some (run_of (last ?rs))"
    "failed_conclusion (str_at (run_of (hd ?rs)) ''conclusion'')" "failed_conclusion (str_at (run_of (last ?rs)) ''conclusion'')"
    by code_simp+
  have g: "github_get sample_github u [] \<noteq> Inr VNil" for u
    by (simp add: github_get_def sample_github_def ok_status_def)
  from branch_failures_share_id [OF obs l(1,2) [unfolded latest_runs_latest] l(3,4) _ _ g g] obs show ?thesis
    by (simp add: sample_repo_def)
qed

end
