(* ===== verification/BD_Collect.thy ===== *)
theory BD_Collect
  imports Go_Time
begin

text \<open>
  Collecting the state of the backups, \<^verbatim>\<open>src/tools/internal/backupdashboard\<close>: the configuration
  (\<^verbatim>\<open>config.go\<close>), the facts of a host over SSH (\<^verbatim>\<open>facts.go\<close>), the disk usage from VictoriaMetrics
  (\<^verbatim>\<open>victoria.go\<close>) and the snapshot that joins them with the catalog (\<^verbatim>\<open>collect.go\<close>).  What a
  subprocess, a query or a decoder returns is a parameter; a nil dereference is the value \<^const>\<open>None\<close>
  of \<open>host_status\<close>.
\<close>

section \<open>Configuration\<close>

record bd_host =
  hs_name :: string
  hs_address :: string

record bd_config =
  bd_state_dir :: string
  bd_catalog_path :: string
  bd_output_path :: string
  bd_victoria_url :: string
  bd_ssh_hosts :: "bd_host list"
  bd_key_path :: string
  bd_facts_bin :: string

definition default_bd_config :: bd_config where
  "default_bd_config =
     \<lparr>bd_state_dir = ''/state'', bd_catalog_path = ''/catalog/backup_catalog.json'',
      bd_output_path = ''/output/index.html'', bd_victoria_url = ''http://127.0.0.1:19090'',
      bd_ssh_hosts = [], bd_key_path = ''/ssh/id_ed25519'', bd_facts_bin = ''/usr/local/bin/homelab-facts''\<rparr>"

definition parse_host_list :: "string \<Rightarrow> bd_host list" where
  "parse_host_list raw =
     concat (map (\<lambda>piece.
       let chunk = trim_space piece in
       if chunk = [] then [] else
       case cut_char CHR ''='' chunk of None \<Rightarrow> []
       | Some (name, addr) \<Rightarrow> [\<lparr>hs_name = trim_space name, hs_address = trim_space addr\<rparr>])
     (split_char CHR '','' raw))"

text \<open>\<^verbatim>\<open>os.Getenv\<close> as a function: the empty string where a variable is not set.\<close>

definition non_empty_or :: "(string \<Rightarrow> string) \<Rightarrow> string \<Rightarrow> string \<Rightarrow> string" where
  "non_empty_or env key dflt = (if env key \<noteq> [] then env key else dflt)"

definition bd_config_from_env :: "(string \<Rightarrow> string) \<Rightarrow> bd_config" where
  "bd_config_from_env env =
     (let c = default_bd_config in
      \<lparr>bd_state_dir = non_empty_or env ''BACKUP_DASHBOARD_STATE_DIR'' (bd_state_dir c),
       bd_catalog_path = non_empty_or env ''BACKUP_DASHBOARD_CATALOG_PATH'' (bd_catalog_path c),
       bd_output_path = non_empty_or env ''BACKUP_DASHBOARD_OUTPUT_PATH'' (bd_output_path c),
       bd_victoria_url = non_empty_or env ''BACKUP_DASHBOARD_VICTORIA_URL'' (bd_victoria_url c),
       bd_ssh_hosts = parse_host_list (env ''BACKUP_DASHBOARD_SSH_HOSTS''),
       bd_key_path = non_empty_or env ''BACKUP_DASHBOARD_SSH_KEY_PATH'' (bd_key_path c),
       bd_facts_bin = non_empty_or env ''BACKUP_DASHBOARD_LOCAL_FACTS_BIN'' (bd_facts_bin c)\<rparr>)"

section \<open>The facts of a host\<close>

record entry_stat =
  es_bytes :: int
  es_files :: int

record backup_target =
  bt_name :: string
  bt_kind :: string
  bt_quota_supported :: bool
  bt_used_percent :: "f64 option"
  bt_free_bytes :: "f64 option"

record verification_check =
  vc_state :: string
  vc_updated_at :: string

text \<open>
  The sections of the decoded document.  A \<^verbatim>\<open>nil\<close> slice or map reads as an empty one, so both are
  the empty list.
\<close>

record facts_payload =
  fp_available :: bool
  fp_reason :: string
  fp_completed :: bool
  fp_critical_failures :: int
  fp_failed_services :: "string list"
  fp_age_seconds :: "f64 option"
  fp_stats :: "(string, entry_stat) gmap"
  fp_targets :: "backup_target list"
  fp_verify_available :: bool
  fp_verify_updated_at :: string
  fp_verify_last_mode :: string
  fp_verify_state :: string
  fp_checks :: "(string, verification_check) gmap"
  fp_history_available :: bool
  fp_history_state :: string
  fp_history_reason :: string
  fp_snapshot_count :: int
  fp_latest_snapshot :: "string option"
  fp_free_percent :: "f64 option"
  fp_floor_percent :: int

definition ssh_options :: "string list" where
  "ssh_options =
     [''-o'', ''BatchMode=yes'', ''-o'', ''ConnectTimeout=10'',
      ''-o'', ''StrictHostKeyChecking=accept-new'', ''-o'', ''IdentitiesOnly=yes'']"

definition ssh_args :: "bd_config \<Rightarrow> string \<Rightarrow> string list" where
  "ssh_args cfg address = ssh_options @ [''-i'', bd_key_path cfg, ''root@'' @ address, bd_facts_bin cfg]"

text \<open>How the subprocess ends: an error and its standard error, or its standard output.\<close>

datatype ssh_result = SshError string string | SshOutput string

type_synonym decoder = "string \<Rightarrow> string + facts_payload"

definition fetch_error :: "string \<Rightarrow> string \<Rightarrow> string" where
  "fetch_error address what = address @ '': '' @ what"

definition fetch_facts ::
  "(string list \<Rightarrow> ssh_result) \<Rightarrow> decoder \<Rightarrow> bd_config \<Rightarrow> string \<Rightarrow> string + facts_payload" where
  "fetch_facts ssh decode cfg address =
     (case ssh (ssh_args cfg address) of
        SshError err stderr \<Rightarrow> Inl (fetch_error address (err @ '': '' @ cut_to 300 (trim_space stderr)))
      | SshOutput out \<Rightarrow>
          (case decode out of
             Inl err \<Rightarrow> Inl (fetch_error address (''decode facts: '' @ err))
           | Inr payload \<Rightarrow> Inr payload))"

type_synonym fetched = "(string, facts_payload) gmap \<times> (string, string) gmap"

definition fetch_one ::
  "(bd_host \<Rightarrow> string + facts_payload) \<Rightarrow> bd_host \<Rightarrow> fetched \<Rightarrow> fetched" where
  "fetch_one fetch h = (\<lambda>(payloads, errs).
     case fetch h of
       Inl err \<Rightarrow> (payloads, mput (hs_name h) err errs)
     | Inr payload \<Rightarrow> (mput (hs_name h) payload payloads, errs))"

definition fetch_all :: "(bd_host \<Rightarrow> string list \<Rightarrow> ssh_result) \<Rightarrow> decoder \<Rightarrow> bd_config \<Rightarrow> fetched" where
  \<comment> \<open>the subprocess is run once per configured host, so its end depends on the host too\<close>
  "fetch_all ssh decode cfg =
     fold (fetch_one (\<lambda>h. fetch_facts (ssh h) decode cfg (hs_address h))) (bd_ssh_hosts cfg) ([], [])"

section \<open>Disk usage of the sources\<close>

record series =
  sr_metric :: "(string, string) gmap"
  sr_value :: any \<comment> \<open>the second component of the pair; the first is the time and is not read\<close>

definition round1 :: "f64 \<Rightarrow> f64" where
  "round1 v = f_div (f_round (f_mul v (f_num 10))) (f_num 10)"

definition label_of :: "series \<Rightarrow> string \<Rightarrow> string" where
  "label_of s key = (case mget (sr_metric s) key of Some v \<Rightarrow> v | None \<Rightarrow> [])"

type_synonym disk_map = "(string, (string, f64) gmap) gmap"

definition add_series :: "series \<Rightarrow> disk_map \<Rightarrow> disk_map" where
  "add_series s out =
     (case sr_value s of
        VStr text \<Rightarrow>
          (case parse_float text of None \<Rightarrow> out
           | Some v \<Rightarrow>
               let inst = label_of s ''instance'';
                   mounts = (case mget out inst of Some m \<Rightarrow> m | None \<Rightarrow> [])
               in mput inst (mput (label_of s ''mountpoint'') (round1 v) mounts) out)
      | _ \<Rightarrow> out)"

text \<open>The query: no response, or a status code and the decoded body if it can be decoded.\<close>

record victoria_body =
  vb_status :: string
  vb_result :: "series list"

datatype victoria_reply = NoReply | Reply int "victoria_body option"

definition query_url :: "string \<Rightarrow> string \<Rightarrow> string" where
  "query_url url encoded = trim_right_char CHR ''/'' url @ ''/api/v1/query?'' @ encoded"

definition query_victoria :: "victoria_reply \<Rightarrow> series list option" where
  "query_victoria reply =
     (case reply of NoReply \<Rightarrow> None
      | Reply code body \<Rightarrow>
          if 400 \<le> code then None else
          (case body of None \<Rightarrow> None
           | Some b \<Rightarrow> if vb_status b \<noteq> ''success'' then None else Some (vb_result b)))"

definition source_disk_usage :: "victoria_reply \<Rightarrow> disk_map" where
  "source_disk_usage reply =
     (case query_victoria reply of None \<Rightarrow> [] | Some rs \<Rightarrow> fold add_series rs [])"

section \<open>The snapshot\<close>

record catalog_entry =
  ce_name :: string
  ce_type :: string
  ce_host :: string
  ce_source :: any
  ce_dest :: string
  ce_destinations :: "string list"
  ce_schedule :: string

definition source_display :: "catalog_entry \<Rightarrow> string" where
  "source_display e =
     (case ce_source e of
        VStr s \<Rightarrow> s
      | VList l \<Rightarrow> join '', '' (concat (map (\<lambda>x. case x of VStr s \<Rightarrow> [s] | _ \<Rightarrow> []) l))
      | _ \<Rightarrow> [])"

record bd_catalog =
  bc_generated_at :: string
  bc_entries :: "catalog_entry list"

record host_status =
  st_state :: string
  st_reason :: string
  st_failed_services :: "string list"
  st_age_seconds :: "f64 option"
  st_stats :: "(string, entry_stat) gmap"
  st_verification_state :: string
  st_verification_at :: string
  st_verification_mode :: string
  st_restore_state :: string
  st_restore_at :: string

definition zero_status :: host_status where
  "zero_status =
     \<lparr>st_state = [], st_reason = [], st_failed_services = [], st_age_seconds = None, st_stats = [],
      st_verification_state = [], st_verification_at = [], st_verification_mode = [],
      st_restore_state = [], st_restore_at = []\<rparr>"

definition unknown_status :: "string \<Rightarrow> host_status" where
  "unknown_status reason = zero_status\<lparr>st_state := ''unknown'', st_reason := reason\<rparr>"

definition run_state :: "facts_payload \<Rightarrow> string" where
  "run_state p = (if fp_completed p \<and> fp_critical_failures p = 0 then ''ok'' else ''degraded'')"

definition restore_check :: "facts_payload \<Rightarrow> verification_check" where
  "restore_check p =
     (case mget (fp_checks p) ''restore'' of Some c \<Rightarrow> c | None \<Rightarrow> \<lparr>vc_state = [], vc_updated_at = []\<rparr>)"

definition host_status_of :: "facts_payload option \<Rightarrow> string \<Rightarrow> host_status option" where
  \<comment> \<open>\<^const>\<open>None\<close>: the payload is \<^verbatim>\<open>nil\<close> and there is no error, a panic\<close>
  "host_status_of payload err =
     (if err \<noteq> [] then Some (unknown_status err) else
      case payload of None \<Rightarrow> None
      | Some p \<Rightarrow>
          Some (if \<not> fp_available p
                then unknown_status (if fp_reason p = [] then ''no data'' else fp_reason p)
                else \<lparr>st_state = run_state p, st_reason = [], st_failed_services = fp_failed_services p,
                      st_age_seconds = fp_age_seconds p, st_stats = fp_stats p,
                      st_verification_state = (if fp_verify_available p then fp_verify_state p else ''unknown''),
                      st_verification_at = fp_verify_updated_at p,
                      st_verification_mode = fp_verify_last_mode p,
                      st_restore_state = vc_state (restore_check p),
                      st_restore_at = vc_updated_at (restore_check p)\<rparr>))"

record dest_usage =
  du_used_percent :: f64
  du_free_gib :: f64

record history_status =
  hy_name :: string
  hy_state :: string
  hy_reason :: string
  hy_snapshot_count :: int
  hy_latest_snapshot :: "string option"
  hy_free_percent :: "f64 option"
  hy_floor_percent :: int

definition history_status_of :: "string \<Rightarrow> facts_payload option \<Rightarrow> string \<Rightarrow> history_status option" where
  "history_status_of name payload err =
     (case payload of None \<Rightarrow> None
      | Some p \<Rightarrow>
          if err \<noteq> [] \<or> (\<not> fp_history_available p \<and> fp_history_state p = [] \<and> fp_history_reason p = []) then None
          else Some \<lparr>hy_name = name, hy_state = fp_history_state p, hy_reason = fp_history_reason p,
                     hy_snapshot_count = fp_snapshot_count p, hy_latest_snapshot = fp_latest_snapshot p,
                     hy_free_percent = fp_free_percent p, hy_floor_percent = fp_floor_percent p\<rparr>)"

definition gib :: f64 where
  "gib = f_num (1024 * 1024 * 1024)"

definition add_target :: "backup_target \<Rightarrow> (string, dest_usage) gmap \<Rightarrow> (string, dest_usage) gmap" where
  "add_target t out =
     (case bt_used_percent t of None \<Rightarrow> out
      | Some used \<Rightarrow>
          if bt_kind t \<noteq> ''remote'' \<or> \<not> bt_quota_supported t then out
          else mput (bt_name t)
                 \<lparr>du_used_percent = round1 used,
                  du_free_gib = round1 (f_div (case bt_free_bytes t of Some b \<Rightarrow> b | None \<Rightarrow> f_zero) gib)\<rparr> out)"

definition target_usage :: "facts_payload option \<Rightarrow> string \<Rightarrow> (string, dest_usage) gmap" where
  "target_usage payload err =
     (case payload of None \<Rightarrow> []
      | Some p \<Rightarrow> if err \<noteq> [] then [] else fold add_target (fp_targets p) [])"

definition status_at :: "(string, host_status) gmap \<Rightarrow> string \<Rightarrow> host_status" where
  "status_at statuses name = (case mget statuses name of Some s \<Rightarrow> s | None \<Rightarrow> zero_status)"

definition names_entry :: "catalog_entry \<Rightarrow> string \<Rightarrow> bool" where
  "names_entry entry item \<longleftrightarrow> item = ce_dest entry \<or> contains item (ce_name entry)"

definition entry_badge :: "catalog_entry \<Rightarrow> (string, host_status) gmap \<Rightarrow> string" where
  "entry_badge entry statuses =
     (let s = status_at statuses (ce_host entry)
      in if list_ex (names_entry entry) (st_failed_services s) then ''failed''
         else if st_state s \<noteq> [] then st_state s else ''unknown'')"

definition entry_stat_for :: "catalog_entry \<Rightarrow> (string, host_status) gmap \<Rightarrow> entry_stat option" where
  "entry_stat_for entry statuses = mget (st_stats (status_at statuses (ce_host entry))) (ce_name entry)"

record badged_entry =
  be_entry :: catalog_entry
  be_badge :: string
  be_size_bytes :: int
  be_file_count :: int
  be_has_stats :: bool

definition with_badge :: "(string, host_status) gmap \<Rightarrow> catalog_entry \<Rightarrow> badged_entry" where
  "with_badge statuses entry =
     (let stat = entry_stat_for entry statuses
      in \<lparr>be_entry = entry, be_badge = entry_badge entry statuses,
          be_size_bytes = (case stat of Some s \<Rightarrow> es_bytes s | None \<Rightarrow> 0),
          be_file_count = (case stat of Some s \<Rightarrow> es_files s | None \<Rightarrow> 0),
          be_has_stats = (stat \<noteq> None)\<rparr>)"

record snapshot =
  sn_generated_at :: string
  sn_catalog_generated_at :: string
  sn_host_order :: "string list"
  sn_hosts :: "(string, host_status) gmap"
  sn_destination_order :: "string list"
  sn_destinations :: "(string, dest_usage) gmap"
  sn_history :: "history_status list"
  sn_source_disk :: disk_map
  sn_entries :: "badged_entry list"
  sn_errors :: "(string, string) gmap"

definition error_at :: "(string, string) gmap \<Rightarrow> string \<Rightarrow> string" where
  "error_at errs name = (case mget errs name of Some e \<Rightarrow> e | None \<Rightarrow> [])"

type_synonym host_rounds = "string list \<times> (string, host_status) gmap \<times> history_status list"

definition host_round :: "string set \<Rightarrow> fetched \<Rightarrow> bd_host \<Rightarrow> host_rounds option \<Rightarrow> host_rounds option" where
  \<comment> \<open>one host: its status where the catalog has entries of it, and its snapshot history\<close>
  "host_round sources = (\<lambda>(payloads, errs) h acc.
     case acc of None \<Rightarrow> None
     | Some (order, statuses, history) \<Rightarrow>
         let name = hs_name h; payload = mget payloads name; err = error_at errs name;
             history' = history @ (case history_status_of name payload err of None \<Rightarrow> [] | Some x \<Rightarrow> [x])
         in if name \<notin> sources then Some (order, statuses, history') else
            case host_status_of payload err of None \<Rightarrow> None
            | Some s \<Rightarrow> Some (order @ [name], mput name s statuses, history'))"

definition all_destinations :: "fetched \<Rightarrow> bd_host list \<Rightarrow> (string, dest_usage) gmap" where
  "all_destinations = (\<lambda>(payloads, errs) hosts.
     fold (\<lambda>h out. fold (\<lambda>(n, u). mput n u) (target_usage (mget payloads (hs_name h)) (error_at errs (hs_name h))) out)
       hosts [])"

definition build_snapshot ::
  "bd_config \<Rightarrow> bd_catalog \<Rightarrow> fetched \<Rightarrow> victoria_reply \<Rightarrow> gtime \<Rightarrow> snapshot option" where
  "build_snapshot cfg cat fetched reply now =
     (case fold (host_round (ce_host ` set (bc_entries cat)) fetched) (bd_ssh_hosts cfg) (Some ([], [], [])) of
        None \<Rightarrow> None
      | Some (order, statuses, history) \<Rightarrow>
          let destinations = all_destinations fetched (bd_ssh_hosts cfg)
          in Some \<lparr>sn_generated_at = fmt_rfc3339 (now\<lparr>t_zone := utc\<rparr>),
                   sn_catalog_generated_at = bc_generated_at cat,
                   sn_host_order = order, sn_hosts = statuses,
                   sn_destination_order = sorted_keys destinations, sn_destinations = destinations,
                   sn_history = history, sn_source_disk = source_disk_usage reply,
                   sn_entries = map (with_badge statuses) (bc_entries cat), sn_errors = snd fetched\<rparr>)"

section \<open>What a snapshot says\<close>

lemma fetch_error_nonempty [simp]: "fetch_error address what \<noteq> []"
  by (simp add: fetch_error_def)

lemma fetch_facts_error: "fetch_facts ssh decode cfg address = Inl err \<Longrightarrow> err \<noteq> []"
  by (auto simp: fetch_facts_def split: ssh_result.splits sum.splits)

text \<open>Every configured host has a payload or an error that is not empty.\<close>

definition settled :: "fetched \<Rightarrow> string \<Rightarrow> bool" where
  "settled f n \<longleftrightarrow> mget (fst f) n \<noteq> None \<or> mget (snd f) n \<noteq> None"

lemma fetch_one_simps:
  "fetch h = Inl err \<Longrightarrow> fetch_one fetch h f = (fst f, mput (hs_name h) err (snd f))"
  "fetch h = Inr p \<Longrightarrow> fetch_one fetch h f = (mput (hs_name h) p (fst f), snd f)"
  by (simp_all add: fetch_one_def split: prod.split)

lemma fetch_one_settled: "settled (fetch_one fetch h f) n \<longleftrightarrow> n = hs_name h \<or> settled f n"
  by (cases "fetch h") (auto simp: fetch_one_simps settled_def)

lemma fold_fetch_settled:
  "settled (fold (fetch_one fetch) hs f) n \<longleftrightarrow> n \<in> hs_name ` set hs \<or> settled f n"
  by (induction hs arbitrary: f) (auto simp: fetch_one_settled)

lemma fold_fetch_errors:
  "mget (snd (fold (fetch_one fetch) hs f)) n = Some e \<Longrightarrow>
   mget (snd f) n = Some e \<or> (\<exists>h \<in> set hs. hs_name h = n \<and> fetch h = Inl e)"
proof (induction hs arbitrary: f)
  case (Cons h hs)
  from Cons.IH [of "fetch_one fetch h f"] Cons.prems
  have "mget (snd (fetch_one fetch h f)) n = Some e \<or> (\<exists>h' \<in> set hs. hs_name h' = n \<and> fetch h' = Inl e)"
    by (simp only: fold_simps)
  then show ?case
    by (cases "fetch h") (auto simp: fetch_one_simps split: if_splits)
qed simp

lemma fold_fetch_payloads:
  "mget (fst (fold (fetch_one fetch) hs f)) n = Some p \<Longrightarrow>
   mget (fst f) n = Some p \<or> (\<exists>h \<in> set hs. hs_name h = n \<and> fetch h = Inr p)"
proof (induction hs arbitrary: f)
  case (Cons h hs)
  from Cons.IH [of "fetch_one fetch h f"] Cons.prems
  have "mget (fst (fetch_one fetch h f)) n = Some p \<or> (\<exists>h' \<in> set hs. hs_name h' = n \<and> fetch h' = Inr p)"
    by (simp only: fold_simps)
  then show ?case
    by (cases "fetch h") (auto simp: fetch_one_simps split: if_splits)
qed simp

definition fetch_of :: "(bd_host \<Rightarrow> string list \<Rightarrow> ssh_result) \<Rightarrow> decoder \<Rightarrow> bd_config \<Rightarrow> bd_host \<Rightarrow> string + facts_payload" where
  "fetch_of ssh decode cfg h = fetch_facts (ssh h) decode cfg (hs_address h)"

lemma fetch_all_eq: "fetch_all ssh decode cfg = fold (fetch_one (fetch_of ssh decode cfg)) (bd_ssh_hosts cfg) ([], [])"
  by (simp add: fetch_all_def fetch_of_def [abs_def])

lemma fetch_all_settled: "h \<in> set (bd_ssh_hosts cfg) \<Longrightarrow> settled (fetch_all ssh decode cfg) (hs_name h)"
  by (simp add: fetch_all_eq fold_fetch_settled)

lemma fetch_all_error:
  "mget (snd (fetch_all ssh decode cfg)) n = Some e \<Longrightarrow>
   \<exists>h \<in> set (bd_ssh_hosts cfg). hs_name h = n \<and> fetch_of ssh decode cfg h = Inl e"
  using fold_fetch_errors [of "fetch_of ssh decode cfg" "bd_ssh_hosts cfg" "([], [])" n e] by (simp add: fetch_all_eq)

lemma fetch_all_payload:
  "mget (fst (fetch_all ssh decode cfg)) n = Some p \<Longrightarrow>
   \<exists>h \<in> set (bd_ssh_hosts cfg). hs_name h = n \<and> fetch_of ssh decode cfg h = Inr p"
  using fold_fetch_payloads [of "fetch_of ssh decode cfg" "bd_ssh_hosts cfg" "([], [])" n p] by (simp add: fetch_all_eq)

lemma fetch_all_known:
  assumes "distinct (map hs_name (bd_ssh_hosts cfg))" "h \<in> set (bd_ssh_hosts cfg)"
  shows "mget (fst (fetch_all ssh decode cfg)) (hs_name h) =
           (case fetch_of ssh decode cfg h of Inl _ \<Rightarrow> None | Inr p \<Rightarrow> Some p)"
    and "mget (snd (fetch_all ssh decode cfg)) (hs_name h) =
           (case fetch_of ssh decode cfg h of Inl e \<Rightarrow> Some e | Inr _ \<Rightarrow> None)"
proof -
  let ?F = "fetch_all ssh decode cfg" and ?f = "fetch_of ssh decode cfg"
  have same: "h' = h" if "h' \<in> set (bd_ssh_hosts cfg)" "hs_name h' = hs_name h" for h'
    using distinct_map_eqD [OF assms(1)] that assms(2) by blast
  have s: "mget (fst ?F) (hs_name h) \<noteq> None \<or> mget (snd ?F) (hs_name h) \<noteq> None"
    using fetch_all_settled [OF assms(2), of ssh decode] by (simp add: settled_def)
  have p: "?f h = Inr p" if "mget (fst ?F) (hs_name h) = Some p" for p
    using fetch_all_payload [OF that] same by blast
  have e: "?f h = Inl x" if "mget (snd ?F) (hs_name h) = Some x" for x
    using fetch_all_error [OF that] same by blast
  show "mget (fst ?F) (hs_name h) = (case ?f h of Inl _ \<Rightarrow> None | Inr p \<Rightarrow> Some p)"
    and "mget (snd ?F) (hs_name h) = (case ?f h of Inl e \<Rightarrow> Some e | Inr _ \<Rightarrow> None)"
    using s p e by (cases "mget (fst ?F) (hs_name h)"; cases "mget (snd ?F) (hs_name h)"; force)+
qed

definition status_for :: "fetched \<Rightarrow> string \<Rightarrow> host_status option" where
  "status_for f n = host_status_of (mget (fst f) n) (error_at (snd f) n)"

definition history_for :: "fetched \<Rightarrow> string \<Rightarrow> history_status list" where
  "history_for f n =
     (case history_status_of n (mget (fst f) n) (error_at (snd f) n) of None \<Rightarrow> [] | Some x \<Rightarrow> [x])"

lemma host_rounds:
  assumes "\<forall>h \<in> set hs. status_for f (hs_name h) \<noteq> None"
  shows "fold (host_round S f) hs (Some (order, statuses, history)) =
     Some (order @ map hs_name (filter (\<lambda>h. hs_name h \<in> S) hs),
           fold (\<lambda>h. mput (hs_name h) (the (status_for f (hs_name h)))) (filter (\<lambda>h. hs_name h \<in> S) hs) statuses,
           history @ concat (map (\<lambda>h. history_for f (hs_name h)) hs))"
  using assms
proof (induction hs arbitrary: order statuses history)
  case (Cons h hs)
  from Cons.prems obtain s where s: "status_for f (hs_name h) = Some s" by auto
  obtain P E where f: "f = (P, E)" by (cases f)
  from s have "host_round S f h (Some (order, statuses, history)) =
      Some (if hs_name h \<in> S then order @ [hs_name h] else order,
            if hs_name h \<in> S then mput (hs_name h) s statuses else statuses,
            history @ history_for f (hs_name h))"
    by (simp add: f host_round_def status_for_def history_for_def Let_def)
  with Cons.IH Cons.prems s show ?case by simp
qed simp

lemma error_at_fetch_all: "error_at (snd (fetch_all ssh decode cfg)) n = [] \<longleftrightarrow> mget (snd (fetch_all ssh decode cfg)) n = None"
  using fetch_all_error [of ssh decode cfg n]
  by (auto simp: error_at_def fetch_of_def dest: fetch_facts_error split: option.splits)

lemma status_for_fetch_all:
  assumes "h \<in> set (bd_ssh_hosts cfg)"
  shows "status_for (fetch_all ssh decode cfg) (hs_name h) \<noteq> None"
  using fetch_all_settled [OF assms, of ssh decode] error_at_fetch_all [of ssh decode cfg "hs_name h"]
  by (auto simp: status_for_def settled_def host_status_of_def split: option.splits)

definition source_hosts :: "bd_config \<Rightarrow> bd_catalog \<Rightarrow> bd_host list" where
  "source_hosts cfg cat = filter (\<lambda>h. hs_name h \<in> ce_host ` set (bc_entries cat)) (bd_ssh_hosts cfg)"

lemma build_snapshot_eq:
  fixes cfg cat ssh decode
  defines "f \<equiv> fetch_all ssh decode cfg"
  defines "statuses \<equiv> fold (\<lambda>h. mput (hs_name h) (the (status_for f (hs_name h)))) (source_hosts cfg cat) []"
  shows "build_snapshot cfg cat f reply now =
    Some \<lparr>sn_generated_at = fmt_rfc3339 (now\<lparr>t_zone := utc\<rparr>), sn_catalog_generated_at = bc_generated_at cat,
          sn_host_order = map hs_name (source_hosts cfg cat), sn_hosts = statuses,
          sn_destination_order = sorted_keys (all_destinations f (bd_ssh_hosts cfg)),
          sn_destinations = all_destinations f (bd_ssh_hosts cfg),
          sn_history = concat (map (\<lambda>h. history_for f (hs_name h)) (bd_ssh_hosts cfg)),
          sn_source_disk = source_disk_usage reply,
          sn_entries = map (with_badge statuses) (bc_entries cat), sn_errors = snd f\<rparr>"
proof -
  have "\<forall>h \<in> set (bd_ssh_hosts cfg). status_for f (hs_name h) \<noteq> None"
    by (simp add: f_def status_for_fetch_all)
  from host_rounds [OF this] show ?thesis
    by (simp add: build_snapshot_def statuses_def source_hosts_def Let_def)
qed

lemma statuses_get:
  "mget (fold (\<lambda>h. mput (hs_name h) (the (status_for f (hs_name h)))) hs []) n =
     (if n \<in> hs_name ` set hs then Some (the (status_for f n)) else None)"
proof -
  have "find (\<lambda>x. hs_name x = n) (rev hs) = None \<longleftrightarrow> n \<notin> hs_name ` set hs"
    by (auto simp: find_None_iff)
  then show ?thesis
    by (auto simp: gm.get_fold_put split: option.splits dest: find_SomeD)
qed

definition run_reported_ok :: "facts_payload \<Rightarrow> bool" where
  "run_reported_ok p \<longleftrightarrow> fp_available p \<and> fp_completed p \<and> fp_critical_failures p = 0"

lemma status_at_known:
  assumes "distinct (map hs_name (bd_ssh_hosts cfg))" "h \<in> set (bd_ssh_hosts cfg)"
  shows "the (status_for (fetch_all ssh decode cfg) (hs_name h)) =
    (case fetch_of ssh decode cfg h of Inl e \<Rightarrow> unknown_status e
     | Inr p \<Rightarrow> the (host_status_of (Some p) []))"
  using fetch_all_known [OF assms, of ssh decode] fetch_facts_error [of "ssh h" decode cfg "hs_address h"]
  by (auto simp: status_for_def error_at_def host_status_of_def fetch_of_def split: sum.splits)

text \<open>
  Claim C19. The page never shows a backup as good without a report that says so.  Building a
  snapshot never fails on a nil payload, it lists every entry of the catalog once and in order,
  and an entry has the badge \<open>ok\<close> exactly when its host is configured, its facts were fetched
  and decoded, the last run there is available, completed and without critical failures, and no
  item of the failure list names the entry.  An unreachable host, whatever it reported before,
  makes every entry of it \<open>unknown\<close>.
\<close>

theorem badge_ok_exact:
  assumes "distinct (map hs_name (bd_ssh_hosts cfg))"
  shows "\<exists>sn. build_snapshot cfg cat (fetch_all ssh decode cfg) reply now = Some sn \<and>
    map be_entry (sn_entries sn) = bc_entries cat \<and>
    (\<forall>be \<in> set (sn_entries sn).
       (be_badge be = ''ok'' \<longleftrightarrow>
          (\<exists>h \<in> set (bd_ssh_hosts cfg). \<exists>p. hs_name h = ce_host (be_entry be) \<and>
             fetch_facts (ssh h) decode cfg (hs_address h) = Inr p \<and> fp_available p \<and> fp_completed p \<and>
             fp_critical_failures p = 0 \<and> \<not> list_ex (names_entry (be_entry be)) (fp_failed_services p))) \<and>
       (\<forall>h \<in> set (bd_ssh_hosts cfg). hs_name h = ce_host (be_entry be) \<longrightarrow>
          (\<exists>e. fetch_facts (ssh h) decode cfg (hs_address h) = Inl e) \<longrightarrow> be_badge be = ''unknown''))"
proof -
  let ?f = "fetch_all ssh decode cfg"
  let ?sts = "fold (\<lambda>h. mput (hs_name h) (the (status_for ?f (hs_name h)))) (source_hosts cfg cat) []"
  have badge: "(entry_badge e ?sts = ''ok'' \<longleftrightarrow>
      (\<exists>h \<in> set (bd_ssh_hosts cfg). \<exists>p. hs_name h = ce_host e \<and> fetch_of ssh decode cfg h = Inr p \<and>
         run_reported_ok p \<and> \<not> list_ex (names_entry e) (fp_failed_services p))) \<and>
      (\<forall>h \<in> set (bd_ssh_hosts cfg). hs_name h = ce_host e \<longrightarrow>
          (\<exists>x. fetch_of ssh decode cfg h = Inl x) \<longrightarrow> entry_badge e ?sts = ''unknown'')"
    if e: "e \<in> set (bc_entries cat)" for e
  proof (cases "\<exists>h \<in> set (bd_ssh_hosts cfg). hs_name h = ce_host e")
    case True
    then obtain h where h: "h \<in> set (bd_ssh_hosts cfg)" "hs_name h = ce_host e" by blast
    with e have "h \<in> set (source_hosts cfg cat)" by (simp add: source_hosts_def)
    with h(2) have "ce_host e \<in> hs_name ` set (source_hosts cfg cat)" by force
    then have "status_at ?sts (ce_host e) = the (status_for ?f (hs_name h))"
      by (simp add: status_at_def statuses_get h(2))
    with status_at_known [OF assms h(1), of ssh decode]
    have st: "status_at ?sts (ce_host e) = (case fetch_of ssh decode cfg h of Inl x \<Rightarrow> unknown_status x
       | Inr p \<Rightarrow> the (host_status_of (Some p) []))" by simp
    have only: "h' = h" if "h' \<in> set (bd_ssh_hosts cfg)" "hs_name h' = ce_host e" for h'
      using distinct_map_eqD [OF assms that(1) h(1)] that(2) h(2) by simp
    have ex: "(\<exists>h' \<in> set (bd_ssh_hosts cfg). \<exists>p. hs_name h' = ce_host e \<and> fetch_of ssh decode cfg h' = Inr p \<and> Q p) \<longleftrightarrow>
        (\<exists>p. fetch_of ssh decode cfg h = Inr p \<and> Q p)" for Q
      using h only by blast
    have all: "(\<forall>h' \<in> set (bd_ssh_hosts cfg). hs_name h' = ce_host e \<longrightarrow>
        (\<exists>x. fetch_of ssh decode cfg h' = Inl x) \<longrightarrow> A) \<longleftrightarrow> ((\<exists>x. fetch_of ssh decode cfg h = Inl x) \<longrightarrow> A)" for A
      using h only by blast
    show ?thesis
    proof (cases "fetch_of ssh decode cfg h")
      case (Inl x)
      with st show ?thesis
        unfolding ex all by (simp add: entry_badge_def unknown_status_def zero_status_def Let_def)
    next
      case (Inr p)
      with st show ?thesis
        unfolding ex all
        by (simp add: entry_badge_def unknown_status_def zero_status_def host_status_of_def
            run_reported_ok_def run_state_def Let_def)
    qed
  next
    case False
    then have "status_at ?sts (ce_host e) = zero_status"
      by (auto simp: status_at_def statuses_get source_hosts_def)
    with False show ?thesis by (auto simp: entry_badge_def zero_status_def)
  qed
  show ?thesis
    by (simp only: build_snapshot_eq option.inject)
      (use badge in \<open>auto simp: with_badge_def Let_def comp_def fetch_of_def run_reported_ok_def\<close>)
qed

text \<open>Two hosts: one reports a failed service, the other cannot be reached.\<close>

definition sample_bd_config :: bd_config where
  "sample_bd_config = default_bd_config\<lparr>bd_ssh_hosts :=
     [\<lparr>hs_name = ''mljr'', hs_address = ''a''\<rparr>, \<lparr>hs_name = ''nas'', hs_address = ''b''\<rparr>]\<rparr>"

definition sample_payload :: facts_payload where
  "sample_payload =
     \<lparr>fp_available = True, fp_reason = [], fp_completed = True, fp_critical_failures = 0,
      fp_failed_services = [''paperless''], fp_age_seconds = Some (f_num 3600),
      fp_stats = [(''immich'', \<lparr>es_bytes = 2048, es_files = 7\<rparr>)], fp_targets = [],
      fp_verify_available = False, fp_verify_updated_at = [], fp_verify_last_mode = [], fp_verify_state = [],
      fp_checks = [], fp_history_available = False, fp_history_state = [], fp_history_reason = [],
      fp_snapshot_count = 0, fp_latest_snapshot = None, fp_free_percent = None, fp_floor_percent = 0\<rparr>"

definition sample_entry :: "string \<Rightarrow> string \<Rightarrow> catalog_entry" where
  "sample_entry name host =
     \<lparr>ce_name = name, ce_type = ''service'', ce_host = host, ce_source = VStr ''/srv'', ce_dest = ''pcloud:x'',
      ce_destinations = [''pcloud''], ce_schedule = ''03:00:00''\<rparr>"

definition sample_bd_catalog :: bd_catalog where
  "sample_bd_catalog = \<lparr>bc_generated_at = ''2026-01-01T00:00:00Z'',
     bc_entries = [sample_entry ''immich'' ''mljr'', sample_entry ''paperless'' ''mljr'', sample_entry ''photos'' ''nas'']\<rparr>"

definition sample_ssh :: "bd_host \<Rightarrow> string list \<Rightarrow> ssh_result" where
  "sample_ssh h args = (if hs_name h = ''nas'' then SshError ''exit status 255'' [] else SshOutput ''{}'')"

definition sample_decode :: decoder where
  "sample_decode text = Inr sample_payload"

theorem badge_ok_exact_witness:
  "\<exists>sn. build_snapshot sample_bd_config sample_bd_catalog (fetch_all sample_ssh sample_decode sample_bd_config) NoReply
        \<lparr>t_ns = 0, t_zone = utc\<rparr> = Some sn \<and>
     (\<forall>be \<in> set (sn_entries sn). be_badge be = ''ok'' \<longleftrightarrow> be_entry be = sample_entry ''immich'' ''mljr'') \<and>
     (\<forall>be \<in> set (sn_entries sn). ce_host (be_entry be) = ''nas'' \<longrightarrow> be_badge be = ''unknown'')"
proof -
  have d: "distinct (map hs_name (bd_ssh_hosts sample_bd_config))"
    by (simp add: sample_bd_config_def default_bd_config_def)
  obtain sn where sn: "build_snapshot sample_bd_config sample_bd_catalog
        (fetch_all sample_ssh sample_decode sample_bd_config) NoReply \<lparr>t_ns = 0, t_zone = utc\<rparr> = Some sn"
      "map be_entry (sn_entries sn) = bc_entries sample_bd_catalog"
    and b: "\<forall>be \<in> set (sn_entries sn).
       (be_badge be = ''ok'' \<longleftrightarrow>
          (\<exists>h \<in> set (bd_ssh_hosts sample_bd_config). \<exists>p. hs_name h = ce_host (be_entry be) \<and>
             fetch_facts (sample_ssh h) sample_decode sample_bd_config (hs_address h) = Inr p \<and> fp_available p \<and>
             fp_completed p \<and> fp_critical_failures p = 0 \<and>
             \<not> list_ex (names_entry (be_entry be)) (fp_failed_services p))) \<and>
       (\<forall>h \<in> set (bd_ssh_hosts sample_bd_config). hs_name h = ce_host (be_entry be) \<longrightarrow>
          (\<exists>e. fetch_facts (sample_ssh h) sample_decode sample_bd_config (hs_address h) = Inl e) \<longrightarrow>
          be_badge be = ''unknown'')"
    using badge_ok_exact [OF d, of sample_bd_catalog sample_ssh sample_decode NoReply "\<lparr>t_ns = 0, t_zone = utc\<rparr>"]
    by blast
  have e: "be_entry be \<in> set (bc_entries sample_bd_catalog)" if "be \<in> set (sn_entries sn)" for be
    using that sn(2) by (metis image_eqI set_map)
  note [simp] = sample_bd_config_def default_bd_config_def sample_ssh_def sample_decode_def fetch_facts_def
    sample_payload_def
  have "be_badge be = ''ok'' \<longleftrightarrow> be_entry be = sample_entry ''immich'' ''mljr''" if "be \<in> set (sn_entries sn)" for be
  proof -
    from b [THEN bspec, OF that, THEN conjunct1] have ok: "be_badge be = ''ok'' \<longleftrightarrow>
        ce_host (be_entry be) = ''mljr'' \<and> \<not> names_entry (be_entry be) ''paperless''"
      by auto
    from e [OF that] consider "be_entry be = sample_entry ''immich'' ''mljr''"
      | "be_entry be = sample_entry ''paperless'' ''mljr''" | "be_entry be = sample_entry ''photos'' ''nas''"
      by (auto simp: sample_bd_catalog_def)
    then show ?thesis
      by cases (simp_all only: ok, simp_all add: sample_entry_def names_entry_def has_prefix_def)
  qed
  moreover have "be_badge be = ''unknown''" if "be \<in> set (sn_entries sn)" "ce_host (be_entry be) = ''nas''" for be
    using b [THEN bspec, OF that(1)] that(2) by simp
  ultimately show ?thesis using sn(1) by blast
qed

end
