(* ===== verification/BD_Page.thy ===== *)
theory BD_Page
  imports BD_Collect Go_Duration
begin

text \<open>
  The page of the backup dashboard and its program: the next run of a schedule (\<^verbatim>\<open>schedule.go\<close>), the
  data of the page and the flow graph (\<^verbatim>\<open>render.go\<close>), and \<^verbatim>\<open>cmd/backup-dashboard-collect/main.go\<close>.
  The HTML template is a parameter of the program; the time zone database is the argument \<open>tz\<close>, with
  \<^const>\<open>None\<close> where the zone cannot be loaded.
\<close>

section \<open>The next run\<close>

text \<open>
  \<^verbatim>\<open>fmt.Sscanf\<close> with \<^verbatim>\<open>%d:%d:%d\<close>: a number may follow blanks (a line break is an error) and a
  sign, and must fit \<^verbatim>\<open>int64\<close>; what follows the last number is not read.
\<close>

definition skip_blanks :: "string \<Rightarrow> string option" where
  "skip_blanks s =
     (let r = strip_spaces unicode_spaces (length s) s
      in if CHR 0x0A \<in> set (take (length s - length r) s) then None else Some r)"

definition scan_int :: "string \<Rightarrow> (int \<times> string) option" where
  "scan_int s = do {
     r \<leftarrow> skip_blanks s;
     let (neg, u) = strip_sign r;
     let ds = takeWhile is_digit u;
     let v = (if neg then - digits_val ds else digits_val ds);
     if ds \<noteq> [] \<and> - (2 ^ 63) \<le> v \<and> v < 2 ^ 63 then Some (v, dropWhile is_digit u) else None }"

definition scan_schedule :: "string \<Rightarrow> (int \<times> int \<times> int) option" where
  "scan_schedule s = do {
     (h, r) \<leftarrow> scan_int s; r \<leftarrow> lit CHR '':'' r;
     (m, r) \<leftarrow> scan_int r; r \<leftarrow> lit CHR '':'' r;
     (sec, _) \<leftarrow> scan_int r;
     if h < 0 \<or> 23 < h \<or> m < 0 \<or> 59 < m \<or> sec < 0 \<or> 59 < sec then None else Some (h, m, sec) }"

text \<open>
  \<^verbatim>\<open>time.Date\<close> for a wall clock in a location, and the moment of the next run after \<open>now\<close>, which
  carries the location.
\<close>

definition date_unix :: "zone \<Rightarrow> int \<Rightarrow> int" where
  "date_unix z w = (let o1 = z w in if o1 = 0 then w else w - z (w - o1))"

definition today_at :: "gtime \<Rightarrow> int \<times> int \<times> int \<Rightarrow> gtime" where
  "today_at local = (\<lambda>(h, m, s).
     local\<lparr>t_ns := date_unix (t_zone local) (local_sec local div 86400 * 86400 + h * 3600 + m * 60 + s) * 10 ^ 9\<rparr>)"

definition next_at :: "gtime \<Rightarrow> int \<times> int \<times> int \<Rightarrow> gtime" where
  "next_at local hms =
     (let next = today_at local hms in if \<not> t_before local next then add_days 1 next else next)"

definition run_label :: "int \<Rightarrow> int \<Rightarrow> int \<Rightarrow> string" where
  "run_label h m until =
     pad2 h @ '':'' @ pad2 m @ '' (in '' @ int_str (f_to_int64 (hours until)) @ ''h '' @
     int_str (go_mod (f_to_int64 (minutes until)) 60) @ ''m)''"

definition next_run :: "zone option \<Rightarrow> string \<Rightarrow> gtime \<Rightarrow> string option" where
  "next_run tz schedule now =
     (if schedule = [] then None else
      let local = now\<lparr>t_zone := (case tz of None \<Rightarrow> utc | Some z \<Rightarrow> z)\<rparr> in
      case scan_schedule schedule of None \<Rightarrow> None
      | Some (h, m, s) \<Rightarrow> Some (run_label h m (t_sub (next_at local (h, m, s)) local)))"

section \<open>Labels\<close>

text \<open>The loop of \<^verbatim>\<open>formatBytes\<close> stops at the last unit.\<close>

definition kib :: f64 where "kib = f_num 1024"

function byte_scale :: "f64 \<Rightarrow> f64 \<Rightarrow> nat \<Rightarrow> f64 \<times> nat" where
  "byte_scale f dv ex = (if f_ge (f_div f dv) kib \<and> ex < 4 then byte_scale f (f_mul dv kib) (Suc ex) else (dv, ex))"
  by pat_completeness auto
termination
  by (relation "measure (\<lambda>(_, _, ex). 4 - ex)") auto

declare byte_scale.simps [simp del]

definition byte_units :: "string list" where
  "byte_units = [''KiB'', ''MiB'', ''GiB'', ''TiB'', ''PiB'']"

definition format_bytes :: "int \<Rightarrow> string" where
  "format_bytes n =
     (let f = f_of_int n in
      if f_lt f kib then int_str n @ '' B'' else
      let (dv, ex) = byte_scale f kib 0 in fmt_fixed 1 (f_div f dv) @ '' '' @ byte_units ! ex)"

definition format_timestamp :: "string \<Rightarrow> string" where
  \<comment> \<open>the location of the parsed time does not matter, as it is shown in UTC\<close>
  "format_timestamp stamp =
     (if stamp = [] then [] else
      case parse_rfc3339 utc stamp of None \<Rightarrow> stamp
      | Some t \<Rightarrow>
          let s = unix_sec t mod 86400
          in fmt_date (t\<lparr>t_zone := utc\<rparr>) @ '' '' @ pad2 (s div 3600) @ '':'' @ pad2 (s mod 3600 div 60) @ '' UTC'')"

definition format_age :: "f64 option \<Rightarrow> string option" where
  "format_age seconds =
     (case seconds of None \<Rightarrow> None
      | Some x \<Rightarrow>
          let d = f_to_int64 (f_mul x (f_num 1000000000)); hs = hours d
          in if f_lt hs (f_num 1) then Some (int_str (f_to_int64 (minutes d)) @ ''m ago'')
             else if f_lt hs (f_num 48) then Some (fmt_fixed 1 hs @ ''h ago'')
             else Some (fmt_fixed 1 (f_div hs (f_num 24)) @ ''d ago''))"

definition title_case :: "string \<Rightarrow> string" where
  "title_case s = (if s = [] then s else upper_first s)"

definition gauge_class :: "f64 \<Rightarrow> string" where
  "gauge_class percent =
     (if f_gt percent (f_num 90) then ''fill-crit''
      else if f_gt percent (f_num 80) then ''fill-warn'' else ''fill-ok'')"

section \<open>The flow graph\<close>

record graph_node =
  gn_id :: string
  gn_label :: string
  gn_kind :: string
  gn_state :: string
  gn_sub :: string

type_synonym graph_link = "string \<times> string" \<comment> \<open>the ids of the source and of the target\<close>

record flow_graph =
  fg_nodes :: "graph_node list"
  fg_links :: "graph_link list"

record graph_state = flow_graph +
  fg_seen_host :: "string set"
  fg_seen_dest :: "string set"

definition host_id :: "string \<Rightarrow> string" where "host_id h = ''host:'' @ h"
definition dest_id :: "string \<Rightarrow> string" where "dest_id d = ''dest:'' @ d"
definition entry_id :: "catalog_entry \<Rightarrow> string" where "entry_id e = ''entry:'' @ ce_host e @ '':'' @ ce_name e"

definition host_node :: "zone option \<Rightarrow> gtime \<Rightarrow> catalog_entry \<Rightarrow> graph_node" where
  "host_node tz now e =
     \<lparr>gn_id = host_id (ce_host e), gn_label = ce_host e, gn_kind = ''host'', gn_state = [],
      gn_sub = (case next_run tz (ce_schedule e) now of Some l \<Rightarrow> ''Next run: '' @ l | None \<Rightarrow> [])\<rparr>"

definition entry_node :: "badged_entry \<Rightarrow> graph_node" where
  "entry_node be =
     \<lparr>gn_id = entry_id (be_entry be), gn_label = ce_name (be_entry be), gn_kind = ''entry'', gn_state = be_badge be,
      gn_sub = (if be_has_stats be
                then format_bytes (be_size_bytes be) @ '', '' @ int_str (be_file_count be) @ '' files'' else [])\<rparr>"

definition dest_node :: "string \<Rightarrow> graph_node" where
  "dest_node d = \<lparr>gn_id = dest_id d, gn_label = d, gn_kind = ''dest'', gn_state = [], gn_sub = []\<rparr>"

definition add_dest :: "string \<Rightarrow> string \<Rightarrow> graph_state \<Rightarrow> graph_state" where
  "add_dest eid d g =
     (let g1 = (if d \<in> fg_seen_dest g then g
                else g\<lparr>fg_nodes := fg_nodes g @ [dest_node d], fg_seen_dest := insert d (fg_seen_dest g)\<rparr>)
      in g1\<lparr>fg_links := fg_links g1 @ [(eid, dest_id d)]\<rparr>)"

definition add_entry :: "zone option \<Rightarrow> (string \<Rightarrow> gtime) \<Rightarrow> badged_entry \<Rightarrow> graph_state \<Rightarrow> graph_state" where
  \<comment> \<open>the clock is read when the node of a host is made\<close>
  "add_entry tz clock be g =
     (let e = be_entry be; h = ce_host e;
          g1 = (if h \<in> fg_seen_host g then g
                else g\<lparr>fg_nodes := fg_nodes g @ [host_node tz (clock h) e], fg_seen_host := insert h (fg_seen_host g)\<rparr>);
          g2 = g1\<lparr>fg_nodes := fg_nodes g1 @ [entry_node be], fg_links := fg_links g1 @ [(host_id h, entry_id e)]\<rparr>
      in fold (add_dest (entry_id e)) (ce_destinations e) g2)"

definition graph_of :: "zone option \<Rightarrow> (string \<Rightarrow> gtime) \<Rightarrow> badged_entry list \<Rightarrow> graph_state" where
  "graph_of tz clock bes =
     fold (add_entry tz clock) bes \<lparr>fg_nodes = [], fg_links = [], fg_seen_host = {}, fg_seen_dest = {}\<rparr>"

definition build_flow_graph :: "zone option \<Rightarrow> (string \<Rightarrow> gtime) \<Rightarrow> snapshot \<Rightarrow> flow_graph" where
  "build_flow_graph tz clock sn = flow_graph.truncate (graph_of tz clock (sn_entries sn))"

section \<open>The data of the page\<close>

record host_card =
  hc_name :: string
  hc_state :: string
  hc_reason :: string
  hc_age :: "string option"
  hc_verification :: string

record dest_card =
  dc_name :: string
  dc_used_label :: string
  dc_free_label :: string
  dc_used_percent :: f64
  dc_gauge_class :: string

record history_card =
  yc_name :: string
  yc_state :: string
  yc_details :: string

record entry_row =
  er_name :: string
  er_type_label :: string
  er_is_folder :: bool
  er_host :: string
  er_source :: string
  er_destinations :: "string list"
  er_state :: string
  er_has_stats :: bool
  er_size_label :: string
  er_file_count :: int

definition verification_label :: "host_status \<Rightarrow> string" where
  "verification_label s =
     (if st_verification_at s \<noteq> []
      then ''verification: '' @ st_verification_state s @ '' ('' @ st_verification_mode s @ '', '' @
           format_timestamp (st_verification_at s) @ '')''
      else ''verification: not run'') @
     (if st_restore_at s \<noteq> []
      then ''; restore: '' @ st_restore_state s @ '' ('' @ format_timestamp (st_restore_at s) @ '')'' else [])"

definition host_card_of :: "(string, host_status) gmap \<Rightarrow> string \<Rightarrow> host_card" where
  "host_card_of hosts name =
     (let s = status_at hosts name
      in \<lparr>hc_name = name, hc_state = st_state s, hc_reason = st_reason s, hc_age = format_age (st_age_seconds s),
          hc_verification = verification_label s\<rparr>)"

definition dest_card_of :: "(string, dest_usage) gmap \<Rightarrow> string \<Rightarrow> dest_card" where
  "dest_card_of destinations name =
     (let u = (case mget destinations name of Some u \<Rightarrow> u | None \<Rightarrow> \<lparr>du_used_percent = f_zero, du_free_gib = f_zero\<rparr>)
      in \<lparr>dc_name = name, dc_used_label = fmt_fixed 1 (du_used_percent u) @ ''%'',
          dc_free_label = fmt_fixed 1 (du_free_gib u) @ '' GiB free'', dc_used_percent = du_used_percent u,
          dc_gauge_class = gauge_class (du_used_percent u)\<rparr>)"

definition dot_sep :: string where
  "dot_sep = '' '' @ mid_dot @ '' ''"

definition history_card_of :: "history_status \<Rightarrow> history_card" where
  "history_card_of y =
     \<lparr>yc_name = hy_name y, yc_state = hy_state y,
      yc_details = int_str (hy_snapshot_count y) @ '' snapshots'' @
        (case hy_free_percent y of None \<Rightarrow> []
         | Some p \<Rightarrow> dot_sep @ fmt_fixed 1 p @ ''% free (floor '' @ int_str (hy_floor_percent y) @ ''%)'') @
        (case hy_latest_snapshot y of None \<Rightarrow> [] | Some l \<Rightarrow> dot_sep @ ''latest '' @ l) @
        (if hy_reason y \<noteq> [] then dot_sep @ hy_reason y else [])\<rparr>"

definition entry_row_of :: "badged_entry \<Rightarrow> entry_row" where
  "entry_row_of be =
     (let e = be_entry be
      in \<lparr>er_name = ce_name e, er_type_label = title_case (ce_type e), er_is_folder = (ce_type e = ''folder''),
          er_host = ce_host e, er_source = source_display e, er_destinations = ce_destinations e,
          er_state = be_badge be, er_has_stats = be_has_stats be,
          er_size_label = (if be_has_stats be then format_bytes (be_size_bytes be) else []),
          er_file_count = be_file_count be\<rparr>)"

record page_data =
  pd_generated_at :: string
  pd_catalog_generated_at :: string
  pd_hosts :: "host_card list"
  pd_destinations :: "dest_card list"
  pd_history :: "history_card list"
  pd_entries :: "entry_row list"
  pd_has_flow_graph :: bool
  pd_flow_graph :: flow_graph \<comment> \<open>the page holds its JSON\<close>
  pd_errors :: "(string \<times> string) list"
  pd_summary_ok :: nat
  pd_summary_degraded :: nat
  pd_summary_unknown :: nat
  pd_summary_total :: nat

definition count_state :: "(string \<Rightarrow> bool) \<Rightarrow> host_card list \<Rightarrow> nat" where
  "count_state P cards = length (filter (\<lambda>c. P (hc_state c)) cards)"

definition build_page_data :: "zone option \<Rightarrow> (string \<Rightarrow> gtime) \<Rightarrow> snapshot \<Rightarrow> page_data" where
  "build_page_data tz clock sn =
     (let cards = map (host_card_of (sn_hosts sn)) (sn_host_order sn);
          graph = build_flow_graph tz clock sn
      in \<lparr>pd_generated_at = format_timestamp (sn_generated_at sn),
          pd_catalog_generated_at = format_timestamp (sn_catalog_generated_at sn),
          pd_hosts = cards,
          pd_destinations = map (dest_card_of (sn_destinations sn)) (sn_destination_order sn),
          pd_history = map history_card_of (sn_history sn),
          pd_entries = map entry_row_of (sn_entries sn),
          pd_has_flow_graph = (fg_nodes graph \<noteq> []), pd_flow_graph = graph,
          pd_errors = map (\<lambda>h. (h, error_at (sn_errors sn) h)) (sorted_keys (sn_errors sn)),
          pd_summary_ok = count_state (\<lambda>s. s = ''ok'') cards,
          pd_summary_degraded = count_state (\<lambda>s. s = ''degraded'') cards,
          pd_summary_unknown = count_state (\<lambda>s. s \<noteq> ''ok'' \<and> s \<noteq> ''degraded'') cards,
          pd_summary_total = length cards\<rparr>)"

section \<open>The program\<close>

text \<open>
  \<^verbatim>\<open>json.MarshalIndent\<close> rejects a number that is no JSON number: \<^verbatim>\<open>NaN\<close> and the infinities.
\<close>

fun finite_f64 :: "f64 \<Rightarrow> bool" where
  "finite_f64 (Fin s m) = True"
| "finite_f64 _ = False"

fun finite_any :: "any \<Rightarrow> bool" where
  "finite_any (VF64 x) = finite_f64 x"
| "finite_any (VF32 x) = finite_f64 x"
| "finite_any (VList xs) = list_all finite_any xs"
| "finite_any (VMap m) = list_all (\<lambda>(k, v). finite_any v) m"
| "finite_any _ = True"

definition finite_opt :: "f64 option \<Rightarrow> bool" where
  "finite_opt x = (case x of None \<Rightarrow> True | Some v \<Rightarrow> finite_f64 v)"

definition marshals :: "snapshot \<Rightarrow> bool" where
  "marshals sn \<longleftrightarrow>
     list_all (\<lambda>(n, s). finite_opt (st_age_seconds s)) (sn_hosts sn) \<and>
     list_all (\<lambda>(n, u). finite_f64 (du_used_percent u) \<and> finite_f64 (du_free_gib u)) (sn_destinations sn) \<and>
     list_all (\<lambda>y. finite_opt (hy_free_percent y)) (sn_history sn) \<and>
     list_all (\<lambda>(i, mounts). list_all (\<lambda>(m, v). finite_f64 v) mounts) (sn_source_disk sn) \<and>
     list_all (\<lambda>be. finite_any (ce_source (be_entry be))) (sn_entries sn)"

datatype bd_op = MkStateDir | WriteSnapshot | MkOutputDir | WritePage

text \<open>
  What the program is given.  A write that fails may leave a part of the new text, so its effect on
  the old content is a parameter.
\<close>

record bd_world =
  bw_env :: "string \<Rightarrow> string"
  bw_catalog :: "string \<Rightarrow> string + bd_catalog" \<comment> \<open>reading and decoding the file of a path\<close>
  bw_ssh :: "bd_host \<Rightarrow> string list \<Rightarrow> ssh_result"
  bw_decode :: decoder
  bw_query_encode :: "string \<Rightarrow> string"
  bw_victoria :: "string \<Rightarrow> victoria_reply"
  bw_now :: gtime
  bw_clock :: "string \<Rightarrow> gtime"
  bw_tz :: "zone option"
  bw_json :: "snapshot \<Rightarrow> string"
  bw_render :: "page_data \<Rightarrow> string option"
  bw_ok :: "bd_op \<Rightarrow> bool"
  bw_torn :: "bd_op \<Rightarrow> string option \<Rightarrow> string option"

record bd_files =
  bf_snapshot :: "string option"
  bf_page :: "string option"

definition fs_exclude :: string where
  "fs_exclude = ''fstype!~\"tmpfs|overlay|squashfs|ramfs|devtmpfs|fuse.*|iso9660|autofs\"''"

definition disk_query :: string where
  "disk_query = ''100 - (node_filesystem_avail_bytes{'' @ fs_exclude @ ''} / node_filesystem_size_bytes{'' @
     fs_exclude @ ''} * 100)''"

definition world_disk_reply :: "bd_world \<Rightarrow> bd_config \<Rightarrow> victoria_reply" where
  "world_disk_reply w cfg = bw_victoria w (query_url (bd_victoria_url cfg) (bw_query_encode w disk_query))"

definition world_snapshot :: "bd_world \<Rightarrow> bd_config \<Rightarrow> string + snapshot option" where
  \<comment> \<open>an error of the catalog; else the snapshot or a panic\<close>
  "world_snapshot w cfg =
     (case bw_catalog w (bd_catalog_path cfg) of
        Inl err \<Rightarrow> Inl (''load catalog: '' @ err)
      | Inr cat \<Rightarrow>
          Inr (build_snapshot cfg cat (fetch_all (bw_ssh w) (bw_decode w) cfg) (world_disk_reply w cfg) (bw_now w)))"

definition done_line :: "snapshot \<Rightarrow> string" where
  "done_line sn =
     ''backup-dashboard: done: '' @ int_str (int (length (sn_entries sn))) @ '' entries, '' @
     int_str (int (length (filter (\<lambda>(n, s). st_state s \<noteq> ''unknown'') (sn_hosts sn)))) @ ''/'' @
     int_str (int (length (sn_hosts sn))) @ '' hosts reachable'' @ newline"

definition write_outputs :: "bd_world \<Rightarrow> snapshot \<Rightarrow> bd_files \<Rightarrow> nat \<times> string \<times> bd_files" where
  \<comment> \<open>the exit code, what is printed, and the files\<close>
  "write_outputs w sn fs =
     (if \<not> bw_ok w MkStateDir then (1, [], fs) else
      if \<not> marshals sn then (1, [], fs) else
      if \<not> bw_ok w WriteSnapshot
      then (1, [], fs\<lparr>bf_snapshot := bw_torn w WriteSnapshot (bf_snapshot fs)\<rparr>) else
      let fs1 = fs\<lparr>bf_snapshot := Some (bw_json w sn)\<rparr> in
      case bw_render w (build_page_data (bw_tz w) (bw_clock w) sn) of None \<Rightarrow> (1, [], fs1)
      | Some html \<Rightarrow>
          if \<not> bw_ok w MkOutputDir then (1, [], fs1) else
          if \<not> bw_ok w WritePage then (1, [], fs1\<lparr>bf_page := bw_torn w WritePage (bf_page fs1)\<rparr>) else
          (0, done_line sn, fs1\<lparr>bf_page := Some html\<rparr>))"

definition collect_main :: "bd_world \<Rightarrow> bd_files \<Rightarrow> nat \<times> string \<times> bd_files" where
  "collect_main w fs =
     (case world_snapshot w (bd_config_from_env (bw_env w)) of
        Inl err \<Rightarrow> (1, [], fs)
      | Inr None \<Rightarrow> (2, [], fs)
      | Inr (Some sn) \<Rightarrow> write_outputs w sn fs)"

section \<open>The flow graph is well formed\<close>

text \<open>The elements of a list in the order of their first occurrences.\<close>

definition firsts :: "'a list \<Rightarrow> 'a list" where
  "firsts xs = rev (remdups (rev xs))"

lemma firsts_simps [simp]:
  "firsts [] = []" "firsts (xs @ [x]) = firsts xs @ (if x \<in> set xs then [] else [x])"
  "set (firsts xs) = set xs" "distinct (firsts xs)"
  by (simp_all add: firsts_def)

lemma firsts_single [simp]: "firsts [x] = [x]"
  by (simp add: firsts_def)

lemma firsts_append_distinct: "firsts (xs @ ys) = firsts xs @ filter (\<lambda>y. y \<notin> set xs) (firsts ys)"
proof (induction ys rule: rev_induct)
  case (snoc y ys)
  have "firsts (xs @ ys @ [y]) = firsts ((xs @ ys) @ [y])" by simp
  with snoc show ?case by (simp only: firsts_simps) auto
qed simp

definition of_kind :: "string \<Rightarrow> flow_graph \<Rightarrow> graph_node list" where
  "of_kind k g = filter (\<lambda>n. gn_kind n = k) (fg_nodes g)"

definition links_of :: "badged_entry \<Rightarrow> graph_link list" where
  "links_of be =
     (let e = be_entry be
      in (host_id (ce_host e), entry_id e) # map (\<lambda>d. (entry_id e, dest_id d)) (ce_destinations e))"

definition dests_of :: "badged_entry list \<Rightarrow> string list" where
  "dests_of bes = concat (map (\<lambda>be. ce_destinations (be_entry be)) bes)"

lemma node_kinds [simp]:
  "gn_kind (host_node tz now e) = ''host''" "gn_kind (entry_node be) = ''entry''" "gn_kind (dest_node d) = ''dest''"
  "gn_id (host_node tz now e) = host_id (ce_host e)" "gn_id (entry_node be) = entry_id (be_entry be)"
  "gn_id (dest_node d) = dest_id d" "gn_label (host_node tz now e) = ce_host e" "gn_label (dest_node d) = d"
  "gn_state (entry_node be) = be_badge be"
  by (simp_all add: host_node_def entry_node_def dest_node_def)

lemma fold_add_dest:
  assumes "fg_seen_dest g = set ds0"
  shows "fold (add_dest eid) ds g =
    g\<lparr>fg_nodes := fg_nodes g @ map dest_node (filter (\<lambda>d. d \<notin> set ds0) (firsts ds)),
      fg_links := fg_links g @ map (\<lambda>d. (eid, dest_id d)) ds, fg_seen_dest := set (ds0 @ ds)\<rparr>"
proof (induction ds rule: rev_induct)
  case Nil
  with assms show ?case by (cases g) simp
next
  case (snoc d ds)
  then show ?case by (cases g) (auto simp: add_dest_def Let_def)
qed

lemma graph_of_snoc: "graph_of tz clock (bes @ [be]) = add_entry tz clock be (graph_of tz clock bes)"
  by (simp add: graph_of_def)

definition graph_inv :: "badged_entry list \<Rightarrow> graph_state \<Rightarrow> bool" where
  "graph_inv bes g \<longleftrightarrow>
     fg_seen_host g = set (map (\<lambda>be. ce_host (be_entry be)) bes) \<and> fg_seen_dest g = set (dests_of bes) \<and>
     fg_links g = concat (map links_of bes) \<and>
     filter (\<lambda>n. gn_kind n = ''entry'') (fg_nodes g) = map entry_node bes \<and>
     filter (\<lambda>n. gn_kind n = ''dest'') (fg_nodes g) = map dest_node (firsts (dests_of bes)) \<and>
     map (\<lambda>n. (gn_id n, gn_label n)) (filter (\<lambda>n. gn_kind n = ''host'') (fg_nodes g)) =
       map (\<lambda>h. (host_id h, h)) (firsts (map (\<lambda>be. ce_host (be_entry be)) bes)) \<and>
     list_all (\<lambda>n. gn_kind n \<in> {''host'', ''entry'', ''dest''}) (fg_nodes g)"

lemma graph_inv: "graph_inv bes (graph_of tz clock bes)"
proof (induction bes rule: rev_induct)
  case Nil
  show ?case by (simp add: graph_inv_def graph_of_def dests_of_def)
next
  case (snoc be bes)
  let ?g = "graph_of tz clock bes" and ?e = "be_entry be"
  let ?g1 = "(if ce_host ?e \<in> fg_seen_host ?g then ?g
      else ?g\<lparr>fg_nodes := fg_nodes ?g @ [host_node tz (clock (ce_host ?e)) ?e],
              fg_seen_host := insert (ce_host ?e) (fg_seen_host ?g)\<rparr>)"
  let ?g2 = "?g1\<lparr>fg_nodes := fg_nodes ?g1 @ [entry_node be],
              fg_links := fg_links ?g1 @ [(host_id (ce_host ?e), entry_id ?e)]\<rparr>"
  have "fg_seen_dest ?g2 = set (dests_of bes)" using snoc by (auto simp: graph_inv_def)
  note fold = fold_add_dest [OF this, of "entry_id ?e" "ce_destinations ?e"]
  have g: "graph_of tz clock (bes @ [be]) = fold (add_dest (entry_id ?e)) (ce_destinations ?e) ?g2"
    by (simp add: graph_of_snoc add_entry_def Let_def)
  have d: "dests_of (bes @ [be]) = dests_of bes @ ce_destinations ?e" by (simp add: dests_of_def)
  show ?case
    using snoc unfolding g fold graph_inv_def d
    by (cases "ce_host ?e \<in> fg_seen_host ?g")
      (auto simp: links_of_def Let_def firsts_append_distinct filter_map comp_def list_all_iff)
qed

text \<open>The ids of nodes of different kinds differ in their first character.\<close>

lemma ids_differ [simp]:
  "host_id a \<noteq> entry_id e" "host_id a \<noteq> dest_id d" "entry_id e \<noteq> host_id a" "entry_id e \<noteq> dest_id d"
  "dest_id d \<noteq> host_id a" "dest_id d \<noteq> entry_id e" "host_id a = host_id b \<longleftrightarrow> a = b" "dest_id c = dest_id d \<longleftrightarrow> c = d"
  by (simp_all add: host_id_def entry_id_def dest_id_def)

lemma distinct_by_kind:
  assumes "\<And>x y. x \<in> set xs \<Longrightarrow> y \<in> set xs \<Longrightarrow> key x = key y \<Longrightarrow> kind x = kind y"
  shows "distinct (map key xs) \<longleftrightarrow> (\<forall>k \<in> kind ` set xs. distinct (map key (filter (\<lambda>x. kind x = k) xs)))"
  using assms
proof (induction xs)
  case (Cons x xs)
  then have IH: "distinct (map key xs) \<longleftrightarrow> (\<forall>k \<in> kind ` set xs. distinct (map key (filter (\<lambda>x. kind x = k) xs)))"
    by simp
  have "key x \<in> key ` set xs \<longleftrightarrow> key x \<in> key ` set (filter (\<lambda>y. kind y = kind x) xs)"
  proof
    assume "key x \<in> key ` set xs"
    then obtain y where y: "y \<in> set xs" "key x = key y" by blast
    then have "kind y = kind x" using Cons.prems [of x y] by simp
    with y show "key x \<in> key ` set (filter (\<lambda>y. kind y = kind x) xs)" by (simp add: rev_image_eqI)
  qed auto
  with IH show ?case by (auto intro: distinct_map_filter)
qed simp

lemma graph_node_cases:
  assumes "graph_inv bes g" "n \<in> set (fg_nodes g)"
  obtains (host) "gn_kind n = ''host''" "gn_id n = host_id (gn_label n)" "gn_label n \<in> (\<lambda>be. ce_host (be_entry be)) ` set bes"
    | (entry) be where "be \<in> set bes" "n = entry_node be"
    | (dest) d where "d \<in> set (dests_of bes)" "n = dest_node d"
proof -
  from assms have k: "gn_kind n \<in> {''host'', ''entry'', ''dest''}" by (auto simp: graph_inv_def list_all_iff)
  have in_kind: "n \<in> set (filter (\<lambda>n. gn_kind n = gn_kind n') (fg_nodes g))" if "gn_kind n = gn_kind n'" for n'
    using that assms(2) by simp
  have h: "(gn_id n, gn_label n) \<in> (\<lambda>h. (host_id h, h)) ` (\<lambda>be. ce_host (be_entry be)) ` set bes" if "gn_kind n = ''host''"
  proof -
    from that assms(2) have "(gn_id n, gn_label n) \<in>
        set (map (\<lambda>n. (gn_id n, gn_label n)) (filter (\<lambda>n. gn_kind n = ''host'') (fg_nodes g)))" by auto
    then show ?thesis using assms(1) unfolding graph_inv_def by (simp add: image_image)
  qed
  have e: "n \<in> entry_node ` set bes" if "gn_kind n = ''entry''"
  proof -
    from that assms(2) have "n \<in> set (filter (\<lambda>n. gn_kind n = ''entry'') (fg_nodes g))" by simp
    then show ?thesis using assms(1) unfolding graph_inv_def by simp
  qed
  have d: "n \<in> dest_node ` set (dests_of bes)" if "gn_kind n = ''dest''"
  proof -
    from that assms(2) have "n \<in> set (filter (\<lambda>n. gn_kind n = ''dest'') (fg_nodes g))" by simp
    then show ?thesis using assms(1) unfolding graph_inv_def by simp
  qed
  from k show thesis using h e d host entry dest by auto
qed

lemma ball_superset: "A \<subseteq> B \<Longrightarrow> (\<And>k. k \<notin> A \<Longrightarrow> P k) \<Longrightarrow> (\<forall>k \<in> A. P k) \<longleftrightarrow> (\<forall>k \<in> B. P k)"
  by blast

lemma graph_ids_distinct:
  assumes "graph_inv bes g"
  shows "distinct (map gn_id (fg_nodes g)) \<longleftrightarrow> distinct (map (\<lambda>be. entry_id (be_entry be)) bes)"
proof -
  have "gn_kind m = gn_kind n" if "m \<in> set (fg_nodes g)" "n \<in> set (fg_nodes g)" "gn_id m = gn_id n" for m n
    using assms that(1)
  proof (cases rule: graph_node_cases)
    case host
    with assms that(2,3) show ?thesis by (cases rule: graph_node_cases) auto
  next
    case (entry be)
    with assms that(2,3) show ?thesis by (cases rule: graph_node_cases) auto
  next
    case (dest d)
    with assms that(2,3) show ?thesis by (cases rule: graph_node_cases) auto
  qed
  then have "distinct (map gn_id (fg_nodes g)) \<longleftrightarrow>
      (\<forall>k \<in> gn_kind ` set (fg_nodes g). distinct (map gn_id (filter (\<lambda>x. gn_kind x = k) (fg_nodes g))))"
    by (rule distinct_by_kind)
  also have "\<dots> \<longleftrightarrow> (\<forall>k \<in> {''host'', ''entry'', ''dest''}. distinct (map gn_id (filter (\<lambda>x. gn_kind x = k) (fg_nodes g))))"
  proof -
    have none: "distinct (map gn_id (filter (\<lambda>x. gn_kind x = k) (fg_nodes g)))"
      if "k \<notin> gn_kind ` set (fg_nodes g)" for k
    proof -
      from that have "filter (\<lambda>x. gn_kind x = k) (fg_nodes g) = []" by (auto simp: filter_empty_conv)
      then show ?thesis by simp
    qed
    have "gn_kind ` set (fg_nodes g) \<subseteq> {''host'', ''entry'', ''dest''}"
      using assms by (auto simp: graph_inv_def list_all_iff)
    then show ?thesis by (rule ball_superset) (rule none)
  qed
  also have "\<dots> \<longleftrightarrow> distinct (map (\<lambda>be. entry_id (be_entry be)) bes)"
  proof -
    have "map gn_id (filter (\<lambda>n. gn_kind n = ''host'') (fg_nodes g)) =
        map fst (map (\<lambda>n. (gn_id n, gn_label n)) (filter (\<lambda>n. gn_kind n = ''host'') (fg_nodes g)))"
      by simp
    also have "\<dots> = map host_id (firsts (map (\<lambda>be. ce_host (be_entry be)) bes))"
      using assms unfolding graph_inv_def by (simp add: comp_def)
    finally have h: "map gn_id (filter (\<lambda>n. gn_kind n = ''host'') (fg_nodes g)) =
        map host_id (firsts (map (\<lambda>be. ce_host (be_entry be)) bes))" .
    have e: "map gn_id (filter (\<lambda>n. gn_kind n = ''entry'') (fg_nodes g)) = map (\<lambda>be. entry_id (be_entry be)) bes"
      and d: "map gn_id (filter (\<lambda>n. gn_kind n = ''dest'') (fg_nodes g)) = map dest_id (firsts (dests_of bes))"
      using assms unfolding graph_inv_def by (simp_all add: comp_def)
    have "distinct (map host_id (firsts xs))" "distinct (map dest_id (firsts xs))" for xs
      by (simp_all add: distinct_map inj_on_def)
    then show ?thesis by (simp add: h e d)
  qed
  finally show ?thesis .
qed

lemma graph_links_typed:
  assumes "graph_inv bes g" "(a, b) \<in> set (fg_links g)"
  shows "\<exists>m \<in> set (fg_nodes g). \<exists>n \<in> set (fg_nodes g). gn_id m = a \<and> gn_id n = b \<and>
    (gn_kind m, gn_kind n) \<in> {(''host'', ''entry''), (''entry'', ''dest'')}"
proof -
  from assms obtain be where be: "be \<in> set bes" "(a, b) \<in> set (links_of be)" by (auto simp: graph_inv_def)
  have "entry_node be \<in> set (filter (\<lambda>n. gn_kind n = ''entry'') (fg_nodes g))"
    using assms(1) be(1) unfolding graph_inv_def by simp
  then have e: "entry_node be \<in> set (fg_nodes g)" by simp
  from be(2) consider (host) "a = host_id (ce_host (be_entry be))" "b = entry_id (be_entry be)"
    | (dest) d where "d \<in> set (ce_destinations (be_entry be))" "a = entry_id (be_entry be)" "b = dest_id d"
    by (auto simp: links_of_def Let_def)
  then show ?thesis
  proof cases
    case host
    have "(host_id (ce_host (be_entry be)), ce_host (be_entry be)) \<in>
        set (map (\<lambda>n. (gn_id n, gn_label n)) (filter (\<lambda>n. gn_kind n = ''host'') (fg_nodes g)))"
      using assms(1) be(1) unfolding graph_inv_def by auto
    then obtain m where "m \<in> set (fg_nodes g)" "gn_kind m = ''host''" "gn_id m = a" using host by auto
    with e host show ?thesis by force
  next
    case dest
    with be(1) have "d \<in> set (dests_of bes)" by (auto simp: dests_of_def)
    then have "dest_node d \<in> set (filter (\<lambda>n. gn_kind n = ''dest'') (fg_nodes g))"
      using assms(1) unfolding graph_inv_def by simp
    with e dest show ?thesis by force
  qed
qed

lemma truncate_fields [simp]: "fg_nodes (flow_graph.truncate g) = fg_nodes g" "fg_links (flow_graph.truncate g) = fg_links g"
  by (simp_all add: flow_graph.truncate_def)

text \<open>
  Claim C20. The flow graph handed to the page is well formed: every link joins two nodes of the
  graph, a host to an entry or an entry to a destination; there is one link into each entry and one
  per destination of it; the entry nodes are the entries of the catalog in order, with their
  badges; each host and each destination has exactly one node; and the ids are distinct, as the
  layout in the browser needs, exactly when no two entries have the same host and name.
\<close>

theorem flow_graph_well_formed:
  "let g = build_flow_graph tz clock sn; bes = sn_entries sn; es = map be_entry bes in
     list_all (\<lambda>(a, b). list_ex (\<lambda>m. gn_id m = a \<and> list_ex (\<lambda>n. gn_id n = b \<and>
        (gn_kind m, gn_kind n) \<in> {(''host'', ''entry''), (''entry'', ''dest'')}) (fg_nodes g)) (fg_nodes g)) (fg_links g) \<and>
     length (fg_links g) = sum_list (map (\<lambda>e. 1 + length (ce_destinations e)) es) \<and>
     list_all (\<lambda>n. gn_kind n \<in> {''host'', ''entry'', ''dest''}) (fg_nodes g) \<and>
     map (\<lambda>n. (gn_id n, gn_label n, gn_state n)) (of_kind ''entry'' g) =
       map (\<lambda>be. (entry_id (be_entry be), ce_name (be_entry be), be_badge be)) bes \<and>
     distinct (map gn_label (of_kind ''host'' g)) \<and> gn_label ` set (of_kind ''host'' g) = ce_host ` set es \<and>
     distinct (map gn_label (of_kind ''dest'' g)) \<and>
     gn_label ` set (of_kind ''dest'' g) = set (concat (map ce_destinations es)) \<and>
     (distinct (map gn_id (fg_nodes g)) \<longleftrightarrow> distinct (map entry_id es))"
proof -
  let ?bes = "sn_entries sn" and ?g = "graph_of tz clock (sn_entries sn)"
  note inv = graph_inv [of ?bes tz clock]
  have links: "list_all (\<lambda>(a, b). list_ex (\<lambda>m. gn_id m = a \<and> list_ex (\<lambda>n. gn_id n = b \<and>
      (gn_kind m, gn_kind n) \<in> {(''host'', ''entry''), (''entry'', ''dest'')}) (fg_nodes ?g)) (fg_nodes ?g)) (fg_links ?g)"
    using graph_links_typed [OF inv] unfolding list_all_iff list_ex_iff by fastforce
  have count: "length (fg_links ?g) = sum_list (map (\<lambda>e. 1 + length (ce_destinations e)) (map be_entry ?bes))"
    using inv unfolding graph_inv_def by (simp add: length_concat links_of_def Let_def comp_def)
  have entries: "map (\<lambda>n. (gn_id n, gn_label n, gn_state n)) (filter (\<lambda>n. gn_kind n = ''entry'') (fg_nodes ?g)) =
      map (\<lambda>be. (entry_id (be_entry be), ce_name (be_entry be), be_badge be)) ?bes"
    using inv unfolding graph_inv_def by (simp add: comp_def entry_node_def)
  have "map gn_label (filter (\<lambda>n. gn_kind n = ''host'') (fg_nodes ?g)) =
      map snd (map (\<lambda>n. (gn_id n, gn_label n)) (filter (\<lambda>n. gn_kind n = ''host'') (fg_nodes ?g)))" by simp
  also have "\<dots> = firsts (map (\<lambda>be. ce_host (be_entry be)) ?bes)"
    using inv unfolding graph_inv_def by (simp add: comp_def)
  finally have hosts: "map gn_label (filter (\<lambda>n. gn_kind n = ''host'') (fg_nodes ?g)) =
      firsts (map (\<lambda>be. ce_host (be_entry be)) ?bes)" .
  have dests: "map gn_label (filter (\<lambda>n. gn_kind n = ''dest'') (fg_nodes ?g)) = firsts (dests_of ?bes)"
    using inv unfolding graph_inv_def by (simp add: comp_def)
  have kinds: "list_all (\<lambda>n. gn_kind n \<in> {''host'', ''entry'', ''dest''}) (fg_nodes ?g)"
    using inv by (simp add: graph_inv_def)
  have "gn_label ` set (filter (\<lambda>n. gn_kind n = ''host'') (fg_nodes ?g)) = ce_host ` set (map be_entry ?bes)"
    using arg_cong [OF hosts, of set] by (simp add: image_image)
  moreover have "gn_label ` set (filter (\<lambda>n. gn_kind n = ''dest'') (fg_nodes ?g)) =
      set (concat (map ce_destinations (map be_entry ?bes)))"
    using arg_cong [OF dests, of set] by (simp add: dests_of_def)
  moreover have "distinct (map gn_id (fg_nodes ?g)) \<longleftrightarrow> distinct (map entry_id (map be_entry ?bes))"
    using graph_ids_distinct [OF inv] by (simp add: comp_def)
  moreover have "distinct (map gn_label (filter (\<lambda>n. gn_kind n = ''host'') (fg_nodes ?g)))"
    "distinct (map gn_label (filter (\<lambda>n. gn_kind n = ''dest'') (fg_nodes ?g)))" by (simp_all only: hosts dests firsts_simps)
  ultimately show ?thesis
    using links count entries kinds unfolding build_flow_graph_def of_kind_def Let_def truncate_fields by blast
qed

section \<open>The next run is the next one\<close>

lemma run_label_exact:
  assumes "0 \<le> d" "d \<le> 86400 * 10 ^ 9"
  shows "run_label h m d =
    pad2 h @ '':'' @ pad2 m @ '' (in '' @ int_str (d div 3600000000000) @ ''h '' @
    int_str (d div 60000000000 mod 60) @ ''m)''"
proof -
  have "0 \<le> d div 60000000000" using assms(1) by (simp add: pos_imp_zdiv_nonneg_iff)
  then have "go_mod (d div 60000000000) 60 = d div 60000000000 mod 60"
    by (auto simp: go_mod_def go_div_def sgn_if minus_mult_div_eq_mod)
  with assms show ?thesis by (simp add: run_label_def hours_trunc minutes_trunc)
qed

lemma scan_schedule_range:
  "scan_schedule s = Some (h, m, sec) \<Longrightarrow> 0 \<le> h \<and> h < 24 \<and> 0 \<le> m \<and> m < 60 \<and> 0 \<le> sec \<and> sec < 60"
  by (auto simp: scan_schedule_def Let_def split: Option.bind_splits if_splits prod.splits)

lemma scan_schedule_empty [simp]: "scan_schedule [] = None"
  by (simp add: scan_schedule_def scan_int_def skip_blanks_def strip_sign_def has_prefix_def)

text \<open>
  A location is steady around an instant when its offset is the same for three days before and after
  and less than a day; every day without a change of the clocks nearby is.
\<close>

definition steady :: "zone \<Rightarrow> int \<Rightarrow> int \<Rightarrow> bool" where
  "steady z off sec \<longleftrightarrow> \<bar>off\<bar> < 86400 \<and> (\<forall>u. \<bar>u - sec\<bar> \<le> 3 * 86400 \<longrightarrow> z u = off)"

lemma date_unix_steady:
  assumes "steady z off sec" "\<bar>w - sec\<bar> \<le> 2 * 86400"
  shows "date_unix z w = w - off"
proof -
  from assms have "z w = off" "z (w - off) = off" by (auto simp: steady_def)
  then show ?thesis by (simp add: date_unix_def Let_def)
qed

lemma next_at_steady:
  fixes now :: gtime
  defines "sec \<equiv> unix_sec now"
  assumes st: "steady (t_zone now) off sec" and tod: "0 \<le> tod" "tod < 86400" "tod = h * 3600 + m * 60 + s"
  shows "t_ns (next_at now (h, m, s)) mod 10 ^ 9 = 0"
    and "(t_ns (next_at now (h, m, s)) div 10 ^ 9 + off) mod 86400 = tod"
    and "t_ns now < t_ns (next_at now (h, m, s))"
    and "t_ns (next_at now (h, m, s)) \<le> t_ns now + 86400 * 10 ^ 9"
proof -
  let ?local = "local_sec now" and ?b = "10 ^ 9 :: int"
  define w where "w = ?local div 86400 * 86400 + tod"
  have loc: "?local = sec + off" using st by (simp add: local_sec_def sec_def steady_def)
  have day: "?local div 86400 * 86400 \<le> ?local" "?local < ?local div 86400 * 86400 + 86400"
    using div_mult_mod_eq [of ?local 86400] pos_mod_bound [of 86400 ?local] pos_mod_sign [of 86400 ?local] by linarith+
  have near: "\<bar>w - sec\<bar> \<le> 2 * 86400"
    using day tod st by (simp add: w_def loc steady_def abs_le_iff abs_less_iff)
  have today: "today_at now (h, m, s) = now\<lparr>t_ns := (w - off) * ?b\<rparr>"
  proof -
    have "?local div 86400 * 86400 + h * 3600 + m * 60 + s = w" by (simp add: w_def tod(3))
    then show ?thesis using date_unix_steady [OF st near] by (simp only: today_at_def prod.case)
  qed
  have ns: "sec * ?b \<le> t_ns now" "t_ns now < (sec + 1) * ?b"
    using div_mult_mod_eq [of "t_ns now" ?b] pos_mod_bound [of ?b "t_ns now"] pos_mod_sign [of ?b "t_ns now"]
    unfolding sec_def unix_sec_def by (simp_all add: algebra_simps)
  have w_range: "sec - 86400 < w - off" "w - off < sec + 86400"
    using day tod by (simp_all add: w_def loc)
  have wall: "w mod 86400 = tod" using tod by (simp add: w_def)
  let ?n = "next_at now (h, m, s)"
  have "t_ns ?n = (w - off) * ?b \<and> t_ns now < (w - off) * ?b \<or>
      t_ns ?n = (w - off + 86400) * ?b \<and> (w - off) * ?b \<le> t_ns now"
  proof (cases "t_before now (today_at now (h, m, s))")
    case True
    then show ?thesis by (simp add: next_at_def today t_before_def)
  next
    case False
    define t where "t = now\<lparr>t_ns := (w - off) * ?b\<rparr>"
    have t0: "t_ns t mod 1000000000 = 0" by (simp add: t_def)
    have u: "unix_sec t = w - off" by (simp add: t_def unix_sec_def)
    have z: "t_zone t v = off" if "\<bar>v - sec\<bar> \<le> 3 * 86400" for v using st that by (simp add: t_def steady_def)
    have "t_zone t (w - off) = off" by (rule z) (use w_range in linarith)
    then have l: "local_sec t = w" by (simp add: local_sec_def u)
    have "t_zone t (w + 86400) = off" "t_zone t (w + 86400 - off) = off"
      by (rule z, use near w_range in linarith)+
    then have "t_ns (add_days 1 t) = (w - off + 86400) * ?b"
      by (simp add: add_days_def l Let_def t0)
    moreover have "next_at now (h, m, s) = add_days 1 t" using False by (simp add: next_at_def today t_def)
    moreover have "(w - off) * ?b \<le> t_ns now" using False by (simp add: today t_before_def)
    ultimately show ?thesis by simp
  qed
  then consider (today) "t_ns ?n = (w - off) * ?b" "t_ns now < (w - off) * ?b"
    | (tomorrow) "t_ns ?n = (w - off + 86400) * ?b" "(w - off) * ?b \<le> t_ns now" by blast
  then have "t_ns ?n mod ?b = 0 \<and> (t_ns ?n div ?b + off) mod 86400 = tod \<and>
      t_ns now < t_ns ?n \<and> t_ns ?n \<le> t_ns now + 86400 * ?b"
  proof cases
    case today
    with ns w_range wall show ?thesis by simp
  next
    case tomorrow
    have "t_ns ?n div ?b = w - off + 86400" "t_ns ?n mod ?b = 0"
      unfolding tomorrow(1) by (rule nonzero_mult_div_cancel_right, simp) (rule mod_mult_self2_is_0)
    moreover have "(w - off + 86400 + off) mod 86400 = tod" using wall by simp
    moreover have "t_ns now < t_ns ?n" "t_ns ?n \<le> t_ns now + 86400 * ?b"
      using tomorrow ns w_range by (simp_all add: algebra_simps)
    ultimately show ?thesis by simp
  qed
  then show "t_ns ?n mod ?b = 0" "(t_ns ?n div ?b + off) mod 86400 = tod"
    "t_ns now < t_ns ?n" "t_ns ?n \<le> t_ns now + 86400 * ?b" by blast+
qed

text \<open>
  Claim C21. The next-run label is right.  On a day without a change of the clocks nearby, a
  schedule that can be read gives a label, and it announces the first moment after now at which
  the clocks of the host's zone show the scheduled time: it lies more than 0 and at most 24 hours
  ahead, no earlier moment shows that time, and the hours and minutes in the label, which the code
  computes with floating point, are the whole hours and minutes until then.
\<close>

theorem next_run_exact:
  assumes "scan_schedule schedule = Some (h, m, s)" and "steady z off (unix_sec now)"
  shows "\<exists>until. next_run (Some z) schedule now =
      Some (pad2 h @ '':'' @ pad2 m @ '' (in '' @ int_str (until div 3600000000000) @ ''h '' @
            int_str (until div 60000000000 mod 60) @ ''m)'') \<and>
    0 < until \<and> until \<le> 86400 * 10 ^ 9 \<and>
    (\<forall>d > 0. d \<le> until \<longrightarrow>
       ((t_ns now + d) mod 10 ^ 9 = 0 \<and> ((t_ns now + d) div 10 ^ 9 + off) mod 86400 = h * 3600 + m * 60 + s
          \<longleftrightarrow> d = until))"
proof -
  let ?b = "10 ^ 9 :: int" and ?tod = "h * 3600 + m * 60 + s"
  define local where "local = now\<lparr>t_zone := z\<rparr>"
  define n where "n = next_at local (h, m, s)"
  define until where "until = t_ns n - t_ns now"
  from scan_schedule_range [OF assms(1)] have tod: "0 \<le> ?tod" "?tod < 86400" by linarith+
  have st: "steady (t_zone local) off (unix_sec local)"
    using assms(2) by (simp add: local_def unix_sec_def)
  note nx = next_at_steady [OF st tod refl, folded n_def]
  have u: "0 < until" "until \<le> 86400 * ?b" using nx(3,4) by (simp_all add: until_def local_def)
  then have sub: "t_sub n local = until" by (simp add: t_sub_def until_def local_def)
  have "schedule \<noteq> []" using assms(1) by auto
  then have "next_run (Some z) schedule now = Some (run_label h m until)"
    using assms(1) sub by (simp add: next_run_def Let_def flip: local_def n_def)
  moreover have "(t_ns now + d) mod ?b = 0 \<and> ((t_ns now + d) div ?b + off) mod 86400 = ?tod \<longleftrightarrow> d = until"
    if d: "0 < d" "d \<le> until" for d
  proof
    assume a: "(t_ns now + d) mod ?b = 0 \<and> ((t_ns now + d) div ?b + off) mod 86400 = ?tod"
    let ?x = "(t_ns now + d) div ?b" and ?y = "t_ns n div ?b"
    have x: "t_ns now + d = ?x * ?b" and y: "t_ns n = ?y * ?b"
      using a nx(1) div_mult_mod_eq [of "t_ns now + d" ?b] div_mult_mod_eq [of "t_ns n" ?b] by linarith+
    have "(?y + off - (?x + off)) mod 86400 = 0"
      using a nx(2) by (metis mod_0_imp_dvd mod_eq_dvd_iff mod_eq_0_iff_dvd)
    then have "(?y - ?x) mod 86400 = 0" by simp
    moreover have "0 \<le> ?y - ?x" "?y - ?x < 86400" using d u x y by (simp_all add: until_def)
    ultimately have "?y = ?x" by simp
    with x y show "d = until" by (simp add: until_def)
  next
    assume "d = until"
    then have "t_ns now + d = t_ns n" by (simp add: until_def)
    with nx(1,2) show "(t_ns now + d) mod ?b = 0 \<and> ((t_ns now + d) div ?b + off) mod 86400 = ?tod" by simp
  qed
  ultimately show ?thesis
    using u by (auto simp: run_label_exact less_imp_le)
qed

text \<open>Central European time on 15 January 2026, 22:48 UTC: the run at 03:00 is 3 hours and 12 minutes away.\<close>

definition sample_vienna :: zone where
  "sample_vienna u = (if 1774746000 \<le> u \<and> u < 1792890000 then 7200 else 3600)"

definition sample_now :: gtime where
  "sample_now = \<lparr>t_ns = 1768517280 * 10 ^ 9, t_zone = utc\<rparr>"

theorem next_run_exact_witness:
  "next_run (Some sample_vienna) ''03:00:00'' sample_now = Some ''03:00 (in 3h 12m)''"
proof -
  have scan: "scan_schedule ''03:00:00'' = Some (3, 0, 0)" by code_simp
  have st: "steady sample_vienna 3600 (unix_sec sample_now)"
    by (auto simp: steady_def sample_vienna_def sample_now_def unix_sec_def)
  obtain until where u: "next_run (Some sample_vienna) ''03:00:00'' sample_now =
      Some (pad2 3 @ '':'' @ pad2 0 @ '' (in '' @ int_str (until div 3600000000000) @ ''h '' @
            int_str (until div 60000000000 mod 60) @ ''m)'')"
    and r: "0 < until" "until \<le> 86400 * 10 ^ 9"
    and first: "\<And>d. 0 < d \<Longrightarrow> d \<le> until \<Longrightarrow>
       ((t_ns sample_now + d) mod 10 ^ 9 = 0 \<and> ((t_ns sample_now + d) div 10 ^ 9 + 3600) mod 86400 = 3 * 3600 + 0 * 60 + 0
          \<longleftrightarrow> d = until)"
    using next_run_exact [OF scan st] by blast
  have "until = 11520 * 10 ^ 9"
  proof -
    have "(1768517280 * 10 ^ 9 + until) mod 10 ^ 9 = 0 \<and> ((1768517280 * 10 ^ 9 + until) div 10 ^ 9 + 3600) mod 86400 = 10800"
      using first [of until] r by (simp add: sample_now_def)
    moreover from this have "10 ^ 9 dvd 1768517280 * 10 ^ 9 + until" by (simp add: dvd_eq_mod_eq_0)
    then have "until mod 10 ^ 9 = 0" by (simp add: dvd_add_right_iff flip: dvd_eq_mod_eq_0)
    then obtain k where k: "until = k * 10 ^ 9" by (metis mod_eq_0_iff_dvd dvd_def mult.commute)
    moreover have "(1768517280 * 10 ^ 9 + k * 10 ^ 9) div 10 ^ 9 = 1768517280 + k"
      by (simp flip: distrib_right)
    ultimately have "(1768517280 + k + 3600) mod 86400 = 10800" "0 < k" "k \<le> 86400" using r by simp_all
    moreover define j where "j = (1768517280 + k + 3600) div 86400"
    ultimately have kj: "1768517280 + k + 3600 = j * 86400 + 10800" "0 < k" "k \<le> 86400"
      using div_mult_mod_eq [of "1768517280 + k + 3600" 86400] by simp_all
    then have "j \<le> 20469" "20469 \<le> j" by linarith+
    then have "j = 20469" by simp
    with kj have "k = 11520" by simp
    with k show ?thesis by simp
  qed
  then have "next_run (Some sample_vienna) ''03:00:00'' sample_now =
      Some (pad2 3 @ '':'' @ pad2 0 @ '' (in '' @ int_str 3 @ ''h '' @ int_str 12 @ ''m)'')"
    using u by simp
  also have "pad2 3 @ '':'' @ pad2 0 @ '' (in '' @ int_str 3 @ ''h '' @ int_str 12 @ ''m)'' = ''03:00 (in 3h 12m)''"
    by code_simp
  finally show ?thesis .
qed

section \<open>One bad sample\<close>

definition disk_at :: "disk_map \<Rightarrow> string \<Rightarrow> string \<Rightarrow> f64 option" where
  "disk_at out i m = (case mget out i of None \<Rightarrow> None | Some mounts \<Rightarrow> mget mounts m)"

definition series_key :: "series \<Rightarrow> string \<times> string" where
  "series_key s = (label_of s ''instance'', label_of s ''mountpoint'')"

definition sample_of :: "series \<Rightarrow> f64 option" where
  "sample_of s = (case sr_value s of VStr text \<Rightarrow> parse_float text | _ \<Rightarrow> None)"

lemma add_series_at:
  "disk_at (add_series s out) i m =
     (if series_key s = (i, m) \<and> sample_of s \<noteq> None then map_option round1 (sample_of s) else disk_at out i m)"
  by (auto simp: add_series_def disk_at_def series_key_def sample_of_def Let_def split: any.splits option.splits)

lemma fold_series_other:
  "(i, m) \<notin> series_key ` set rs \<Longrightarrow> disk_at (fold add_series rs out) i m = disk_at out i m"
  by (induction rs arbitrary: out) (auto simp: add_series_at)

lemma fold_series_at:
  assumes "distinct (map series_key rs)" "s \<in> set rs" "sample_of s = Some v"
  shows "disk_at (fold add_series rs out) (label_of s ''instance'') (label_of s ''mountpoint'') = Some (round1 v)"
  using assms
proof (induction rs arbitrary: out)
  case (Cons r rs)
  show ?case
  proof (cases "s \<in> set rs")
    case True
    with Cons show ?thesis by simp
  next
    case False
    with Cons.prems have "s = r" "(label_of s ''instance'', label_of s ''mountpoint'') \<notin> series_key ` set rs"
      by (auto simp: series_key_def)
    with Cons.prems(3) show ?thesis by (simp add: fold_series_other add_series_at series_key_def)
  qed
qed simp

lemma round1_NaN [simp]: "round1 NaN = NaN"
  by (simp add: round1_def)

lemma mget_in: "mget m k = Some v \<Longrightarrow> (k, v) \<in> set m"
  by (simp add: mget_def map_of_SomeD)

lemma disk_NaN_not_marshalled:
  assumes "disk_at (sn_source_disk sn) i m = Some NaN"
  shows "\<not> marshals sn"
proof -
  from assms obtain mounts where "mget (sn_source_disk sn) i = Some mounts" "mget mounts m = Some NaN"
    by (auto simp: disk_at_def split: option.splits)
  then have "(i, mounts) \<in> set (sn_source_disk sn)" "(m, NaN) \<in> set mounts" by (simp_all add: mget_in)
  then have "\<not> list_all (\<lambda>(i, mounts). list_all (\<lambda>(m, v). finite_f64 v) mounts) (sn_source_disk sn)"
    by (force simp: list_all_iff)
  then show ?thesis by (simp add: marshals_def)
qed

lemma world_snapshot_disk:
  assumes "world_snapshot w cfg = Inr (Some sn)"
  shows "sn_source_disk sn = source_disk_usage (world_disk_reply w cfg)"
  using assms by (auto simp: world_snapshot_def build_snapshot_eq split: sum.splits)

lemma world_snapshot_no_panic: "world_snapshot w cfg \<noteq> Inr None"
  by (simp add: world_snapshot_def build_snapshot_eq split: sum.split)


definition sample_bd_world :: "series list \<Rightarrow> bd_world" where
  "sample_bd_world rs =
     \<lparr>bw_env = (\<lambda>v. if v = ''BACKUP_DASHBOARD_SSH_HOSTS'' then ''mljr=a'' else []), bw_catalog = (\<lambda>_. Inr sample_bd_catalog),
      bw_ssh = sample_ssh, bw_decode = sample_decode, bw_query_encode = (\<lambda>q. ''q''),
      bw_victoria = (\<lambda>_. Reply 200 (Some \<lparr>vb_status = ''success'', vb_result = rs\<rparr>)),
      bw_now = \<lparr>t_ns = 0, t_zone = utc\<rparr>, bw_clock = (\<lambda>_. \<lparr>t_ns = 0, t_zone = utc\<rparr>), bw_tz = None,
      bw_json = (\<lambda>_. ''{}''), bw_render = (\<lambda>_. Some ''<html>''), bw_ok = (\<lambda>_. True), bw_torn = (\<lambda>_ c. c)\<rparr>"

definition nan_series :: series where
  "nan_series = \<lparr>sr_metric = [(''instance'', ''mljr''), (''mountpoint'', ''/boot'')], sr_value = VStr ''NaN''\<rparr>"


text \<open>When the numbers are finite and nothing fails, both files are written, whichever hosts failed.\<close>

lemma page_written:
  assumes "world_snapshot w (bd_config_from_env (bw_env w)) = Inr (Some sn)" "marshals sn" "\<And>x. bw_ok w x"
    and "bw_render w (build_page_data (bw_tz w) (bw_clock w) sn) = Some html"
  shows "collect_main w fs = (0, done_line sn, \<lparr>bf_snapshot = Some (bw_json w sn), bf_page = Some html\<rparr>)"
  using assms by (cases fs) (simp add: collect_main_def write_outputs_def Let_def)

lemma length_three_way:
  "(\<And>x. P x \<Longrightarrow> \<not> Q x) \<Longrightarrow>
   length (filter P xs) + length (filter Q xs) + length (filter (\<lambda>x. \<not> P x \<and> \<not> Q x) xs) = length xs"
  by (induction xs) auto

text \<open>The summary counts every host card once, and the errors are the failed hosts in order.\<close>

lemma page_summary:
  "let pd = build_page_data tz clock sn in
     pd_summary_ok pd + pd_summary_degraded pd + pd_summary_unknown pd = pd_summary_total pd \<and>
     pd_summary_total pd = length (sn_host_order sn) \<and>
     map er_state (pd_entries pd) = map be_badge (sn_entries sn) \<and>
     map fst (pd_errors pd) = sorted_keys (sn_errors sn)"
  using length_three_way [of "\<lambda>c. hc_state c = ''ok''" "\<lambda>c. hc_state c = ''degraded''"
      "map (host_card_of (sn_hosts sn)) (sn_host_order sn)"]
  by (simp add: build_page_data_def Let_def count_state_def comp_def entry_row_of_def)

end
