(* ===== verification/DS_Status.thy ===== *)
theory DS_Status
  imports Go_Any
begin

text \<open>
  The failed services of a deployment log and the list of services, \<^verbatim>\<open>status.go\<close> and the helpers of
  \<^verbatim>\<open>page.go\<close> it uses, in \<^verbatim>\<open>src/tools/internal/deploystatus\<close>.  The five regular expressions are
  functions that return what the leftmost match gives; letter case is that of ASCII.
\<close>

section \<open>Helpers\<close>

type_synonym item = "(string, any) gmap"

definition str_of :: "item \<Rightarrow> string \<Rightarrow> string" where
  "str_of m key = as_str (mget m key)"

definition or_text :: "string \<Rightarrow> string \<Rightarrow> string" where
  "or_text s dflt = (if s = [] then dflt else s)"

definition domain_of :: "item \<Rightarrow> string" where
  "domain_of svc =
     (case mget svc ''domain'' of
        Some (VStr d) \<Rightarrow> d
      | Some (VList (x # _)) \<Rightarrow> as_str (Some x)
      | _ \<Rightarrow> [])"

text \<open>
  \<^verbatim>\<open>[]rune(s)\<close>: a string as its runes, each by its UTF-8 bytes; a byte that starts no valid
  encoding is the replacement rune.
\<close>

definition byte :: "char \<Rightarrow> nat" where
  "byte c = of_char c"

definition cont_byte :: "char \<Rightarrow> bool" where
  "cont_byte c \<longleftrightarrow> 0x80 \<le> byte c \<and> byte c \<le> 0xBF"

fun rune_width :: "string \<Rightarrow> nat" where
  \<comment> \<open>the length of the valid encoding the string starts with, or 0\<close>
  "rune_width [] = 0"
| "rune_width (a # r) =
     (if byte a < 0x80 then 1
      else if 0xC2 \<le> byte a \<and> byte a \<le> 0xDF then
        (case r of b # _ \<Rightarrow> if cont_byte b then 2 else 0 | _ \<Rightarrow> 0)
      else if 0xE0 \<le> byte a \<and> byte a \<le> 0xEF then
        (case r of b # c # _ \<Rightarrow>
           if (if byte a = 0xE0 then 0xA0 else 0x80) \<le> byte b \<and> byte b \<le> (if byte a = 0xED then 0x9F else 0xBF) \<and>
              cont_byte c then 3 else 0
         | _ \<Rightarrow> 0)
      else if 0xF0 \<le> byte a \<and> byte a \<le> 0xF4 then
        (case r of b # c # d # _ \<Rightarrow>
           if (if byte a = 0xF0 then 0x90 else 0x80) \<le> byte b \<and> byte b \<le> (if byte a = 0xF4 then 0x8F else 0xBF) \<and>
              cont_byte c \<and> cont_byte d then 4 else 0
         | _ \<Rightarrow> 0)
      else 0)"

definition replacement :: string where
  "replacement = [CHR 0xEF, CHR 0xBF, CHR 0xBD]"

function runes :: "string \<Rightarrow> string list" where
  "runes s =
     (if s = [] then [] else
      let w = rune_width s in if w = 0 then replacement # runes (tl s) else take w s # runes (drop w s))"
  by pat_completeness auto
termination
  by (relation "measure length") auto

declare runes.simps [simp del]

definition truncate_runes :: "nat \<Rightarrow> string \<Rightarrow> string" where
  "truncate_runes n s = (if length (runes s) \<le> n then s else concat (take n (runes s)))"

section \<open>The regular expressions\<close>

fun after :: "string \<Rightarrow> string \<Rightarrow> string option" where
  \<comment> \<open>the text after the first occurrence of the pattern\<close>
  "after pat [] = (if pat = [] then Some [] else None)"
| "after pat (c # r) = (if has_prefix (c # r) pat then Some (drop (length pat) (c # r)) else after pat r)"

text \<open>
  \<^verbatim>\<open>TASK \[(?:[^:]+ : )?(.*?)\]\<close>: the role before the first \<open>\<guillemotleft>:\<guillemotright>\<close> is skipped where blanks surround
  the colon and a bracket follows; then the text up to the next bracket.
\<close>

definition without_role :: "string \<Rightarrow> string option" where
  "without_role s =
     (let p = length (takeWhile (\<lambda>c. c \<noteq> CHR '':'') s)
      in if 2 \<le> p \<and> has_prefix (drop (p - 1) s) '' : '' then Some (drop (p + 2) s) else None)"

definition up_to_bracket :: "string \<Rightarrow> string option" where
  "up_to_bracket s = map_option fst (cut_char CHR '']'' s)"

definition task_name :: "string \<Rightarrow> string option" where
  "task_name line =
     (case after ''TASK ['' line of None \<Rightarrow> None
      | Some s \<Rightarrow>
          (case Option.bind (without_role s) up_to_bracket of Some t \<Rightarrow> Some t | None \<Rightarrow> up_to_bracket s))"

text \<open>\<^verbatim>\<open>\s\<close>; \<^verbatim>\<open>\s+\<close> replaced by one blank.\<close>

definition re_space :: "char \<Rightarrow> bool" where
  "re_space c \<longleftrightarrow> c \<in> {CHR 0x09, CHR 0x0A, CHR 0x0C, CHR 0x0D, CHR 0x20}"

function squeeze :: "string \<Rightarrow> string" where
  "squeeze [] = []"
| "squeeze (c # r) = (if re_space c then CHR '' '' # squeeze (dropWhile re_space r) else c # squeeze r)"
  by pat_completeness auto
termination
  by (relation "measure length") (auto simp: less_Suc_eq_le length_dropWhile_le)

definition clean_line :: "string \<Rightarrow> string" where
  "clean_line line = truncate_runes 200 (squeeze (trim_space line))"

text \<open>\<^verbatim>\<open>(?:^|\]\s)Error:\s\<close>\<close>

definition error_here :: "string \<Rightarrow> bool" where
  "error_here s \<longleftrightarrow> has_prefix s ''Error:'' \<and> (case drop 6 s of [] \<Rightarrow> False | c # _ \<Rightarrow> re_space c)"

fun error_after_bracket :: "string \<Rightarrow> bool" where
  "error_after_bracket (a # b # r) \<longleftrightarrow> a = CHR '']'' \<and> re_space b \<and> error_here r \<or> error_after_bracket (b # r)"
| "error_after_bracket _ \<longleftrightarrow> False"

definition openvox_error :: "string \<Rightarrow> bool" where
  "openvox_error line \<longleftrightarrow> error_here line \<or> error_after_bracket line"

text \<open>
  \<^verbatim>\<open>[A-Za-z0-9][A-Za-z0-9._-]*\<close> in brackets: a match is the name and the length of the match.  The
  name extends to the bracket, as no character of it is one.
\<close>

definition alnum :: "char \<Rightarrow> bool" where
  "alnum c \<longleftrightarrow> CHR ''A'' \<le> c \<and> c \<le> CHR ''Z'' \<or> CHR ''a'' \<le> c \<and> c \<le> CHR ''z'' \<or> is_digit c"

definition name_char :: "char \<Rightarrow> bool" where
  "name_char c \<longleftrightarrow> alnum c \<or> c \<in> {CHR ''.'', CHR ''_'', CHR ''-''}"

definition bracketed :: "string \<Rightarrow> string \<Rightarrow> (string \<times> nat) option" where
  "bracketed opening s =
     (if \<not> has_prefix (to_lower s) opening then None else
      let r = drop (length opening) s; nm = takeWhile name_char r
      in if nm \<noteq> [] \<and> alnum (hd nm) \<and> has_prefix (drop (length nm) r) '']''
         then Some (nm, length opening + length nm + 1) else None)"

definition resource_match :: "string \<Rightarrow> (string \<times> nat) option" where
  "resource_match = bracketed ''roles::services::service[''"

definition exec_suffixes :: "string list" where
  "exec_suffixes = [''-deploy'', ''-healthcheck'', ''-post-deploy-hook'']"

definition exec_match :: "string \<Rightarrow> (string \<times> nat) option" where
  "exec_match s =
     (case bracketed ''exec[services-'' s of None \<Rightarrow> None
      | Some (nm, n) \<Rightarrow>
          (case find (\<lambda>suf. has_prefix (rev (to_lower nm)) (rev suf)) exec_suffixes of None \<Rightarrow> None
           | Some suf \<Rightarrow>
               let t = take (length nm - length suf) nm in if t \<noteq> [] then Some (t, n) else None))"

text \<open>\<^verbatim>\<open>FindAllStringSubmatch\<close>: matches do not overlap, and each is at least one byte long.\<close>

function find_all :: "(string \<Rightarrow> (string \<times> nat) option) \<Rightarrow> string \<Rightarrow> string list" where
  "find_all m s =
     (if s = [] then [] else
      case m s of None \<Rightarrow> find_all m (tl s) | Some (x, n) \<Rightarrow> x # find_all m (drop (max 1 n) s))"
  by pat_completeness auto
termination
  by (relation "measure (\<lambda>(_, s). length s)") auto

declare find_all.simps [simp del]

section \<open>The failed services\<close>

type_synonym failures = "(string, string) gmap"

definition put_absent :: "string \<Rightarrow> string \<Rightarrow> failures \<Rightarrow> failures" where
  "put_absent msg name failed = (if mget failed name \<noteq> None then failed else mput name msg failed)"

definition fold_equal :: "string \<Rightarrow> string \<Rightarrow> bool" where
  \<comment> \<open>\<^verbatim>\<open>strings.EqualFold\<close>\<close>
  "fold_equal a b \<longleftrightarrow> to_lower a = to_lower b"

definition names_service :: "string \<Rightarrow> item \<Rightarrow> bool" where
  "names_service candidate service \<longleftrightarrow>
     str_of service ''name'' \<noteq> [] \<and> fold_equal (str_of service ''name'') candidate"

definition mark_failed_service :: "item list \<Rightarrow> string \<Rightarrow> string \<Rightarrow> failures \<Rightarrow> failures" where
  "mark_failed_service services msg candidate failed =
     (case find (names_service candidate) services of None \<Rightarrow> failed
      | Some service \<Rightarrow> put_absent msg (str_of service ''name'') failed)"

definition mentions :: "string \<Rightarrow> item \<Rightarrow> bool" where
  "mentions text service \<longleftrightarrow>
     str_of service ''name'' \<noteq> [] \<and> contains (to_lower text) (to_lower (str_of service ''name''))"

definition task_services :: "item list \<Rightarrow> string \<Rightarrow> string list \<Rightarrow> string list" where
  "task_services services line current =
     (case task_name line of None \<Rightarrow> current
      | Some task \<Rightarrow> map (\<lambda>s. str_of s ''name'') (filter (mentions task) services))"

definition legacy_failure :: "string \<Rightarrow> bool" where
  "legacy_failure line \<longleftrightarrow> contains line ''fatal:'' \<or> contains line ''failed:'' \<or> contains line ''FAILED!''"

definition legacy_round :: "item list \<Rightarrow> string list \<Rightarrow> string \<Rightarrow> failures \<Rightarrow> failures" where
  "legacy_round services current line failed =
     (if \<not> legacy_failure line then failed else
      fold (put_absent (clean_line line)) (map (\<lambda>s. str_of s ''name'') (filter (mentions line) services))
        (fold (put_absent (clean_line line)) current failed))"

definition openvox_round :: "item list \<Rightarrow> string \<Rightarrow> failures \<Rightarrow> failures" where
  "openvox_round services line failed =
     (if \<not> openvox_error line then failed else
      fold (mark_failed_service services (clean_line line)) (find_all exec_match line)
        (fold (mark_failed_service services (clean_line line)) (find_all resource_match line) failed))"

definition log_round :: "item list \<Rightarrow> string \<Rightarrow> failures \<times> string list \<Rightarrow> failures \<times> string list" where
  "log_round services line = (\<lambda>(failed, current).
     let current' = task_services services line current
     in (openvox_round services line (legacy_round services current' line failed), current'))"

definition parse_failed_services :: "string list \<Rightarrow> item list \<Rightarrow> failures" where
  "parse_failed_services lines services = fst (fold (log_round services) lines ([], []))"

section \<open>The service list\<close>

definition disabled :: "item \<Rightarrow> bool" where
  "disabled service \<longleftrightarrow> mget service ''enabled'' = Some (VBool False)"

definition service_row :: "item \<Rightarrow> item" where
  "service_row service =
     [(''name'', any_at service ''name''),
      (''domain'', if domain_of service = [] then VNil else VStr (domain_of service)),
      (''port'', any_at service ''port''), (''host'', any_at service ''host''),
      (''description'', VStr (str_of service ''description'')), (''icon'', VStr (str_of service ''icon'')),
      (''enabled'', VBool True),
      (''managed'', case mget service ''managed'' of Some v \<Rightarrow> v | None \<Rightarrow> VBool True)]"

definition service_list :: "item list \<Rightarrow> item list" where
  "service_list services = map service_row (filter (\<lambda>s. \<not> disabled s) services)"

section \<open>The first error of a service wins\<close>

text \<open>
  The reference: which services a line blames, given the services of the current task, and every
  line of a log with the services of the task it stands in.
\<close>

definition blames :: "item list \<Rightarrow> string list \<times> string \<Rightarrow> string \<Rightarrow> bool" where
  "blames services = (\<lambda>(current, line) n.
     legacy_failure line \<and> (n \<in> set current \<or> (\<exists>s \<in> set services. mentions line s \<and> str_of s ''name'' = n)) \<or>
     openvox_error line \<and> (\<exists>c \<in> set (find_all resource_match line @ find_all exec_match line).
       map_option (\<lambda>s. str_of s ''name'') (find (names_service c) services) = Some n))"

fun in_context :: "item list \<Rightarrow> string list \<Rightarrow> string list \<Rightarrow> (string list \<times> string) list" where
  "in_context services current [] = []"
| "in_context services current (line # ls) =
     (let c = task_services services line current in (c, line) # in_context services c ls)"

lemma fold_put_absent:
  "mget (fold (put_absent msg) ns failed) n =
     (case mget failed n of Some m \<Rightarrow> Some m | None \<Rightarrow> if n \<in> set ns then Some msg else None)"
  by (induction ns arbitrary: failed) (auto simp: put_absent_def split: option.split)

lemma fold_mark:
  "mget (fold (mark_failed_service services msg) cs failed) n =
     (case mget failed n of Some m \<Rightarrow> Some m
      | None \<Rightarrow> if \<exists>c \<in> set cs. map_option (\<lambda>s. str_of s ''name'') (find (names_service c) services) = Some n
                then Some msg else None)"
proof (induction cs arbitrary: failed)
  case (Cons c cs)
  show ?case
    by (simp add: Cons.IH) (auto simp: mark_failed_service_def put_absent_def split: option.splits)
qed (simp split: option.split)

lemma mentioned_names:
  "n \<in> set (map (\<lambda>s. str_of s ''name'') (filter (mentions line) services)) \<longleftrightarrow>
     (\<exists>s \<in> set services. mentions line s \<and> str_of s ''name'' = n)"
  by auto

text \<open>An update that keeps what is there, and two of them with the same value.\<close>

definition or_else :: "'a option \<Rightarrow> bool \<Rightarrow> 'a \<Rightarrow> 'a option" where
  "or_else old cond v = (case old of Some m \<Rightarrow> Some m | None \<Rightarrow> if cond then Some v else None)"

lemma or_else_simps [simp]:
  "or_else (Some m) c v = Some m" "or_else None c v = (if c then Some v else None)" "or_else old False v = old"
  "or_else (or_else old a v) b v = or_else old (a \<or> b) v"
  by (auto simp: or_else_def split: option.split)

lemmas fold_get = fold_put_absent [folded or_else_def] fold_mark [folded or_else_def]

lemma legacy_round_get:
  "mget (legacy_round services current line failed) n =
     or_else (mget failed n) (legacy_failure line \<and>
       (n \<in> set current \<or> (\<exists>s \<in> set services. mentions line s \<and> str_of s ''name'' = n))) (clean_line line)"
  by (cases "legacy_failure line") (simp_all only: legacy_round_def fold_get mentioned_names or_else_simps simp_thms if_True if_False)

lemma openvox_round_get:
  "mget (openvox_round services line failed) n =
     or_else (mget failed n) (openvox_error line \<and> (\<exists>c \<in> set (find_all resource_match line @ find_all exec_match line).
       map_option (\<lambda>s. str_of s ''name'') (find (names_service c) services) = Some n)) (clean_line line)"
  by (cases "openvox_error line")
    (simp_all only: openvox_round_def fold_get set_append bex_Un or_else_simps simp_thms if_True if_False)

lemma log_round_get:
  "mget (fst (log_round services line (failed, current))) n =
     or_else (mget failed n) (blames services (task_services services line current, line) n) (clean_line line)"
  by (simp only: log_round_def Let_def prod.case fst_conv legacy_round_get openvox_round_get blames_def or_else_simps)

lemma parse_get:
  "mget (fst (fold (log_round services) ls (failed, current))) n =
     (case mget failed n of Some m \<Rightarrow> Some m
      | None \<Rightarrow> map_option (\<lambda>(_, line). clean_line line)
                  (find (\<lambda>cl. blames services cl n) (in_context services current ls)))"
proof (induction ls arbitrary: failed current)
  case (Cons line ls)
  have c: "snd (log_round services line (failed, current)) = task_services services line current"
    by (simp add: log_round_def Let_def)
  obtain f' where f': "log_round services line (failed, current) = (f', task_services services line current)"
    using c by (cases "log_round services line (failed, current)") simp
  have "mget f' n = or_else (mget failed n) (blames services (task_services services line current, line) n) (clean_line line)"
    using log_round_get [of services line failed current n] f' by simp
  then show ?case by (simp add: f' Cons.IH Let_def or_else_def split: option.split)
qed (simp split: option.split)

text \<open>
  Claim C23. A service has the message of the first line that blames it.  A line blames the
  services of its task and those it mentions where it carries one of the three failure marks, and
  the services whose OpenVox resource it names where it is an error line; the service is reported
  under its name in the catalog with the cleaned line, no later line replaces it, and a service no
  line blames is not reported.
\<close>

theorem first_error_exact:
  "mget (parse_failed_services lines services) n =
     map_option (\<lambda>(_, line). clean_line line) (find (\<lambda>cl. blames services cl n) (in_context services [] lines))"
  by (simp add: parse_failed_services_def parse_get)

lemma in_context_line: "line \<in> set ls \<Longrightarrow> \<exists>c. (c, line) \<in> set (in_context services current ls)"
  by (induction services current ls rule: in_context.induct) (auto simp: Let_def)

lemma in_context_lines: "snd ` set (in_context services current ls) = set ls"
  by (induction services current ls rule: in_context.induct) (auto simp: Let_def)

lemma task_services_names:
  "set current \<subseteq> N \<Longrightarrow> (\<lambda>s. str_of s ''name'') ` set services \<inter> {n. n \<noteq> []} \<subseteq> N \<Longrightarrow>
   set (task_services services line current) \<subseteq> N"
  by (auto simp: task_services_def mentions_def split: option.splits)

lemma in_context_names:
  "(c, line) \<in> set (in_context services current ls) \<Longrightarrow> set current \<subseteq> N \<Longrightarrow>
   (\<lambda>s. str_of s ''name'') ` set services \<inter> {n. n \<noteq> []} \<subseteq> N \<Longrightarrow> set c \<subseteq> N"
proof (induction services current ls arbitrary: c line rule: in_context.induct)
  case (2 services current l ls)
  then show ?case using task_services_names [of current N services l] by (auto simp: Let_def)
qed simp

text \<open>Only services of the catalog are reported, with a line of the log.\<close>

lemma failed_in_catalog:
  assumes "mget (parse_failed_services lines services) n = Some msg"
  shows "n \<noteq> [] \<and> (\<exists>s \<in> set services. str_of s ''name'' = n) \<and> (\<exists>line \<in> set lines. msg = clean_line line)"
proof -
  let ?N = "(\<lambda>s. str_of s ''name'') ` set services \<inter> {n. n \<noteq> []}"
  from assms obtain c line where f: "find (\<lambda>cl. blames services cl n) (in_context services [] lines) = Some (c, line)"
    "msg = clean_line line" by (auto simp: first_error_exact)
  then have b: "(c, line) \<in> set (in_context services [] lines)" "blames services (c, line) n"
    by (auto dest: find_SomeD)
  have "set c \<subseteq> ?N" by (rule in_context_names [OF b(1)]) auto
  moreover have "line \<in> set lines" using b(1) in_context_lines [of services "[]" lines] by force
  ultimately show ?thesis
    using b(2) f(2) by (auto simp: blames_def mentions_def names_service_def dest: find_SomeD)
qed

lemma contains_trans: "contains a b \<Longrightarrow> contains b c \<Longrightarrow> contains a c"
  by (auto simp: contains_sublist intro: sublist_order.order.trans)


definition exporters :: "item list" where
  "exporters = [[(''name'', VStr ''smartctl-exporter''), (''host'', VStr ''ugreen'')],
                [(''name'', VStr ''smartctl-exporter-nuc''), (''host'', VStr ''nuc'')]]"

definition exporter_error :: string where
  "exporter_error = ''Error: Exec[services-smartctl-exporter-nuc-deploy]/returns: failed: 1''"


end
