(* ===== verification/DS_Page.thy ===== *)
theory DS_Page
  imports DS_Status Go_Duration
begin

text \<open>
  What the deployment page shows, \<^verbatim>\<open>GenerateHTML\<close> of \<^verbatim>\<open>src/tools/internal/deploystatus/page.go\<close>: the
  figures, the failed services, one section per host and one row per deployment, as the values the
  HTML templates are filled with.  The text of the templates is left out.
\<close>

section \<open>Formatting\<close>

definition format_duration :: "int \<Rightarrow> string" where
  "format_duration seconds =
     (if seconds < 60 then int_str seconds @ ''s'' else
      let mins = go_div seconds 60; secs = go_mod seconds 60
      in if mins < 60 then int_str mins @ ''m '' @ int_str secs @ ''s''
         else int_str (go_div mins 60) @ ''h '' @ int_str (go_mod mins 60) @ ''m'')"

definition replace_first :: "char \<Rightarrow> string \<Rightarrow> string \<Rightarrow> string" where
  \<comment> \<open>\<^verbatim>\<open>strings.Replace(s, old, new, 1)\<close> for one character\<close>
  "replace_first c new s = (case cut_char c s of None \<Rightarrow> s | Some (a, b) \<Rightarrow> a @ new @ b)"

definition seconds_float :: "int \<Rightarrow> f64" where
  \<comment> \<open>\<^verbatim>\<open>Duration.Seconds\<close>\<close>
  "seconds_float d =
     f_add (f_of_int (go_div d 1000000000)) (f_div (f_of_int (go_mod d 1000000000)) (f_num 1000000000))"

definition month_names :: "string list" where
  "month_names = [''Jan'', ''Feb'', ''Mar'', ''Apr'', ''May'', ''Jun'', ''Jul'', ''Aug'', ''Sep'', ''Oct'', ''Nov'', ''Dec'']"

definition fmt_long_date :: "gtime \<Rightarrow> string" where
  \<comment> \<open>\<open>Jan 02, 2006\<close>\<close>
  "fmt_long_date t =
     (let (y, m, d) = civil_of_days (local_sec t div 86400)
      in month_names ! nat (m - 1) @ '' '' @ pad2 d @ '', '' @ pad_zeros 4 (int_str y))"

definition parse_offset_time :: "string \<Rightarrow> gtime option" where
  \<comment> \<open>the layout \<open>2006-01-02T15:04:05-07:00\<close>; a \<open>Z\<close> is no offset in it\<close>
  "parse_offset_time s = do {
     (sec, ns, r) \<leftarrow> parse_stamp s;
     off \<leftarrow> (if r = ''Z'' then None else zone_suffix r);
     Some \<lparr>t_ns = (sec - off) * 10 ^ 9 + ns, t_zone = (\<lambda>_. off)\<rparr> }"

definition format_relative_time :: "gtime \<Rightarrow> string \<Rightarrow> string" where
  "format_relative_time now timestamp =
     (if timestamp = [] then ''Never'' else
      case parse_offset_time (replace_first CHR ''Z'' ''+00:00'' timestamp) of
        None \<Rightarrow> (if 10 \<le> length timestamp then take 10 timestamp else timestamp)
      | Some dt \<Rightarrow>
          let diff = t_sub now dt;
              days = f_to_int64 (f_div (hours diff) (f_num 24));
              rest = f_to_int64 (seconds_float diff) - days * 86400
          in if 30 < days then fmt_long_date dt
             else if 0 < days then int_str days @ ''d ago''
             else if 3600 < rest then int_str (go_div rest 3600) @ ''h ago''
             else if 60 < rest then int_str (go_div rest 60) @ ''m ago''
             else ''just now'')"

definition icon_class :: "string \<Rightarrow> string" where
  "icon_class icon = or_text icon ''mdi:application''"

definition esc :: "string \<Rightarrow> string" where
  \<comment> \<open>\<^verbatim>\<open>html.EscapeString\<close>\<close>
  "esc s = concat (map (\<lambda>c.
     if c = CHR ''&'' then ''&amp;'' else if c = CHR ''<'' then ''&lt;'' else if c = CHR ''>'' then ''&gt;''
     else if c = CHR 0x27 then ''&#39;'' else if c = CHR 0x22 then ''&#34;'' else [c]) s)"

definition flag_of :: "item \<Rightarrow> string \<Rightarrow> bool" where
  "flag_of m key \<longleftrightarrow> mget m key = Some (VBool True)"

definition num_as_int :: "any \<Rightarrow> int" where
  "num_as_int v = (case v of VF64 x \<Rightarrow> f_to_int64 x | VInt i \<Rightarrow> i | _ \<Rightarrow> 0)"

definition items_of :: "any \<Rightarrow> item list" where
  \<comment> \<open>\<^verbatim>\<open>list\<close>: the elements that are maps\<close>
  "items_of v = (case v of VList xs \<Rightarrow> concat (map (\<lambda>x. case x of VMap m \<Rightarrow> [m] | _ \<Rightarrow> []) xs) | _ \<Rightarrow> [])"

section \<open>The figures\<close>

definition recent_of :: "item list \<Rightarrow> item list" where
  "recent_of deployments = take 100 deployments"

definition success_rate :: "item list \<Rightarrow> f64" where
  "success_rate recent =
     (if recent = [] then f_zero else
      f_mul (f_div (f_of_int (int (length (filter (\<lambda>d. str_of d ''status'' = ''success'') recent))))
                   (f_of_int (int (length recent)))) (f_num 100))"

definition durations :: "item list \<Rightarrow> int list" where
  "durations recent = filter (\<lambda>n. n \<noteq> 0) (map (\<lambda>d. num_as_int (any_at d ''duration_seconds'')) recent)"

definition average_duration :: "item list \<Rightarrow> int" where
  "average_duration recent =
     (let ns = durations recent in if ns = [] then 0 else go_div (sum_list ns) (int (length ns)))"

definition last_status :: "item list \<Rightarrow> string" where
  "last_status deployments = (case deployments of [] \<Rightarrow> ''none'' | d # _ \<Rightarrow> or_text (str_of d ''status'') ''none'')"

definition status_color :: "string \<Rightarrow> string" where
  "status_color status =
     (if status = ''success'' then ''text-emerald-400''
      else if status = ''failed'' then ''text-red-400'' else ''text-slate-400'')"

definition failed_of :: "item \<Rightarrow> item list" where
  "failed_of d = filter (\<lambda>s. str_of s ''status'' = ''failed'') (items_of (any_at d ''services''))"

record failed_row =
  fr_name :: string
  fr_host :: string
  fr_error :: string

definition failed_row_of :: "item \<Rightarrow> failed_row" where
  "failed_row_of s =
     \<lparr>fr_name = esc (or_text (str_of s ''name'') ''Unknown''), fr_host = esc (or_text (str_of s ''host'') ''unknown''),
      fr_error = esc (truncate_runes 300 (or_text (str_of s ''error'') ''No error details available''))\<rparr>"

section \<open>The services of each host\<close>

definition service_host :: "item \<Rightarrow> string" where
  "service_host svc = or_text (str_of svc ''host'') ''unknown''"

definition append_service :: "item \<Rightarrow> (string, item list) gmap \<Rightarrow> (string, item list) gmap" where
  "append_service svc m =
     mput (service_host svc) ((case mget m (service_host svc) of Some l \<Rightarrow> l | None \<Rightarrow> []) @ [svc]) m"

definition services_by_host :: "item list \<Rightarrow> (string, item list) gmap" where
  "services_by_host services = fold append_service services []"

definition host_order :: "string list" where
  "host_order = [''mljr'', ''nuc'', ''nas'', ''pi'', ''monitoring'']"

definition host_label :: "string \<Rightarrow> string" where
  "host_label host =
     (if host = ''mljr'' then ''Production Server (mljr)'' else if host = ''nuc'' then ''Staging Server (nuc)''
      else if host = ''nas'' then ''NAS (Unraid)'' else if host = ''pi'' then ''Raspberry Pi''
      else if host = ''monitoring'' then ''Monitoring Host'' else host)"

record service_card =
  sc_link_class :: string
  sc_url :: string \<comment> \<open>empty where there is no link\<close>
  sc_icon :: string
  sc_name :: string
  sc_domain :: string
  sc_description :: string

definition service_card_of :: "item \<Rightarrow> service_card" where
  "service_card_of svc =
     (let domain = domain_of svc; url = (if domain \<noteq> [] then ''https://'' @ domain else [])
      in \<lparr>sc_link_class = (if url \<noteq> [] then ''hover:bg-slate-700/50 cursor-pointer'' else ''opacity-60''),
          sc_url = url, sc_icon = icon_class (str_of svc ''icon''),
          sc_name = esc (or_text (str_of svc ''name'') ''Unknown''), sc_domain = or_text domain ''Internal service'',
          sc_description = esc (truncate_runes 60 (str_of svc ''description''))\<rparr>)"

record host_section =
  ho_label :: string
  ho_count :: nat
  ho_cards :: "service_card list"

definition host_section_of :: "string \<Rightarrow> item list \<Rightarrow> host_section" where
  \<comment> \<open>services of equal name may come in any order; the order chosen here is that of the list\<close>
  "host_section_of host services =
     \<lparr>ho_label = host_label host, ho_count = length services,
      ho_cards = map service_card_of (sort_key (\<lambda>s. str_of s ''name'') services)\<rparr>"

definition host_sections :: "item list \<Rightarrow> host_section list" where
  "host_sections services =
     (let by_host = services_by_host services
      in concat (map (\<lambda>h. case mget by_host h of None \<Rightarrow> [] | Some l \<Rightarrow> [host_section_of h l]) host_order))"

section \<open>The rows of the deployments\<close>

datatype row_link = RunLink string | LogLink string | LocalLink

record deployment_row =
  dr_success :: bool \<comment> \<open>the icon and its colour\<close>
  dr_relative :: string
  dr_timestamp :: string
  dr_duration :: string
  dr_branch :: string
  dr_commit :: string
  dr_actor :: string
  dr_ok :: int
  dr_failed :: int
  dr_total :: int
  dr_dry_run :: bool
  dr_staging :: bool
  dr_links :: "row_link list" \<comment> \<open>a dash where there is none\<close>
  dr_failures :: "(string \<times> string) list" \<comment> \<open>name and error; the row expands where there is one\<close>

definition show_stamp :: "string \<Rightarrow> string" where
  "show_stamp timestamp = (if timestamp = [] then [] else replace_first CHR ''T'' '' '' (truncate_runes 19 timestamp))"

definition row_links :: "item \<Rightarrow> row_link list" where
  "row_links dep =
     (let run_url = esc (str_of dep ''run_url''); artifact = esc (str_of dep ''log_artifact'');
          links = (if run_url \<noteq> [] then [RunLink run_url] else []) @ (if artifact \<noteq> [] then [LogLink artifact] else [])
      in if links = [] \<and> str_of dep ''trigger'' = ''local'' then [LocalLink] else links)"

definition summary_of :: "item \<Rightarrow> item" where
  "summary_of dep = (case as_map (mget dep ''summary'') of Some m \<Rightarrow> m | None \<Rightarrow> [])"

definition deployment_row_of :: "gtime \<Rightarrow> item \<Rightarrow> deployment_row" where
  "deployment_row_of now dep =
     (let timestamp = str_of dep ''timestamp''; summ = summary_of dep;
          oks = num_as_int (any_at summ ''ok''); fails = num_as_int (any_at summ ''failed'')
      in \<lparr>dr_success = (or_text (str_of dep ''status'') ''unknown'' = ''success''),
          dr_relative = format_relative_time now timestamp, dr_timestamp = show_stamp timestamp,
          dr_duration = format_duration (num_as_int (any_at dep ''duration_seconds'')),
          dr_branch = esc (or_text (str_of dep ''branch'') ''unknown''), dr_commit = esc (truncate_runes 7 (str_of dep ''commit_sha'')),
          dr_actor = esc (or_text (str_of dep ''actor'') ''unknown''),
          dr_ok = oks, dr_failed = fails,
          dr_total = (case mget summ ''total_services'' of Some v \<Rightarrow> num_as_int v | None \<Rightarrow> oks + fails),
          dr_dry_run = flag_of dep ''check_mode'', dr_staging = flag_of dep ''is_staging'', dr_links = row_links dep,
          dr_failures = map (\<lambda>s. (esc (or_text (str_of s ''name'') ''Unknown''),
                                  esc (truncate_runes 200 (or_text (str_of s ''error'') ''No details'')))) (failed_of dep)\<rparr>)"

record deploy_page =
  pg_last_updated :: string
  pg_deployments :: nat
  pg_rate_class :: string
  pg_rate :: f64
  pg_average :: string
  pg_status_class :: string
  pg_status_title :: string
  pg_last_relative :: string
  pg_failed :: "failed_row list"
  pg_rows :: "deployment_row list"
  pg_sections :: "host_section list"
  pg_script_deployments :: "item list" \<comment> \<open>as JSON in the script of the page\<close>
  pg_script_services :: "item list"

definition deploy_page_of :: "gtime \<Rightarrow> item \<Rightarrow> deploy_page" where
  "deploy_page_of now data =
     (let deployments = items_of (any_at data ''deployments''); services = items_of (any_at data ''services'');
          recent = recent_of deployments; rate = success_rate recent; status = last_status deployments
      in \<lparr>pg_last_updated = (if str_of data ''last_updated'' = [] then ''Never'' else show_stamp (str_of data ''last_updated'')),
          pg_deployments = length deployments,
          pg_rate_class = status_color (if f_ge rate (f_num 80) then ''success'' else ''failed''), pg_rate = rate,
          pg_average = format_duration (average_duration recent),
          pg_status_class = status_color status,
          pg_status_title = (if status \<noteq> [] \<and> status \<noteq> ''none'' then upper_first status else ''None''),
          pg_last_relative = (case deployments of [] \<Rightarrow> ''Never'' | d # _ \<Rightarrow> format_relative_time now (str_of d ''timestamp'')),
          pg_failed = (case deployments of [] \<Rightarrow> [] | d # _ \<Rightarrow> map failed_row_of (failed_of d)),
          pg_rows = map (deployment_row_of now) (take 15 deployments),
          pg_sections = host_sections services,
          pg_script_deployments = take 200 deployments, pg_script_services = services\<rparr>)"

section \<open>Which services the page shows\<close>

lemma append_service_get:
  "mget (append_service svc m) h =
     (if h = service_host svc then Some ((case mget m h of Some l \<Rightarrow> l | None \<Rightarrow> []) @ [svc]) else mget m h)"
  by (simp add: append_service_def)

lemma services_by_host_get:
  "mget (services_by_host services) h =
     (let l = filter (\<lambda>s. service_host s = h) services in if l = [] then None else Some l)"
proof (induction services rule: rev_induct)
  case (snoc s services)
  then show ?case by (auto simp: services_by_host_def append_service_get Let_def split: if_splits)
qed (simp add: services_by_host_def)

text \<open>
  The page shows exactly the services of five hosts.  The sections follow the fixed
  order of the hosts, each host with a service has one section, and a section holds all services of
  its host, sorted by name.  So the cards of the page are the services on \<open>mljr\<close>, \<open>nuc\<close>, \<open>nas\<close>,
  \<open>pi\<close> and \<open>monitoring\<close>, and a service of any other host, or of none, which the code files under
  \<open>unknown\<close>, is on no card, although it is counted and checked like every other.
\<close>

theorem page_sections_exact:
  "map (\<lambda>s. (ho_label s, ho_count s)) (host_sections services) =
     concat (map (\<lambda>h. let n = length (filter (\<lambda>s. service_host s = h) services)
                      in if n = 0 then [] else [(host_label h, n)]) host_order) \<and>
   mset (concat (map ho_cards (host_sections services))) =
     image_mset service_card_of (filter_mset (\<lambda>s. service_host s \<in> set host_order) (mset services)) \<and>
   list_all (\<lambda>s. ho_count s = length (ho_cards s) \<and> ho_count s \<noteq> 0) (host_sections services)"
proof -
  let ?of = "\<lambda>h. filter (\<lambda>s. service_host s = h) services"
  have sections: "host_sections services =
      concat (map (\<lambda>h. if ?of h = [] then [] else [host_section_of h (?of h)]) host_order)"
    unfolding host_sections_def Let_def services_by_host_get
    by (intro arg_cong [where f = concat] map_cong refl) simp
  have cards: "mset (concat (map ho_cards (concat (map (\<lambda>h. if ?of h = [] then [] else [host_section_of h (?of h)]) hs)))) =
      image_mset service_card_of (filter_mset (\<lambda>s. service_host s \<in> set hs) (mset services))" if "distinct hs" for hs
    using that
  proof (induction hs)
    case (Cons h hs)
    have "filter_mset (\<lambda>s. service_host s \<in> set (h # hs)) (mset services) =
        filter_mset (\<lambda>s. service_host s = h) (mset services) + filter_mset (\<lambda>s. service_host s \<in> set hs) (mset services)"
      using Cons.prems by (induction services) auto
    moreover have "mset (ho_cards (host_section_of h (?of h))) = image_mset service_card_of (filter_mset (\<lambda>s. service_host s = h) (mset services))"
      by (simp add: host_section_of_def)
    ultimately show ?case using Cons by (auto simp: filter_empty_conv)
  qed simp
  have "distinct host_order" by (simp add: host_order_def)
  from cards [OF this] show ?thesis
    by (auto simp: sections map_concat comp_def host_section_of_def Let_def list_all_iff if_distrib filter_empty_conv
        intro!: arg_cong [where f = concat] map_cong split: if_splits)
qed

end
