(* ===== verification/DS_Main.thy ===== *)
theory DS_Main
  imports DS_Page
begin

text \<open>
  The program that adds a deployment to the history and renders the page,
  \<^verbatim>\<open>src/tools/cmd/build-deploy-status/main.go\<close>.  Files, JSON and the clock are a record of
  functions.
\<close>

section \<open>Helpers\<close>

definition cut_bytes :: "nat \<Rightarrow> string \<Rightarrow> string" where
  \<comment> \<open>\<^verbatim>\<open>truncate\<close> of the program counts bytes, that of the page runes\<close>
  "cut_bytes n s = (if length s \<le> n then s else take n s)"

definition split_lines :: "string \<Rightarrow> string list" where
  "split_lines s =
     (let ps = split_char CHR 0x0A s in if last ps = [] then butlast ps else ps)"

definition dir_of :: "string \<Rightarrow> string" where
  "dir_of path =
     (if CHR ''/'' \<in> set path then rev (tl (dropWhile (\<lambda>c. c \<noteq> CHR ''/'') (rev path))) else ''.'')"

definition or_any :: "any \<Rightarrow> string \<Rightarrow> any" where
  "or_any v dflt = (if v = VNil \<or> v = VStr [] then VStr dflt else v)"

section \<open>The world and the flags\<close>

record deploy_flags =
  existing_json :: string
  services_json :: string
  deploy_log :: string
  output_json :: string
  output_html :: string
  start_time :: string
  duration_seconds :: int
  deploy_status :: string
  trigger :: string
  branch :: string
  commit_sha :: string
  commit_message :: string
  actor :: string
  check_mode :: bool
  is_staging :: bool
  limit_hosts :: string
  limit_tags :: string
  run_url :: string
  log_artifact :: string
  targeted_service :: string
  target_environment :: string

datatype deploy_op = MkJsonDir | MkHtmlDir | WriteJson | WriteHtml

record deploy_world =
  dw_read :: "string \<Rightarrow> string option"
  dw_array :: "string \<Rightarrow> item list option" \<comment> \<open>decoding an array of objects\<close>
  dw_object :: "string \<Rightarrow> item option"
  dw_now :: gtime
  dw_marshal :: "item \<Rightarrow> string option"
  dw_html :: "deploy_page \<Rightarrow> string option"
  dw_ok :: "deploy_op \<Rightarrow> bool"
  dw_torn :: "deploy_op \<Rightarrow> string option \<Rightarrow> string option" \<comment> \<open>what a failed write leaves of a file\<close>

definition load_array :: "deploy_world \<Rightarrow> string \<Rightarrow> item list" where
  "load_array w path =
     (case dw_read w path of None \<Rightarrow> []
      | Some raw \<Rightarrow> if raw = [] then [] else (case dw_array w raw of None \<Rightarrow> [] | Some l \<Rightarrow> l))"

definition no_history :: item where
  "no_history = [(''deployments'', VList []), (''services'', VList []), (''last_updated'', VStr [])]"

definition load_object :: "deploy_world \<Rightarrow> string \<Rightarrow> item \<Rightarrow> item" where
  "load_object w path dflt =
     (case dw_read w path of None \<Rightarrow> dflt
      | Some raw \<Rightarrow> if raw = [] then dflt else (case dw_object w raw of None \<Rightarrow> dflt | Some m \<Rightarrow> m))"

definition required :: "deploy_flags \<Rightarrow> string list" where
  "required fl =
     [existing_json fl, services_json fl, deploy_log fl, output_json fl, output_html fl, start_time fl,
      deploy_status fl, trigger fl, branch fl, actor fl]"

section \<open>The new entry of the history\<close>

definition service_result :: "failures \<Rightarrow> item \<Rightarrow> item" where
  "service_result failed service =
     (let name = str_of service ''name''
      in [(''name'', VStr name), (''host'', or_any (any_at service ''host'') ''unknown'')] @
         (case mget failed name of None \<Rightarrow> [(''status'', VStr ''ok'')]
          | Some msg \<Rightarrow> [(''status'', VStr ''failed''), (''error'', VStr msg)]))"

definition service_results :: "failures \<Rightarrow> item list \<Rightarrow> item list" where
  "service_results failed services = map (service_result failed) (filter (\<lambda>s. \<not> disabled s) services)"

definition result_ok :: "item \<Rightarrow> bool" where
  "result_ok r \<longleftrightarrow> mget r ''status'' = Some (VStr ''ok'')"

definition deploy_summary :: "item list \<Rightarrow> item" where
  "deploy_summary results =
     [(''total_services'', VInt (int (length results))),
      (''ok'', VInt (int (length (filter result_ok results)))),
      (''failed'', VInt (int (length (filter (\<lambda>r. \<not> result_ok r) results))))]"

definition deployment_of :: "deploy_flags \<Rightarrow> item list \<Rightarrow> item" where
  "deployment_of fl results =
     (let short = cut_bytes 7 (commit_sha fl) in
      [(''id'', VStr (start_time fl @ ''-'' @ short)), (''timestamp'', VStr (start_time fl)),
       (''duration_seconds'', VInt (duration_seconds fl)), (''status'', VStr (deploy_status fl)),
       (''trigger'', VStr (trigger fl)), (''branch'', VStr (branch fl)), (''commit_sha'', VStr short),
       (''commit_message'', VStr (cut_bytes 100 (commit_message fl))), (''actor'', VStr (actor fl)),
       (''check_mode'', VBool (check_mode fl)), (''is_staging'', VBool (is_staging fl)),
       (''limit'', VStr (limit_hosts fl)), (''tags'', VStr (limit_tags fl)), (''run_url'', VStr (run_url fl)),
       (''log_artifact'', VStr (log_artifact fl)), (''services'', VList (map VMap results)),
       (''summary'', VMap (deploy_summary results))] @
      (if targeted_service fl \<noteq> [] then [(''targeted_service'', VStr (targeted_service fl))] else []) @
      (if target_environment fl \<noteq> [] then [(''target_environment'', VStr (target_environment fl))] else []))"

definition deploy_data :: "deploy_world \<Rightarrow> deploy_flags \<Rightarrow> item" where
  "deploy_data w fl =
     (let services = load_array w (services_json fl);
          existing = load_object w (existing_json fl) no_history;
          log_lines = (case dw_read w (deploy_log fl) of Some raw \<Rightarrow> split_lines raw | None \<Rightarrow> []);
          failed = parse_failed_services log_lines services;
          deployment = deployment_of fl (service_results failed services);
          u = dw_now w\<lparr>t_zone := utc\<rparr>
      in [(''deployments'', VList (map VMap (take 500 (deployment # items_of (any_at existing ''deployments''))))),
          (''services'', VList (map VMap (service_list services))),
          (''last_updated'', VStr (fmt_minute u @ '':'' @ pad2 (local_sec u mod 60) @ ''Z''))])"

record deploy_files =
  df_json :: "string option"
  df_html :: "string option"

definition made_dir :: "deploy_world \<Rightarrow> deploy_op \<Rightarrow> string \<Rightarrow> bool" where
  \<comment> \<open>\<^verbatim>\<open>os.MkdirAll\<close> of the empty path is an error\<close>
  "made_dir w op path \<longleftrightarrow> dir_of path \<noteq> [] \<and> dw_ok w op"

definition deploy_main :: "deploy_world \<Rightarrow> deploy_flags \<Rightarrow> deploy_files \<Rightarrow> nat \<times> deploy_files" where
  \<comment> \<open>the exit code and the output files\<close>
  "deploy_main w fl fs =
     (if [] \<in> set (required fl) then (1, fs) else
      let data = deploy_data w fl in
      if \<not> made_dir w MkJsonDir (output_json fl) then (1, fs) else
      if \<not> made_dir w MkHtmlDir (output_html fl) then (1, fs) else
      case dw_marshal w data of None \<Rightarrow> (1, fs)
      | Some text \<Rightarrow>
          if \<not> dw_ok w WriteJson then (1, fs\<lparr>df_json := dw_torn w WriteJson (df_json fs)\<rparr>) else
          let fs1 = fs\<lparr>df_json := Some text\<rparr> in
          case dw_html w (deploy_page_of (dw_now w) data) of None \<Rightarrow> (1, fs1)
          | Some html \<Rightarrow>
              if \<not> dw_ok w WriteHtml then (1, fs1\<lparr>df_html := dw_torn w WriteHtml (df_html fs1)\<rparr>)
              else (0, fs1\<lparr>df_html := Some html\<rparr>))"

section \<open>The history a run leaves\<close>

lemma items_of_maps [simp]: "items_of (VList (map VMap ms)) = ms"
  by (induction ms) (simp_all add: items_of_def)

lemma items_of_image [simp]: "items_of (VList (map (\<lambda>x. VMap (f x)) xs)) = map f xs"
  using items_of_maps [of "map f xs"] by (simp add: comp_def)

lemma items_of_more [simp]: "items_of (VList (VMap m # map VMap ms)) = m # ms"
  using items_of_maps [of "m # ms"] by simp

lemma deploy_data_fields:
  "any_at (deploy_data w fl) ''deployments'' = VList (map VMap (take 500
     (deployment_of fl (service_results (parse_failed_services
        (case dw_read w (deploy_log fl) of Some raw \<Rightarrow> split_lines raw | None \<Rightarrow> []) (load_array w (services_json fl)))
        (load_array w (services_json fl))) #
      items_of (any_at (load_object w (existing_json fl) no_history) ''deployments''))))"
  "any_at (deploy_data w fl) ''services'' = VList (map VMap (service_list (load_array w (services_json fl))))"
  by (simp_all add: deploy_data_def Let_def)

lemma deployment_fields:
  "any_at (deployment_of fl results) ''services'' = VList (map VMap results)"
  "any_at (deployment_of fl results) ''summary'' = VMap (deploy_summary results)"
  by (simp_all add: deployment_of_def Let_def)

lemma result_fields:
  "str_of (service_result failed s) ''name'' = str_of s ''name''"
  "str_of (service_result failed s) ''status'' = (if mget failed (str_of s ''name'') = None then ''ok'' else ''failed'')"
  "result_ok (service_result failed s) \<longleftrightarrow> mget failed (str_of s ''name'') = None"
  by (auto simp: service_result_def str_of_def as_str_def result_ok_def Let_def split: option.split)

text \<open>
  Claim C25. A completed run adds itself to the history and nothing else.  The JSON file holds the
  new deployment before the deployments the old file had, cut to 500; the new deployment lists
  every enabled service of the catalog once and in order, as \<open>failed\<close> exactly when the log blames
  it; and the three numbers of its summary are the services, the good ones and the failed ones.
  When the old file is missing or cannot be decoded, the run completes all the same and the history
  is this deployment alone: the damaged file is replaced.
\<close>

theorem deploy_history_exact:
  assumes "deploy_main w fl fs = (0, fs')"
  shows "let services = filter (\<lambda>s. \<not> disabled s) (load_array w (services_json fl));
      failed = parse_failed_services (case dw_read w (deploy_log fl) of Some raw \<Rightarrow> split_lines raw | None \<Rightarrow> [])
                 (load_array w (services_json fl));
      old = (case Option.bind (dw_read w (existing_json fl)) (\<lambda>raw. if raw = [] then None else dw_object w raw) of
               Some m \<Rightarrow> items_of (any_at m ''deployments'') | None \<Rightarrow> [])
    in \<exists>data d. df_json fs' = dw_marshal w data \<and> items_of (any_at data ''deployments'') = d # take 499 old \<and>
        map (\<lambda>r. (str_of r ''name'', str_of r ''status'')) (items_of (any_at d ''services'')) =
          map (\<lambda>s. (str_of s ''name'', if mget failed (str_of s ''name'') = None then ''ok'' else ''failed'')) services \<and>
        (let bad = length (filter (\<lambda>s. mget failed (str_of s ''name'') \<noteq> None) services) in
           any_at d ''summary'' = VMap [(''total_services'', VInt (int (length services))),
             (''ok'', VInt (int (length services - bad))), (''failed'', VInt (int bad))])"
proof -
  define services where "services = filter (\<lambda>s. \<not> disabled s) (load_array w (services_json fl))"
  define failed where "failed = parse_failed_services
      (case dw_read w (deploy_log fl) of Some raw \<Rightarrow> split_lines raw | None \<Rightarrow> []) (load_array w (services_json fl))"
  define old where "old = (case Option.bind (dw_read w (existing_json fl)) (\<lambda>raw. if raw = [] then None else dw_object w raw) of
      Some m \<Rightarrow> items_of (any_at m ''deployments'') | None \<Rightarrow> [])"
  define d where "d = deployment_of fl (service_results failed (load_array w (services_json fl)))"
  have res: "service_results failed (load_array w (services_json fl)) = map (service_result failed) services"
    by (simp add: service_results_def services_def)
  have "df_json fs' = dw_marshal w (deploy_data w fl)"
    using assms by (auto simp: deploy_main_def Let_def split: if_splits option.splits)
  moreover have "items_of (any_at (load_object w (existing_json fl) no_history) ''deployments'') = old"
    by (auto simp: load_object_def old_def no_history_def items_of_def split: option.split)
  then have "items_of (any_at (deploy_data w fl) ''deployments'') = d # take 499 old"
    unfolding deploy_data_fields d_def failed_def by simp
  moreover have "map (\<lambda>r. (str_of r ''name'', str_of r ''status'')) (items_of (any_at d ''services'')) =
      map (\<lambda>s. (str_of s ''name'', if mget failed (str_of s ''name'') = None then ''ok'' else ''failed'')) services"
    by (simp add: d_def deployment_fields res result_fields comp_def)
  moreover have "any_at d ''summary'' = VMap [(''total_services'', VInt (int (length services))),
      (''ok'', VInt (int (length services - length (filter (\<lambda>s. mget failed (str_of s ''name'') \<noteq> None) services)))),
      (''failed'', VInt (int (length (filter (\<lambda>s. mget failed (str_of s ''name'') \<noteq> None) services))))]"
    using sum_length_filter_compl [of "\<lambda>s. mget failed (str_of s ''name'') \<noteq> None" services]
    by (simp add: d_def deployment_fields res deploy_summary_def filter_map comp_def result_fields)
  ultimately show ?thesis
    unfolding Let_def services_def [symmetric] failed_def [symmetric] old_def [symmetric] by blast
qed


text \<open>A history whose file is damaged, and a log that blames one of two services.\<close>

definition sample_flags :: deploy_flags where
  "sample_flags =
     \<lparr>existing_json = ''/d/old.json'', services_json = ''/d/services.json'', deploy_log = ''/d/log'',
      output_json = ''/d/status.json'', output_html = ''/d/index.html'', start_time = ''2026-01-01T00:00:00Z'',
      duration_seconds = 61, deploy_status = ''failed'', trigger = ''push'', branch = ''main'', commit_sha = ''0123456789'',
      commit_message = [], actor = ''m'', check_mode = False, is_staging = False, limit_hosts = ''all'',
      limit_tags = ''all'', run_url = [], log_artifact = [], targeted_service = [], target_environment = []\<rparr>"

definition sample_services :: "item list" where
  "sample_services = [[(''name'', VStr ''immich''), (''host'', VStr ''nas'')], [(''name'', VStr ''kuma''), (''host'', VStr ''nuc'')]]"

definition sample_deploy_world :: deploy_world where
  "sample_deploy_world =
     \<lparr>dw_read = (\<lambda>p. if p = ''/d/log'' then Some ''immich failed: 1'' else Some ''x''),
      dw_array = (\<lambda>_. Some sample_services), dw_object = (\<lambda>_. None), dw_now = \<lparr>t_ns = 0, t_zone = utc\<rparr>,
      dw_marshal = (\<lambda>m. Some (sprint (VMap m))), dw_html = (\<lambda>_. Some ''<html>''), dw_ok = (\<lambda>_. True), dw_torn = (\<lambda>_ c. c)\<rparr>"

theorem deploy_history_exact_witness:
  "\<exists>fs' data d. deploy_main sample_deploy_world sample_flags \<lparr>df_json = None, df_html = None\<rparr> = (0, fs') \<and>
     df_json fs' = Some (sprint (VMap data)) \<and> items_of (any_at data ''deployments'') = [d] \<and>
     map (\<lambda>r. (str_of r ''name'', str_of r ''status'')) (items_of (any_at d ''services'')) =
       [(''immich'', ''failed''), (''kuma'', ''ok'')]"
proof -
  let ?w = sample_deploy_world and ?fl = sample_flags
  obtain fs' where fs': "deploy_main ?w ?fl \<lparr>df_json = None, df_html = None\<rparr> = (0, fs')"
    by (simp add: deploy_main_def Let_def required_def made_dir_def dir_of_def sample_flags_def sample_deploy_world_def)
  have services: "filter (\<lambda>s. \<not> disabled s) sample_services = sample_services"
    "load_array ?w (services_json ?fl) = sample_services"
    by (simp_all add: load_array_def sample_deploy_world_def sample_flags_def sample_services_def disabled_def)
  have log: "(case dw_read ?w (deploy_log ?fl) of Some raw \<Rightarrow> split_lines raw | None \<Rightarrow> []) = [''immich failed: 1'']"
    by (simp add: sample_deploy_world_def sample_flags_def split_lines_def Let_def)
  have old: "(case Option.bind (dw_read ?w (existing_json ?fl)) (\<lambda>raw. if raw = [] then None else dw_object ?w raw) of
      Some m \<Rightarrow> items_of (any_at m ''deployments'') | None \<Rightarrow> []) = []"
    by (simp add: sample_deploy_world_def sample_flags_def)
  have "mget (parse_failed_services [''immich failed: 1''] sample_services) ''immich'' \<noteq> None"
    "mget (parse_failed_services [''immich failed: 1''] sample_services) ''kuma'' = None" by code_simp+
  then have "map (\<lambda>s. (str_of s ''name'', if mget (parse_failed_services [''immich failed: 1''] sample_services) (str_of s ''name'') = None
      then ''ok'' else ''failed'')) sample_services = [(''immich'', ''failed''), (''kuma'', ''ok'')]"
    by (simp add: sample_services_def str_of_def as_str_def)
  moreover obtain data d where "df_json fs' = dw_marshal ?w data" "items_of (any_at data ''deployments'') = d # take 499 []"
    "map (\<lambda>r. (str_of r ''name'', str_of r ''status'')) (items_of (any_at d ''services'')) =
       map (\<lambda>s. (str_of s ''name'', if mget (parse_failed_services [''immich failed: 1''] sample_services) (str_of s ''name'') = None
         then ''ok'' else ''failed'')) sample_services"
    using deploy_history_exact [OF fs', unfolded Let_def log old services] by blast
  moreover have "dw_marshal ?w data = Some (sprint (VMap data))" by (simp only: sample_deploy_world_def deploy_world.simps)
  ultimately show ?thesis
    using fs' by (intro exI [of _ fs'] exI [of _ data] exI [of _ d] conjI) (simp_all only: take_Nil)
qed

end
