(* ===== verification/Kuma_Provision.thy ===== *)
theory Kuma_Provision
  imports Go_Any
begin

text \<open>
  \<^verbatim>\<open>src/tools/cmd/provision-kuma\<close> (\<open>main.go\<close>, \<open>state.go\<close>): brings an Uptime Kuma server in line with
  the service catalog.  The server behind the client library is not part of this repository's logic:
  the client is a record of functions on an unknown world \<open>'w\<close>, one field per method that is called,
  each returning what the method returns (an error is \<open>None\<close> or \<open>False\<close>; its text is only printed) and
  the world after the call.  What is printed on the way is left out; the statistics, the calls and
  their order are as in the code.
\<close>

section \<open>The catalog\<close>

record service =
  sv_name :: string
  sv_enabled :: "bool option"
  sv_domain :: any
  sv_monitor_path :: string
  sv_host :: string
  sv_monitor :: "bool option"

record host =
  h_node_name :: string
  h_node_host :: string

record catalog =
  cat_services :: "service list"
  cat_hosts :: "host list"

definition is_enabled :: "service \<Rightarrow> bool" where
  "is_enabled s \<longleftrightarrow> sv_enabled s \<noteq> Some False"

definition is_monitored :: "service \<Rightarrow> bool" where
  "is_monitored s \<longleftrightarrow> is_enabled s \<and> sv_monitor s \<noteq> Some False"

definition first_domain :: "any \<Rightarrow> string" where
  "first_domain d =
     (case d of
        VStr v \<Rightarrow> v
      | VList v \<Rightarrow> (case v of [] \<Rightarrow> [] | x # _ \<Rightarrow> (case x of VStr s \<Rightarrow> s | _ \<Rightarrow> []))
      | _ \<Rightarrow> [])"

definition ping_prefix :: string where "ping_prefix = ''Ping: ''"
definition smtp_prefix :: string where "smtp_prefix = ''SMTP: ''"
definition tcp_prefix :: string where "tcp_prefix = ''TCP: ''"
definition mailcow_smtp_host :: string where "mailcow_smtp_host = ''mail.mljr.eu''"
definition mailcow_smtp_port :: int where "mailcow_smtp_port = 587"
definition mail_smtp_in_name :: string where "mail_smtp_in_name = tcp_prefix @ ''mail SMTP 25 (mljr)''"
definition mail_smtps_name :: string where "mail_smtps_name = tcp_prefix @ ''mail SMTPS 465''"
definition mail_imaps_name :: string where "mail_imaps_name = tcp_prefix @ ''mail IMAPS 993''"

record tcp_target =
  t_name :: string
  t_host :: string
  t_port :: int

definition tcp_targets :: "tcp_target list" where
  "tcp_targets =
     [\<lparr>t_name = smtp_prefix @ mailcow_smtp_host, t_host = mailcow_smtp_host, t_port = mailcow_smtp_port\<rparr>,
      \<lparr>t_name = tcp_prefix @ ''crowdsec LAPI (mljr)'', t_host = ''100.100.20.1'', t_port = 8088\<rparr>,
      \<lparr>t_name = mail_smtp_in_name, t_host = ''100.100.20.1'', t_port = 25\<rparr>,
      \<lparr>t_name = mail_smtps_name, t_host = mailcow_smtp_host, t_port = 465\<rparr>,
      \<lparr>t_name = mail_imaps_name, t_host = mailcow_smtp_host, t_port = 993\<rparr>,
      \<lparr>t_name = tcp_prefix @ ''defectdojo (nuc)'', t_host = ''100.100.10.1'', t_port = 8101\<rparr>]"

definition expected_monitor_names :: "service list \<Rightarrow> host list \<Rightarrow> (string, bool) gmap" where
  "expected_monitor_names services hosts =
     fold (\<lambda>t. mput (t_name t) True) tcp_targets
       (fold (\<lambda>h. mput (ping_prefix @ h_node_name h) True) (filter (\<lambda>h. h_node_name h \<noteq> []) hosts)
         (fold (\<lambda>svc. mput (sv_name svc) True)
            (filter (\<lambda>svc. is_monitored svc \<and> first_domain (sv_domain svc) \<noteq> []) services) []))"

definition target_url_for :: "string \<Rightarrow> string" where
  "target_url_for domain =
     (if has_prefix domain ''http://'' \<or> has_prefix domain ''https://'' then domain else ''https://'' @ domain)"

section \<open>Monitors and the client\<close>

text \<open>
  A monitor with the fields the program reads or writes; \<open>As\<close> decodes the raw object, so a field
  the object does not have reads as its zero value.  \<open>m_rest\<close> is everything else the object holds.
\<close>

datatype monitor_type = HTTP | Ping | TCPPort | OtherType string

record monitor =
  m_id :: int
  m_type :: monitor_type
  m_name :: string
  m_interval :: int
  m_retry_interval :: int
  m_max_retries :: int
  m_url :: string
  m_hostname :: string
  m_port :: int
  m_timeout :: "int option"
  m_max_redirects :: int
  m_method :: string
  m_codes :: "string list"
  m_rest :: any

definition new_monitor :: "monitor_type \<Rightarrow> string \<Rightarrow> monitor" where
  \<comment> \<open>the struct literal: everything not named is zero\<close>
  "new_monitor ty name =
     \<lparr>m_id = 0, m_type = ty, m_name = name, m_interval = 60, m_retry_interval = 60, m_max_retries = 0,
      m_url = [], m_hostname = [], m_port = 0, m_timeout = None, m_max_redirects = 0, m_method = [],
      m_codes = [], m_rest = VNil\<rparr>"

record settings =
  se_timezone :: string
  se_keep_days :: int
  se_rest :: any

record notification =
  n_id :: int
  n_name :: string
  n_active :: bool
  n_default :: bool
  n_apply_existing :: bool
  n_auth :: string
  n_priority :: int
  n_priority_down :: int
  n_server :: string
  n_topic :: string

record maintenance =
  mt_id :: int
  mt_title :: string
  mt_description :: string
  mt_strategy :: string
  mt_active :: bool
  mt_cron :: string
  mt_minutes :: int
  mt_timezone :: string

record public_group =
  pg_name :: string
  pg_weight :: int
  pg_monitors :: "int list"

record status_page =
  sp_slug :: string
  sp_title :: string
  sp_theme :: string
  sp_published :: bool
  sp_powered_by :: bool
  sp_groups :: "public_group list"

record 'w client =
  k_get_monitors :: "'w \<Rightarrow> monitor list option \<times> 'w"
  k_create_monitor :: "monitor \<Rightarrow> 'w \<Rightarrow> int option \<times> 'w"
  k_resume_monitor :: "int \<Rightarrow> 'w \<Rightarrow> bool \<times> 'w"
  k_update_monitor :: "monitor \<Rightarrow> 'w \<Rightarrow> bool \<times> 'w"
  k_delete_monitor :: "int \<Rightarrow> 'w \<Rightarrow> bool \<times> 'w"
  k_get_settings :: "'w \<Rightarrow> settings option \<times> 'w"
  k_set_settings :: "settings \<Rightarrow> string \<Rightarrow> 'w \<Rightarrow> bool \<times> 'w"
  k_get_notifications :: "'w \<Rightarrow> (int \<times> string) list \<times> 'w" \<comment> \<open>id and name\<close>
  k_create_notification :: "notification \<Rightarrow> 'w \<Rightarrow> bool \<times> 'w"
  k_update_notification :: "notification \<Rightarrow> 'w \<Rightarrow> bool \<times> 'w"
  k_get_maintenances :: "'w \<Rightarrow> (int \<times> string) list option \<times> 'w" \<comment> \<open>id and title\<close>
  k_create_maintenance :: "maintenance \<Rightarrow> 'w \<Rightarrow> int option \<times> 'w"
  k_update_maintenance :: "maintenance \<Rightarrow> 'w \<Rightarrow> bool \<times> 'w"
  k_delete_maintenance :: "int \<Rightarrow> 'w \<Rightarrow> bool \<times> 'w"
  k_set_monitor_maintenance :: "int \<Rightarrow> int list \<Rightarrow> 'w \<Rightarrow> bool \<times> 'w"
  k_get_status_pages :: "'w \<Rightarrow> string list option \<times> 'w" \<comment> \<open>slugs\<close>
  k_add_status_page :: "string \<Rightarrow> string \<Rightarrow> 'w \<Rightarrow> bool \<times> 'w"
  k_save_status_page :: "status_page \<Rightarrow> 'w \<Rightarrow> bool \<times> 'w"
  k_metrics_status :: "string \<Rightarrow> string \<Rightarrow> 'w \<Rightarrow> int option \<times> 'w" \<comment> \<open>URL and key; the HTTP status\<close>
  k_disconnect :: "'w \<Rightarrow> 'w"

record stats =
  st_created :: "string list"
  st_updated :: "string list"
  st_deleted :: "string list"
  st_skipped :: nat
  st_failed :: "string list"

definition no_stats :: stats where
  "no_stats = \<lparr>st_created = [], st_updated = [], st_deleted = [], st_skipped = 0, st_failed = []\<rparr>"

definition created :: "string \<Rightarrow> stats \<Rightarrow> stats" where
  "created n st = st\<lparr>st_created := st_created st @ [n]\<rparr>"
definition updated :: "string \<Rightarrow> stats \<Rightarrow> stats" where
  "updated n st = st\<lparr>st_updated := st_updated st @ [n]\<rparr>"
definition deleted :: "string \<Rightarrow> stats \<Rightarrow> stats" where
  "deleted n st = st\<lparr>st_deleted := st_deleted st @ [n]\<rparr>"
definition skipped :: "stats \<Rightarrow> stats" where
  "skipped st = st\<lparr>st_skipped := Suc (st_skipped st)\<rparr>"
definition failed :: "string \<Rightarrow> stats \<Rightarrow> stats" where
  "failed n st = st\<lparr>st_failed := st_failed st @ [n]\<rparr>"

type_synonym monitors = "(string, monitor) gmap"

section \<open>Monitors\<close>

definition create_and_start :: "'w client \<Rightarrow> monitor \<Rightarrow> 'w \<Rightarrow> bool \<times> 'w" where
  "create_and_start cl m w =
     (case k_create_monitor cl m w of
        (None, w1) \<Rightarrow> (False, w1)
      | (Some i, w1) \<Rightarrow> k_resume_monitor cl i w1)"

definition http_monitor :: "string \<Rightarrow> string \<Rightarrow> monitor" where
  "http_monitor name url =
     (new_monitor HTTP name)\<lparr>m_url := url, m_timeout := Some 48, m_max_redirects := 10, m_method := ''GET'',
                             m_codes := [''200-299'']\<rparr>"

definition ping_monitor :: "string \<Rightarrow> string \<Rightarrow> monitor" where
  "ping_monitor name hostname =
     (new_monitor Ping name)\<lparr>m_max_retries := 3, m_hostname := hostname, m_timeout := Some 10\<rparr>"

definition tcp_monitor :: "string \<Rightarrow> string \<Rightarrow> int \<Rightarrow> monitor" where
  "tcp_monitor name hostname port = (new_monitor TCPPort name)\<lparr>m_hostname := hostname, m_port := port\<rparr>"

definition service_url :: "service \<Rightarrow> string" where
  "service_url svc = target_url_for (first_domain (sv_domain svc)) @ sv_monitor_path svc"

definition sync_service_monitor ::
  "'w client \<Rightarrow> monitors \<Rightarrow> service \<Rightarrow> 'w \<times> stats \<Rightarrow> 'w \<times> stats" where
  "sync_service_monitor cl existing svc = (\<lambda>(w, st).
     if \<not> is_monitored svc then (w, st)
     else if first_domain (sv_domain svc) = [] then (w, st)
     else
       let target = service_url svc in
       case mget existing (sv_name svc) of
         Some base \<Rightarrow>
           if m_url base \<noteq> target then
             (case k_update_monitor cl (base\<lparr>m_type := HTTP, m_url := target, m_name := sv_name svc\<rparr>) w of
                (ok, w1) \<Rightarrow> (w1, if ok then updated (sv_name svc) st else failed (sv_name svc) st))
           else (w, skipped st)
       | None \<Rightarrow>
           (case create_and_start cl (http_monitor (sv_name svc) target) w of
              (ok, w1) \<Rightarrow> (w1, if ok then created (sv_name svc) st else failed (sv_name svc) st)))"

definition sync_ping_monitor ::
  "'w client \<Rightarrow> monitors \<Rightarrow> host \<Rightarrow> 'w \<times> stats \<Rightarrow> 'w \<times> stats" where
  "sync_ping_monitor cl existing h = (\<lambda>(w, st).
     if h_node_name h = [] \<or> h_node_host h = [] then (w, st)
     else
       let name = ping_prefix @ h_node_name h in
       case mget existing name of
         Some base \<Rightarrow>
           if m_hostname base \<noteq> h_node_host h \<or> m_max_retries base \<noteq> 3 then
             (case k_update_monitor cl (base\<lparr>m_type := Ping, m_hostname := h_node_host h, m_name := name,
                                             m_max_retries := 3\<rparr>) w of
                (ok, w1) \<Rightarrow> (w1, if ok then updated name st else failed name st))
           else (w, skipped st)
       | None \<Rightarrow>
           (case create_and_start cl (ping_monitor name (h_node_host h)) w of
              (ok, w1) \<Rightarrow> (w1, if ok then created name st else failed name st)))"

definition sync_tcp_monitor ::
  "'w client \<Rightarrow> monitors \<Rightarrow> tcp_target \<Rightarrow> 'w \<times> stats \<Rightarrow> 'w \<times> stats" where
  "sync_tcp_monitor cl existing t = (\<lambda>(w, st).
     case mget existing (t_name t) of
       Some base \<Rightarrow>
         if m_hostname base \<noteq> t_host t \<or> m_port base \<noteq> t_port t then
           (case k_update_monitor cl (base\<lparr>m_type := TCPPort, m_hostname := t_host t, m_port := t_port t,
                                           m_name := t_name t\<rparr>) w of
              (ok, w1) \<Rightarrow> (w1, if ok then updated (t_name t) st else failed (t_name t) st))
         else (w, skipped st)
     | None \<Rightarrow>
         (case create_and_start cl (tcp_monitor (t_name t) (t_host t) (t_port t)) w of
            (ok, w1) \<Rightarrow> (w1, if ok then created (t_name t) st else failed (t_name t) st)))"

definition sync_service_monitors :: "'w client \<Rightarrow> service list \<Rightarrow> monitors \<Rightarrow> 'w \<times> stats \<Rightarrow> 'w \<times> stats" where
  "sync_service_monitors cl services existing = fold (sync_service_monitor cl existing) services"

definition sync_ping_monitors :: "'w client \<Rightarrow> host list \<Rightarrow> monitors \<Rightarrow> 'w \<times> stats \<Rightarrow> 'w \<times> stats" where
  "sync_ping_monitors cl hosts existing = fold (sync_ping_monitor cl existing) hosts"

definition sync_tcp_monitors :: "'w client \<Rightarrow> monitors \<Rightarrow> 'w \<times> stats \<Rightarrow> 'w \<times> stats" where
  "sync_tcp_monitors cl existing = fold (sync_tcp_monitor cl existing) tcp_targets"

definition delete_orphan ::
  "'w client \<Rightarrow> (string, bool) gmap \<Rightarrow> string \<times> monitor \<Rightarrow> 'w \<times> stats \<Rightarrow> 'w \<times> stats" where
  "delete_orphan cl expected = (\<lambda>(name, base) (w, st).
     if mget expected name = Some True then (w, st)
     else (case k_delete_monitor cl (m_id base) w of
             (ok, w1) \<Rightarrow> (w1, if ok then deleted name st else failed (''delete:'' @ name) st)))"

definition delete_orphaned_monitors ::
  "'w client \<Rightarrow> (string, bool) gmap \<Rightarrow> monitors \<Rightarrow> 'w \<times> stats \<Rightarrow> 'w \<times> stats" where
  "delete_orphaned_monitors cl expected existing = fold (delete_orphan cl expected) existing"

definition index_monitors :: "monitor list \<Rightarrow> monitors" where
  "index_monitors ms = fold (\<lambda>m. mput (m_name m) m) ms []"

definition sync_monitors :: "'w client \<Rightarrow> catalog \<Rightarrow> monitor list \<Rightarrow> 'w \<times> stats \<Rightarrow> 'w \<times> stats" where
  \<comment> \<open>the four calls of \<open>run\<close> on the monitors read from the server\<close>
  "sync_monitors cl cat ms s =
     (let existing = index_monitors ms;
          expected = expected_monitor_names (cat_services cat) (cat_hosts cat)
      in delete_orphaned_monitors cl expected existing
           (sync_tcp_monitors cl existing
             (sync_ping_monitors cl (cat_hosts cat) existing
               (sync_service_monitors cl (cat_services cat) existing s))))"

section \<open>Maintenance windows and status pages\<close>

record window =
  w_title :: string
  w_description :: string
  w_cron :: string
  w_minutes :: int
  w_timezone :: string
  w_services :: "string list"
  w_hosts :: "string list"

definition windows :: "window list" where
  "windows =
     [\<lparr>w_title = ''Unraid container update'',
       w_description = ''ca.update.applications: docker and plugin auto-update, daily 00:00'',
       w_cron = ''0 0 * * *'', w_minutes = 20, w_timezone = ''SAME_AS_SERVER'',
       w_services = [], w_hosts = [''nas'']\<rparr>,
      \<lparr>w_title = ''Unraid appdata backup'',
       w_description = ''appdata.backup plugin, Sundays 05:00; stops these containers while it runs'',
       w_cron = ''0 5 * * 0'', w_minutes = 180, w_timezone = ''SAME_AS_SERVER'',
       w_services = [''dawarich'', ''immich'', ''dockhand'', ''ollama'', ''syncthing'', ''netronome-agent-nas''],
       w_hosts = []\<rparr>,
      \<lparr>w_title = ''Nextcloud AIO backup'',
       w_description = ''AIO daily backup at 02:00 UTC; the whole AIO stack is stopped'',
       w_cron = ''0 2 * * *'', w_minutes = 60, w_timezone = ''UTC'',
       w_services = [''nextcloud''], w_hosts = []\<rparr>]"

definition window_monitor_names :: "window \<Rightarrow> service list \<Rightarrow> string list" where
  "window_monitor_names w services =
     sort (map sv_name
       (filter (\<lambda>svc. is_enabled svc \<and> first_domain (sv_domain svc) \<noteq> [] \<and>
                      (sv_name svc \<in> set (w_services w) \<or> sv_host svc \<in> set (w_hosts w))) services))"

record group =
  g_name :: string
  g_monitors :: "string list"

record page =
  pa_slug :: string
  pa_title :: string
  pa_groups :: "group list"

definition pages :: "page list" where
  "pages =
     [\<lparr>pa_slug = ''all'', pa_title = ''MLJR'', pa_groups =
        [\<lparr>g_name = ''Dienste'', g_monitors =
           [''authelia'', ''cglab'', ''gameoflife'', ''glance'', ''goaccess'', ''homeassistant'', ''homepage'',
            ''immich'', ''kuma'', ''mailcow'', ''nas'', ''nextcloud'', ''ntfy'', ''nuc-webui'', ''projects'',
            smtp_prefix @ mailcow_smtp_host, ''sudoku'', ''syncthing'', ''ui-showcase'', ''wordwiz'']\<rparr>]\<rparr>,
      \<lparr>pa_slug = ''infra'', pa_title = ''MLJR Infrastruktur'', pa_groups =
        [\<lparr>g_name = ''Hosts'', g_monitors =
           [ping_prefix @ ''mljr'', ping_prefix @ ''nuc'', ping_prefix @ ''nas'', ping_prefix @ ''ugreen'',
            ping_prefix @ ''wd-mycloud'', ping_prefix @ ''homeassistant'']\<rparr>,
         \<lparr>g_name = ''Netzwerk'', g_monitors =
           [tcp_prefix @ ''crowdsec LAPI (mljr)'', tcp_prefix @ ''defectdojo (nuc)'', ''cockpit'', ''nuc-webui'',
            ''nas'']\<rparr>]\<rparr>,
      \<lparr>pa_slug = ''apps'', pa_title = ''MLJR Apps'', pa_groups =
        [\<lparr>g_name = ''Cloud und Medien'', g_monitors =
           [''nextcloud'', ''immich'', ''syncthing'', ''opencloud'', ''dawarich'', ''projects'']\<rparr>,
         \<lparr>g_name = ''Alltag'', g_monitors =
           [''actual-budget'', ''sure'', ''glucava'', ''homeassistant'', ''homepage'', ''glance'', ''weather-cli'',
            ''newsletter'']\<rparr>,
         \<lparr>g_name = ''Entwicklung'', g_monitors =
           [''forgejo'', ''wordwiz'', ''cglab'', ''codec'', ''regex'', ''cron'', ''ui-showcase'', ''gameoflife'',
            ''sudoku'']\<rparr>]\<rparr>,
      \<lparr>pa_slug = ''mail'', pa_title = ''MLJR Mail'', pa_groups =
        [\<lparr>g_name = ''Mail'', g_monitors =
           [''mailcow'', smtp_prefix @ mailcow_smtp_host, mail_smtp_in_name, mail_smtps_name, mail_imaps_name,
            ''mail-archiver'', ''dmarc-monitor'', ''newsletter'']\<rparr>]\<rparr>,
      \<lparr>pa_slug = ''security'', pa_title = ''MLJR Sicherheit'', pa_groups =
        [\<lparr>g_name = ''Sicherheit'', g_monitors =
           [''authelia'', ''crowdsec'', ''crowdsec-nuc'', ''crowdsec-nas'', ''canarytokens'', ''defectdojo'',
            ''csp-reports'', tcp_prefix @ ''crowdsec LAPI (mljr)'', tcp_prefix @ ''defectdojo (nuc)'']\<rparr>]\<rparr>]"

definition server_timezone :: string where "server_timezone = ''Europe/Vienna''"
definition keep_data_period_days :: int where "keep_data_period_days = 365"

definition sync_settings :: "'w client \<Rightarrow> string \<Rightarrow> 'w \<times> stats \<Rightarrow> 'w \<times> stats" where
  "sync_settings cl password = (\<lambda>(w, st).
     case k_get_settings cl w of
       (None, w1) \<Rightarrow> (w1, failed ''settings'' st)
     | (Some cur, w1) \<Rightarrow>
         if se_timezone cur = server_timezone \<and> se_keep_days cur = keep_data_period_days then (w1, st)
         else (case k_set_settings cl (cur\<lparr>se_timezone := server_timezone, se_keep_days := keep_data_period_days\<rparr>)
                      password w1 of
                 (ok, w2) \<Rightarrow> (w2, if ok then updated ''settings'' st else failed ''settings'' st)))"

definition monitor_ids :: "monitor list \<Rightarrow> (string, int) gmap" where
  "monitor_ids ms = fold (\<lambda>m. mput (m_name m) (m_id m)) ms []"

definition ntfy_name :: string where "ntfy_name = ''Default''"

definition ntfy_notification :: "int \<Rightarrow> notification" where
  "ntfy_notification i =
     \<lparr>n_id = i, n_name = ntfy_name, n_active = True, n_default = True, n_apply_existing = True,
      n_auth = ''none'', n_priority = 1, n_priority_down = 3, n_server = ''https://ntfy.mljr.eu'',
      n_topic = ''uptime''\<rparr>"

definition sync_notification :: "'w client \<Rightarrow> 'w \<times> stats \<Rightarrow> 'w \<times> stats" where
  "sync_notification cl = (\<lambda>(w, st).
     case k_get_notifications cl w of (ns, w1) \<Rightarrow>
       (case find (\<lambda>(i, name). name = ntfy_name) ns of
          Some (i, _) \<Rightarrow>
            (case k_update_notification cl (ntfy_notification i) w1 of
               (ok, w2) \<Rightarrow> (w2, if ok then st else failed (''notification '' @ ntfy_name) st))
        | None \<Rightarrow>
            (case k_create_notification cl (ntfy_notification 0) w1 of
               (ok, w2) \<Rightarrow> (w2, if ok then created (''notification '' @ ntfy_name) st
                               else failed (''notification '' @ ntfy_name) st))))"

definition window_monitor_ids :: "window \<Rightarrow> service list \<Rightarrow> (string, int) gmap \<Rightarrow> int list" where
  "window_monitor_ids win services ids =
     concat (map (\<lambda>name. case mget ids name of Some i \<Rightarrow> [i] | None \<Rightarrow> [])
               (window_monitor_names win services))"

definition window_maintenance :: "window \<Rightarrow> int \<Rightarrow> maintenance" where
  "window_maintenance win i =
     \<lparr>mt_id = i, mt_title = w_title win, mt_description = w_description win, mt_strategy = ''cron'',
      mt_active = True, mt_cron = w_cron win, mt_minutes = w_minutes win, mt_timezone = w_timezone win\<rparr>"

definition assign_monitors ::
  "'w client \<Rightarrow> string \<Rightarrow> int \<Rightarrow> int list \<Rightarrow> 'w \<times> stats \<Rightarrow> 'w \<times> stats" where
  "assign_monitors cl label i mon_ids = (\<lambda>(w, st).
     case k_set_monitor_maintenance cl i mon_ids w of
       (ok, w1) \<Rightarrow> (w1, if ok then st else failed label st))"

definition sync_window ::
  "'w client \<Rightarrow> service list \<Rightarrow> (string, int) gmap \<Rightarrow> (string, int) gmap \<Rightarrow> window \<Rightarrow> 'w \<times> stats \<Rightarrow> 'w \<times> stats" where
  "sync_window cl services ids by_title win = (\<lambda>(w, st).
     let mon_ids = window_monitor_ids win services ids;
         label = ''maintenance '' @ w_title win
     in case mget by_title (w_title win) of
          Some i \<Rightarrow>
            (case k_update_maintenance cl (window_maintenance win i) w of
               (ok, w1) \<Rightarrow> if ok then assign_monitors cl label i mon_ids (w1, st)
                          else (w1, failed label st))
        | None \<Rightarrow>
            (case k_create_maintenance cl (window_maintenance win 0) w of
               (None, w1) \<Rightarrow> (w1, failed label st)
             | (Some i, w1) \<Rightarrow> assign_monitors cl label i mon_ids (w1, created label st)))"

definition delete_unmanaged :: "'w client \<Rightarrow> int \<times> string \<Rightarrow> 'w \<times> stats \<Rightarrow> 'w \<times> stats" where
  "delete_unmanaged cl = (\<lambda>(i, title) (w, st).
     if title \<in> set (map w_title windows) then (w, st)
     else (case k_delete_maintenance cl i w of
             (ok, w1) \<Rightarrow> (w1, if ok then deleted (''maintenance '' @ title) st
                             else failed (''maintenance '' @ title) st)))"

definition sync_maintenance ::
  "'w client \<Rightarrow> service list \<Rightarrow> (string, int) gmap \<Rightarrow> 'w \<times> stats \<Rightarrow> 'w \<times> stats" where
  "sync_maintenance cl services ids = (\<lambda>(w, st).
     case k_get_maintenances cl w of
       (None, w1) \<Rightarrow> (w1, failed ''maintenance list'' st)
     | (Some existing, w1) \<Rightarrow>
         let by_title = fold (\<lambda>(i, title). mput title i) existing []
         in fold (delete_unmanaged cl) existing
              (fold (sync_window cl services ids by_title) windows (w1, st)))"

definition page_groups :: "(string, int) gmap \<Rightarrow> group list \<Rightarrow> public_group list" where
  "page_groups ids groups =
     filter (\<lambda>pg. pg_monitors pg \<noteq> [])
       (map (\<lambda>(i, g). \<lparr>pg_name = g_name g, pg_weight = int i + 1,
               pg_monitors = concat (map (\<lambda>name. case mget ids name of Some j \<Rightarrow> [j] | None \<Rightarrow> []) (g_monitors g))\<rparr>)
          (enumerate 0 groups))"

definition save_page :: "'w client \<Rightarrow> (string, int) gmap \<Rightarrow> page \<Rightarrow> 'w \<times> stats \<Rightarrow> 'w \<times> stats" where
  "save_page cl ids p = (\<lambda>(w, st).
     case k_save_status_page cl
            \<lparr>sp_slug = pa_slug p, sp_title = pa_title p, sp_theme = ''auto'', sp_published = True,
             sp_powered_by = False, sp_groups = page_groups ids (pa_groups p)\<rparr> w of
       (ok, w1) \<Rightarrow> (w1, if ok then st else failed (''status page '' @ pa_slug p) st))"

definition sync_page ::
  "'w client \<Rightarrow> (string, int) gmap \<Rightarrow> string list \<Rightarrow> page \<Rightarrow> 'w \<times> stats \<Rightarrow> 'w \<times> stats" where
  "sync_page cl ids have_slugs p = (\<lambda>(w, st).
     if pa_slug p \<in> set have_slugs then save_page cl ids p (w, st)
     else (case k_add_status_page cl (pa_title p) (pa_slug p) w of
             (ok, w1) \<Rightarrow> if ok then save_page cl ids p (w1, created (''status page '' @ pa_slug p) st)
                        else (w1, failed (''status page '' @ pa_slug p) st)))"

definition sync_status_pages :: "'w client \<Rightarrow> (string, int) gmap \<Rightarrow> 'w \<times> stats \<Rightarrow> 'w \<times> stats" where
  "sync_status_pages cl ids = (\<lambda>(w, st).
     case k_get_status_pages cl w of
       (None, w1) \<Rightarrow> (w1, failed ''status page list'' st)
     | (Some slugs, w1) \<Rightarrow> fold (sync_page cl ids slugs) pages (w1, st))"

definition check_api_key :: "'w client \<Rightarrow> string \<Rightarrow> string \<Rightarrow> 'w \<times> stats \<Rightarrow> 'w \<times> stats" where
  "check_api_key cl base_url key = (\<lambda>(w, st).
     if key = [] then (w, st)
     else (case k_metrics_status cl (base_url @ ''/metrics'') key w of
             (status, w1) \<Rightarrow> (w1, if status = Some 200 then st else failed ''api key check'' st)))"

section \<open>The whole program\<close>

text \<open>
  The environment and the outcome of reading the catalog file.  \<open>login\<close> is \<^verbatim>\<open>kuma.New\<close>: it gives a
  client or fails.
\<close>

datatype catalog_file = Absent | Unreadable | Unparsable | Parsed catalog

record env =
  e_url :: string
  e_username :: string
  e_password :: string
  e_api_key :: string

definition summary_parts :: "stats \<Rightarrow> string list" where
  "summary_parts st =
     concat [if st_created st \<noteq> [] then [''created '' @ dec_str (length (st_created st))] else [],
             if st_updated st \<noteq> [] then [''updated '' @ dec_str (length (st_updated st))] else [],
             if st_deleted st \<noteq> [] then [''deleted '' @ dec_str (length (st_deleted st))] else [],
             if 0 < st_skipped st then [''unchanged '' @ dec_str (st_skipped st)] else [],
             if st_failed st \<noteq> [] then [''failed '' @ dec_str (length (st_failed st))] else []]"

definition summary_line :: "stats \<Rightarrow> string" where
  "summary_line st =
     (if summary_parts st \<noteq> [] then ''Summary: '' @ join '', '' (summary_parts st) else ''Summary: no changes'')"

definition sync_rest ::
  "'w client \<Rightarrow> env \<Rightarrow> string \<Rightarrow> catalog \<Rightarrow> (string, int) gmap \<Rightarrow> 'w \<times> stats \<Rightarrow> 'w \<times> stats" where
  "sync_rest cl env url cat ids s =
     check_api_key cl url (e_api_key env)
       (sync_status_pages cl ids
         (sync_maintenance cl (cat_services cat) ids
           (sync_notification cl
             (sync_settings cl (e_password env) s))))"

definition provision ::
  "(string \<Rightarrow> string \<Rightarrow> string \<Rightarrow> 'w \<Rightarrow> 'w client option \<times> 'w) \<Rightarrow> env \<Rightarrow> catalog_file \<Rightarrow> 'w \<Rightarrow>
   int \<times> stats option \<times> 'w" where
  \<comment> \<open>\<open>run\<close>: the exit code, and the statistics when it got to the summary\<close>
  "provision login env file w =
     (let url = (if e_url env = [] then ''http://localhost:3001'' else e_url env) in
      if e_username env = [] \<or> e_password env = [] then (1, None, w) else
      case login url (e_username env) (e_password env) w of
        (None, w1) \<Rightarrow> (1, None, w1)
      | (Some cl, w1) \<Rightarrow>
          (case file of
             Parsed cat \<Rightarrow>
               (case k_get_monitors cl w1 of
                  (None, w2) \<Rightarrow> (1, None, w2)
                | (Some ms, w2) \<Rightarrow>
                    (case sync_monitors cl cat ms (w2, no_stats) of (w3, st) \<Rightarrow>
                       (case k_get_monitors cl w3 of
                          (None, w4) \<Rightarrow> (1, None, w4)
                        | (Some now, w4) \<Rightarrow>
                            (case sync_rest cl env url cat (monitor_ids now) (w4, st) of (w5, st') \<Rightarrow>
                               (if st_failed st' \<noteq> [] then 1 else 0, Some st', k_disconnect cl w5)))))
           | _ \<Rightarrow> (1, None, w1)))"

section \<open>The three loops as one\<close>

text \<open>
  A wanted monitor: its name, whether an existing monitor of that name is as wanted, the monitor to
  create and the one to send as an update.  \<open>sync_item\<close> is the common shape of the three loop bodies;
  the locale says that a loop body has that shape, and each body is an instance.
\<close>

record item =
  i_name :: string
  i_ok :: "monitor \<Rightarrow> bool"
  i_new :: monitor
  i_fix :: "monitor \<Rightarrow> monitor"

definition sync_item :: "'w client \<Rightarrow> monitors \<Rightarrow> item \<Rightarrow> 'w \<times> stats \<Rightarrow> 'w \<times> stats" where
  "sync_item cl existing it = (\<lambda>(w, st).
     case mget existing (i_name it) of
       Some base \<Rightarrow>
         if i_ok it base then (w, skipped st)
         else (case k_update_monitor cl (i_fix it base) w of
                 (ok, w1) \<Rightarrow> (w1, if ok then updated (i_name it) st else failed (i_name it) st))
     | None \<Rightarrow>
         (case create_and_start cl (i_new it) w of
            (ok, w1) \<Rightarrow> (w1, if ok then created (i_name it) st else failed (i_name it) st)))"

definition item_wf :: "item \<Rightarrow> bool" where
  "item_wf it \<longleftrightarrow> m_name (i_new it) = i_name it \<and>
     (\<forall>i. i_ok it ((i_new it)\<lparr>m_id := i\<rparr>)) \<and>
     (\<forall>b. m_name (i_fix it b) = i_name it \<and> m_id (i_fix it b) = m_id b \<and> i_ok it (i_fix it b))"

definition tally :: "stats \<Rightarrow> nat" where
  "tally st = length (st_created st) + length (st_updated st) + length (st_deleted st) + st_skipped st +
              length (st_failed st)"

lemma tally_simps [simp]:
  "tally (created n st) = Suc (tally st)" "tally (updated n st) = Suc (tally st)"
  "tally (deleted n st) = Suc (tally st)" "tally (skipped st) = Suc (tally st)"
  "tally (failed n st) = Suc (tally st)"
  by (simp_all add: tally_def created_def updated_def deleted_def skipped_def failed_def)

lemma sync_item_tally: "tally (snd (sync_item cl existing it s)) = Suc (tally (snd s))"
  by (cases s) (simp add: sync_item_def split: option.split prod.split)

locale reconciler =
  fixes step :: "'w client \<Rightarrow> monitors \<Rightarrow> 'i \<Rightarrow> 'w \<times> stats \<Rightarrow> 'w \<times> stats"
    and item_of :: "'i \<Rightarrow> item option"
  assumes step_item: "step cl existing i s =
      (case item_of i of None \<Rightarrow> s | Some it \<Rightarrow> sync_item cl existing it s)"
    and item_ok: "item_of i = Some it \<Longrightarrow> item_wf it"
begin

lemma loop: "fold (step cl existing) is s = fold (sync_item cl existing) (List.map_filter item_of is) s"
  by (induction "is" arbitrary: s) (auto simp: step_item List.map_filter_def split: option.split)

lemma loop_tally:
  "tally (snd (fold (step cl existing) is s)) = tally (snd s) + length (filter (\<lambda>i. item_of i \<noteq> None) is)"
  by (induction "is" arbitrary: s) (auto simp: step_item sync_item_tally split: option.split)

lemma items_ok: "it \<in> set (List.map_filter item_of is) \<Longrightarrow> item_wf it"
  by (auto simp: List.map_filter_def item_ok)

end

definition service_item :: "service \<Rightarrow> item option" where
  "service_item svc =
     (if is_monitored svc \<and> first_domain (sv_domain svc) \<noteq> [] then
        Some \<lparr>i_name = sv_name svc, i_ok = \<lambda>b. m_url b = service_url svc,
              i_new = http_monitor (sv_name svc) (service_url svc),
              i_fix = \<lambda>b. b\<lparr>m_type := HTTP, m_url := service_url svc, m_name := sv_name svc\<rparr>\<rparr>
      else None)"

definition ping_item :: "host \<Rightarrow> item option" where
  "ping_item h =
     (if h_node_name h \<noteq> [] \<and> h_node_host h \<noteq> [] then
        Some \<lparr>i_name = ping_prefix @ h_node_name h,
              i_ok = \<lambda>b. m_hostname b = h_node_host h \<and> m_max_retries b = 3,
              i_new = ping_monitor (ping_prefix @ h_node_name h) (h_node_host h),
              i_fix = \<lambda>b. b\<lparr>m_type := Ping, m_hostname := h_node_host h,
                             m_name := ping_prefix @ h_node_name h, m_max_retries := 3\<rparr>\<rparr>
      else None)"

definition tcp_item :: "tcp_target \<Rightarrow> item option" where
  "tcp_item t =
     Some \<lparr>i_name = t_name t, i_ok = \<lambda>b. m_hostname b = t_host t \<and> m_port b = t_port t,
           i_new = tcp_monitor (t_name t) (t_host t) (t_port t),
           i_fix = \<lambda>b. b\<lparr>m_type := TCPPort, m_hostname := t_host t, m_port := t_port t, m_name := t_name t\<rparr>\<rparr>"

interpretation svc: reconciler sync_service_monitor service_item
  by unfold_locales
    (auto simp: sync_service_monitor_def service_item_def sync_item_def item_wf_def http_monitor_def
      new_monitor_def Let_def split: option.split prod.split if_splits)

interpretation png: reconciler sync_ping_monitor ping_item
  by unfold_locales
    (auto simp: sync_ping_monitor_def ping_item_def sync_item_def item_wf_def ping_monitor_def
      new_monitor_def Let_def split: option.split prod.split if_splits)

interpretation tcp: reconciler sync_tcp_monitor tcp_item
  by unfold_locales
    (auto simp: sync_tcp_monitor_def tcp_item_def sync_item_def item_wf_def tcp_monitor_def
      new_monitor_def split: option.split prod.split if_splits)

definition wanted_items :: "catalog \<Rightarrow> item list" where
  "wanted_items cat =
     List.map_filter service_item (cat_services cat) @ List.map_filter ping_item (cat_hosts cat) @
     List.map_filter tcp_item tcp_targets"

lemma wanted_items_wf: "it \<in> set (wanted_items cat) \<Longrightarrow> item_wf it"
  by (auto simp: wanted_items_def svc.items_ok png.items_ok tcp.items_ok)

lemma sync_monitors_items:
  "sync_monitors cl cat ms s =
     fold (delete_orphan cl (expected_monitor_names (cat_services cat) (cat_hosts cat))) (index_monitors ms)
       (fold (sync_item cl (index_monitors ms)) (wanted_items cat) s)"
  by (simp add: sync_monitors_def Let_def delete_orphaned_monitors_def sync_tcp_monitors_def
      sync_ping_monitors_def sync_service_monitors_def svc.loop png.loop tcp.loop wanted_items_def)

section \<open>What the server documents\<close>

text \<open>
  The behaviour of Uptime Kuma the program relies on, as a condition on the client and a function
  that reads the server's monitors off the world: a successful create adds the monitor under a fresh
  id, a successful update replaces the monitor of that id, a successful delete removes it, resuming
  changes no monitor, and the list is what is there.
\<close>

definition server_laws :: "'w client \<Rightarrow> ('w \<Rightarrow> monitor list) \<Rightarrow> bool" where
  "server_laws cl mons \<longleftrightarrow>
     (\<forall>m w i w'. k_create_monitor cl m w = (Some i, w') \<longrightarrow>
        i \<notin> m_id ` set (mons w) \<and> mons w' = mons w @ [m\<lparr>m_id := i\<rparr>]) \<and>
     (\<forall>i w. mons (snd (k_resume_monitor cl i w)) = mons w) \<and>
     (\<forall>m w w'. k_update_monitor cl m w = (True, w') \<longrightarrow>
        mons w' = map (\<lambda>x. if m_id x = m_id m then m else x) (mons w)) \<and>
     (\<forall>i w w'. k_delete_monitor cl i w = (True, w') \<longrightarrow> mons w' = filter (\<lambda>x. m_id x \<noteq> i) (mons w))"

text \<open>What holds between the items of a pass; \<open>ms\<close> is the list read at the start, \<open>S\<close> the server's now.\<close>

definition pass_inv :: "monitor list \<Rightarrow> item set \<Rightarrow> monitor list \<Rightarrow> bool" where
  "pass_inv ms P S \<longleftrightarrow>
     distinct (map m_name S) \<and> distinct (map m_id S) \<and>
     (\<forall>b \<in> set ms. \<exists>x \<in> set S. m_id x = m_id b \<and> m_name x = m_name b) \<and>
     (\<forall>b \<in> set ms. m_name b \<notin> i_name ` P \<longrightarrow> b \<in> set S) \<and>
     (\<forall>it \<in> P. \<exists>x \<in> set S. m_name x = i_name it \<and> i_ok it x) \<and>
     m_name ` set S = m_name ` set ms \<union> i_name ` P"

lemma pass_inv_start:
  "distinct (map m_name ms) \<Longrightarrow> distinct (map m_id ms) \<Longrightarrow> pass_inv ms {} ms"
  by (auto simp: pass_inv_def)

lemma index_monitors_get:
  assumes "distinct (map m_name ms)"
  shows "mget (index_monitors ms) n = Some b \<longleftrightarrow> b \<in> set ms \<and> m_name b = n"
    and "mget (index_monitors ms) n = None \<longleftrightarrow> n \<notin> m_name ` set ms"
proof -
  have g: "mget (index_monitors ms) n = (case find (\<lambda>x. m_name x = n) (rev ms) of Some x \<Rightarrow> Some x | None \<Rightarrow> None)"
    unfolding index_monitors_def
    by (subst gm.get_fold_put [where key = m_name and val = "\<lambda>x. x"]) (simp split: option.split)
  have u: "x = y" if "x \<in> set ms" "y \<in> set ms" "m_name x = m_name y" for x y
    by (rule distinct_map_eqD [OF assms that])
  show "mget (index_monitors ms) n = None \<longleftrightarrow> n \<notin> m_name ` set ms"
  proof -
    have "find (\<lambda>x. m_name x = n) (rev ms) = None \<longleftrightarrow> n \<notin> m_name ` set ms"
      by (auto simp: find_None_iff)
    then show ?thesis by (auto simp: g split: option.split)
  qed
  show "mget (index_monitors ms) n = Some b \<longleftrightarrow> b \<in> set ms \<and> m_name b = n"
  proof (cases "find (\<lambda>x. m_name x = n) (rev ms)")
    case None
    then have "\<forall>x \<in> set ms. m_name x \<noteq> n" by (auto simp: find_None_iff)
    with None show ?thesis by (auto simp: g)
  next
    case (Some x)
    then have "x \<in> set ms" "m_name x = n" by (auto dest: find_SomeD)
    with Some show ?thesis by (auto simp: g dest: u)
  qed
qed

lemma map_ok_index [simp]: "map_ok (index_monitors ms)"
  unfolding index_monitors_def by (rule gm.inv_fold_put [where key = m_name and val = "\<lambda>x. x"]) simp

lemma pass_inv_skip:
  assumes "pass_inv ms P S" "i_name it \<notin> i_name ` P" "b \<in> set ms" "m_name b = i_name it" "i_ok it b"
  shows "pass_inv ms (insert it P) S"
  using assms unfolding pass_inv_def by (auto 4 4 intro: rev_image_eqI)

lemma pass_inv_new:
  assumes "pass_inv ms P S" "i_name it \<notin> i_name ` P" "i_name it \<notin> m_name ` set ms" "item_wf it"
    and "i \<notin> m_id ` set S"
  shows "pass_inv ms (insert it P) (S @ [(i_new it)\<lparr>m_id := i\<rparr>])"
  using assms unfolding pass_inv_def item_wf_def by auto

lemma pass_inv_fix:
  assumes inv: "pass_inv ms P S" and new: "i_name it \<notin> i_name ` P"
    and b: "b \<in> set ms" "m_name b = i_name it" and wf: "item_wf it"
  shows "pass_inv ms (insert it P) (map (\<lambda>x. if m_id x = m_id b then i_fix it b else x) S)"
proof -
  let ?f = "\<lambda>x. if m_id x = m_id b then i_fix it b else x"
  from inv b new have bS: "b \<in> set S" by (simp add: pass_inv_def)
  have only: "x = b" if "x \<in> set S" "m_id x = m_id b" for x
    using inv that bS by (auto simp: pass_inv_def intro: distinct_map_eqD)
  have f: "m_name (?f x) = m_name x" "m_id (?f x) = m_id x" if "x \<in> set S" for x
    using only [OF that] wf b(2) by (auto simp: item_wf_def)
  have names: "map m_name (map ?f S) = map m_name S" and ids: "map m_id (map ?f S) = map m_id S"
    by (simp_all add: f comp_def cong: map_cong)
  have sets: "m_name ` set (map ?f S) = m_name ` set S"
    using names by (metis list.set_map)
  have keep: "x \<in> set (map ?f S)" if "x \<in> set S" "m_name x \<noteq> i_name it" for x
    using that only [OF that(1)] b(2) by (auto intro!: rev_image_eqI [OF that(1)])
  have fixed: "i_fix it b \<in> set (map ?f S)" using bS by force
  show ?thesis
    unfolding pass_inv_def
  proof (intro conjI ballI impI)
    show "distinct (map m_name (map ?f S))" "distinct (map m_id (map ?f S))"
      using inv unfolding names ids by (simp_all add: pass_inv_def)
    show "\<exists>x \<in> set (map ?f S). m_id x = m_id c \<and> m_name x = m_name c" if c: "c \<in> set ms" for c
    proof -
      from inv c obtain x where "x \<in> set S" "m_id x = m_id c" "m_name x = m_name c"
        by (auto simp: pass_inv_def)
      with f [of x] show ?thesis by (intro bexI [of _ "?f x"]) auto
    qed
    show "c \<in> set (map ?f S)" if "c \<in> set ms" "m_name c \<notin> i_name ` insert it P" for c
      using inv that by (intro keep) (auto simp: pass_inv_def)
    show "\<exists>x \<in> set (map ?f S). m_name x = i_name jt \<and> i_ok jt x" if jt: "jt \<in> insert it P" for jt
    proof (cases "jt = it")
      case True
      with fixed wf show ?thesis by (auto simp: item_wf_def)
    next
      case False
      with jt inv obtain x where "x \<in> set S" "m_name x = i_name jt" "i_ok jt x"
        by (auto simp: pass_inv_def)
      moreover from False jt new have "i_name jt \<noteq> i_name it" by (auto simp: rev_image_eqI)
      ultimately show ?thesis using keep [of x] by auto
    qed
    show "m_name ` set (map ?f S) = m_name ` set ms \<union> i_name ` insert it P"
    proof -
      from b have "i_name it \<in> m_name ` set ms" by (metis imageI)
      with inv show ?thesis unfolding sets by (auto simp: pass_inv_def)
    qed
  qed
qed

text \<open>Failures are only ever added, so a pass without failures is made of steps without failures.\<close>

lemma sync_item_failed: "st_failed (snd (sync_item cl existing it s)) = [] \<Longrightarrow> st_failed (snd s) = []"
  by (cases s) (auto simp: sync_item_def created_def updated_def failed_def skipped_def
      split: option.splits prod.splits if_splits)

lemma sync_items_failed: "st_failed (snd (fold (sync_item cl existing) its s)) = [] \<Longrightarrow> st_failed (snd s) = []"
proof (induction its arbitrary: s)
  case (Cons it its)
  have "st_failed (snd (sync_item cl existing it s)) = []"
    by (rule Cons.IH) (use Cons.prems in simp)
  then show ?case by (rule sync_item_failed)
qed simp

lemma delete_orphan_failed: "st_failed (snd (delete_orphan cl expected e s)) = [] \<Longrightarrow> st_failed (snd s) = []"
  by (cases s; cases e) (auto simp: delete_orphan_def deleted_def failed_def split: prod.splits if_splits)

lemma delete_orphans_failed:
  "st_failed (snd (fold (delete_orphan cl expected) es s)) = [] \<Longrightarrow> st_failed (snd s) = []"
proof (induction es arbitrary: s)
  case (Cons e es)
  have "st_failed (snd (delete_orphan cl expected e s)) = []"
    by (rule Cons.IH) (use Cons.prems in simp)
  then show ?case by (rule delete_orphan_failed)
qed simp

lemma sync_item_inv:
  assumes laws: "server_laws cl mons" and inv: "pass_inv ms P (mons w)" and wf: "item_wf it"
    and new: "i_name it \<notin> i_name ` P" and dist: "distinct (map m_name ms)"
    and ok: "st_failed (snd (sync_item cl (index_monitors ms) it (w, st))) = []"
  shows "pass_inv ms (insert it P) (mons (fst (sync_item cl (index_monitors ms) it (w, st))))"
proof (cases "mget (index_monitors ms) (i_name it)")
  case None
  then have nin: "i_name it \<notin> m_name ` set ms" by (simp add: index_monitors_get [OF dist])
  obtain r w1 where c: "create_and_start cl (i_new it) w = (r, w1)" by fastforce
  with None ok have r: "r" by (auto simp: sync_item_def failed_def split: if_splits)
  obtain oi w0 where k: "k_create_monitor cl (i_new it) w = (oi, w0)" by fastforce
  with c r obtain i where i: "oi = Some i" by (cases oi) (auto simp: create_and_start_def)
  from laws k i have fresh: "i \<notin> m_id ` set (mons w)" and m0: "mons w0 = mons w @ [(i_new it)\<lparr>m_id := i\<rparr>]"
    by (auto simp: server_laws_def)
  from c k i have "w1 = snd (k_resume_monitor cl i w0)" by (simp add: create_and_start_def)
  with laws m0 have "mons w1 = mons w @ [(i_new it)\<lparr>m_id := i\<rparr>]" by (simp add: server_laws_def)
  with pass_inv_new [OF inv new nin wf fresh] None c show ?thesis by (simp add: sync_item_def)
next
  case (Some b)
  then have b: "b \<in> set ms" "m_name b = i_name it" by (simp_all add: index_monitors_get [OF dist])
  show ?thesis
  proof (cases "i_ok it b")
    case True
    with Some pass_inv_skip [OF inv new b True] show ?thesis by (simp add: sync_item_def)
  next
    case False
    obtain r w1 where u: "k_update_monitor cl (i_fix it b) w = (r, w1)" by fastforce
    with Some False ok have "r" by (auto simp: sync_item_def failed_def split: if_splits)
    with laws u have "mons w1 = map (\<lambda>x. if m_id x = m_id (i_fix it b) then i_fix it b else x) (mons w)"
      by (auto simp: server_laws_def)
    with pass_inv_fix [OF inv new b wf] Some False u wf show ?thesis
      by (simp add: sync_item_def item_wf_def)
  qed
qed

lemma sync_items_inv:
  assumes laws: "server_laws cl mons" and dist: "distinct (map m_name ms)"
    and "pass_inv ms P (mons (fst s))" "\<And>it. it \<in> set its \<Longrightarrow> item_wf it"
    and "distinct (map i_name its)" "i_name ` set its \<inter> i_name ` P = {}"
    and "st_failed (snd (fold (sync_item cl (index_monitors ms)) its s)) = []"
  shows "pass_inv ms (P \<union> set its) (mons (fst (fold (sync_item cl (index_monitors ms)) its s)))"
  using assms(3-)
proof (induction its arbitrary: P s)
  case (Cons it its)
  let ?s = "sync_item cl (index_monitors ms) it s"
  from Cons.prems(5) have f: "st_failed (snd ?s) = []" using sync_items_failed by fastforce
  have "pass_inv ms (insert it P) (mons (fst ?s))"
    using sync_item_inv [OF laws, of ms P "fst s" it "snd s"] Cons.prems f dist by simp
  from Cons.IH [OF this] Cons.prems show ?case by auto
qed simp

text \<open>The deletions remove exactly the monitors of the names they go over that are not expected.\<close>

lemma delete_orphans_mons:
  assumes laws: "server_laws cl mons"
    and "\<And>x e. x \<in> set (mons (fst s)) \<Longrightarrow> e \<in> set es \<Longrightarrow> m_id x = m_id (snd e) \<longleftrightarrow> m_name x = fst e"
    and "st_failed (snd (fold (delete_orphan cl expected) es s)) = []"
  shows "mons (fst (fold (delete_orphan cl expected) es s)) =
    filter (\<lambda>x. mget expected (m_name x) = Some True \<or> m_name x \<notin> fst ` set es) (mons (fst s))"
  using assms(2-)
proof (induction es arbitrary: s)
  case (Cons e es)
  obtain w st where s: "s = (w, st)" by (cases s)
  obtain n b where e: "e = (n, b)" by (cases e)
  let ?s = "delete_orphan cl expected e s"
  from Cons.prems(2) have f: "st_failed (snd ?s) = []" using delete_orphans_failed by fastforce
  have m: "mons (fst ?s) = filter (\<lambda>x. mget expected (m_name x) = Some True \<or> m_name x \<noteq> n) (mons w)"
  proof (cases "mget expected n = Some True")
    case True
    then show ?thesis by (auto simp: delete_orphan_def s e intro: filter_True [symmetric])
  next
    case False
    obtain r w1 where d: "k_delete_monitor cl (m_id b) w = (r, w1)" by fastforce
    with False f have "r" by (auto simp: delete_orphan_def s e failed_def split: if_splits)
    with laws d have "mons w1 = filter (\<lambda>x. m_id x \<noteq> m_id b) (mons w)" by (auto simp: server_laws_def)
    with Cons.prems(1) [of _ e] False d show ?thesis
      by (auto simp: delete_orphan_def s e intro!: filter_cong)
  qed
  then have "set (mons (fst ?s)) \<subseteq> set (mons (fst s))" by (auto simp: s)
  with Cons.prems have "mons (fst (fold (delete_orphan cl expected) es ?s)) =
      filter (\<lambda>x. mget expected (m_name x) = Some True \<or> m_name x \<notin> fst ` set es) (mons (fst ?s))"
    by (intro Cons.IH) auto
  then have "mons (fst (fold (delete_orphan cl expected) (e # es) s)) =
      filter (\<lambda>x. (mget expected (m_name x) = Some True \<or> m_name x \<noteq> n) \<and>
                  (mget expected (m_name x) = Some True \<or> m_name x \<notin> fst ` set es)) (mons w)"
    by (simp add: m)
  also have "\<dots> = filter (\<lambda>x. mget expected (m_name x) = Some True \<or> m_name x \<notin> fst ` set (e # es)) (mons w)"
    by (rule filter_cong) (auto simp: e)
  finally show ?case by (simp add: s)
qed simp

subsection \<open>The expected names\<close>

definition expected_names :: "catalog \<Rightarrow> string set" where
  "expected_names cat =
     sv_name ` {s \<in> set (cat_services cat). is_monitored s \<and> first_domain (sv_domain s) \<noteq> []} \<union>
     (\<lambda>h. ping_prefix @ h_node_name h) ` {h \<in> set (cat_hosts cat). h_node_name h \<noteq> []} \<union>
     t_name ` set tcp_targets"

lemma fold_put_True:
  "mget (fold (\<lambda>x. mput (key x) True) xs m) k = Some True \<longleftrightarrow> k \<in> key ` set xs \<or> mget m k = Some True"
  by (induction xs arbitrary: m) auto

lemma expected_get:
  "mget (expected_monitor_names (cat_services cat) (cat_hosts cat)) n = Some True \<longleftrightarrow> n \<in> expected_names cat"
  by (auto simp: expected_monitor_names_def expected_names_def fold_put_True)

lemma set_map_filter: "set (List.map_filter f xs) = {y. \<exists>x \<in> set xs. f x = Some y}"
  by (force simp: List.map_filter_def)

lemma wanted_expected: "it \<in> set (wanted_items cat) \<Longrightarrow> i_name it \<in> expected_names cat"
  by (auto simp: wanted_items_def set_map_filter expected_names_def service_item_def ping_item_def tcp_item_def
      split: if_splits)

lemma index_monitors_set:
  assumes "distinct (map m_name ms)"
  shows "(n, b) \<in> set (index_monitors ms) \<longleftrightarrow> b \<in> set ms \<and> m_name b = n"
proof -
  have "(n, b) \<in> set (index_monitors ms) \<longleftrightarrow> mget (index_monitors ms) n = Some b"
    using map_ok_index [of ms] by (simp add: mget_def map_ok_def mkeys_def)
  then show ?thesis by (simp add: index_monitors_get [OF assms])
qed

lemma sync_monitors_result:
  assumes laws: "server_laws cl mons"
    and ms: "distinct (map m_name (mons w))" "distinct (map m_id (mons w))"
    and names: "distinct (map i_name (wanted_items cat))"
    and run: "sync_monitors cl cat (mons w) (w, st0) = (w', st)" "st_failed st = []"
  shows "distinct (map m_name (mons w')) \<and> distinct (map m_id (mons w')) \<and>
    m_name ` set (mons w') = (m_name ` set (mons w) \<inter> expected_names cat) \<union> i_name ` set (wanted_items cat) \<and>
    (\<forall>it \<in> set (wanted_items cat). \<exists>x \<in> set (mons w'). m_name x = i_name it \<and> i_ok it x)"
proof -
  let ?ms = "mons w" and ?exp = "expected_monitor_names (cat_services cat) (cat_hosts cat)"
  let ?s = "fold (sync_item cl (index_monitors ?ms)) (wanted_items cat) (w, st0)"
  have run': "fold (delete_orphan cl ?exp) (index_monitors ?ms) ?s = (w', st)"
    using run(1) by (simp add: sync_monitors_items)
  then have f: "st_failed (snd ?s) = []"
    using run(2) delete_orphans_failed [of cl ?exp "index_monitors ?ms" ?s] by simp
  have inv: "pass_inv ?ms (set (wanted_items cat)) (mons (fst ?s))"
    using sync_items_inv [OF laws ms(1), of "{}" "(w, st0)" "wanted_items cat"] pass_inv_start [OF ms] names f
      wanted_items_wf by simp
  let ?S = "mons (fst ?s)"
  have ids: "m_id x = m_id (snd e) \<longleftrightarrow> m_name x = fst e" if "x \<in> set ?S" "e \<in> set (index_monitors ?ms)" for x e
  proof -
    obtain n b where e: "e = (n, b)" by (cases e)
    with that(2) have b: "b \<in> set ?ms" "m_name b = n" by (simp_all add: index_monitors_set [OF ms(1)])
    from inv b(1) obtain y where "y \<in> set ?S" "m_id y = m_id b" "m_name y = m_name b"
      by (auto simp: pass_inv_def)
    with inv that(1) b(2) e show ?thesis
      unfolding pass_inv_def by (metis distinct_map_eqD fst_conv snd_conv)
  qed
  have S': "mons w' = filter (\<lambda>x. m_name x \<in> expected_names cat \<or> m_name x \<notin> m_name ` set ?ms) ?S"
  proof -
    have "fst ` set (index_monitors ?ms) = dom (mget (index_monitors ?ms))"
      by (metis list.set_map mkeys_def mkeys_dom)
    also have "\<dots> = m_name ` set ?ms"
      unfolding index_monitors_def
      by (subst gm.dom_fold_put [where key = m_name and val = "\<lambda>x. x"]) simp
    finally have "fst ` set (index_monitors ?ms) = m_name ` set ?ms" .
    then show ?thesis
      using delete_orphans_mons [OF laws, of ?s "index_monitors ?ms" ?exp] ids run' run(2)
      by (simp add: expected_get)
  qed
  have "m_name ` set (mons w') = {n \<in> m_name ` set ?S. n \<in> expected_names cat \<or> n \<notin> m_name ` set ?ms}"
    by (auto simp: S')
  moreover have "m_name ` set ?S = m_name ` set ?ms \<union> i_name ` set (wanted_items cat)"
    using inv by (simp add: pass_inv_def)
  ultimately have n: "m_name ` set (mons w') =
      (m_name ` set ?ms \<inter> expected_names cat) \<union> i_name ` set (wanted_items cat)"
  proof -
    have "i_name ` set (wanted_items cat) \<subseteq> expected_names cat" using wanted_expected by auto
    then show ?thesis
      unfolding \<open>m_name ` set (mons w') = _\<close> \<open>m_name ` set ?S = _\<close> by blast
  qed
  have w: "\<exists>x \<in> set (mons w'). m_name x = i_name it \<and> i_ok it x" if "it \<in> set (wanted_items cat)" for it
  proof -
    from inv that obtain x where "x \<in> set ?S" "m_name x = i_name it" "i_ok it x"
      by (auto simp: pass_inv_def)
    with wanted_expected [OF that] show ?thesis by (auto simp: S')
  qed
  show ?thesis
    using inv n w by (auto simp: pass_inv_def S' distinct_map_filter)
qed

lemma sync_items_quiet:
  assumes "\<And>it. it \<in> set its \<Longrightarrow> \<exists>b. mget existing (i_name it) = Some b \<and> i_ok it b"
  shows "fold (sync_item cl existing) its (w, st) = (w, st\<lparr>st_skipped := st_skipped st + length its\<rparr>)"
  using assms
proof (induction its arbitrary: st)
  case (Cons it its)
  from Cons.prems [of it] obtain b where "mget existing (i_name it) = Some b" "i_ok it b" by auto
  with Cons show ?case by (simp add: sync_item_def skipped_def)
qed simp

lemma delete_orphans_quiet:
  assumes "\<And>e. e \<in> set es \<Longrightarrow> mget expected (fst e) = Some True"
  shows "fold (delete_orphan cl expected) es (w, st) = (w, st)"
  using assms
proof (induction es)
  case (Cons e es)
  then have "delete_orphan cl expected e (w, st) = (w, st)"
    using Cons.prems [of e] by (simp add: delete_orphan_def split_beta)
  with Cons show ?case by simp
qed simp

lemma in_sync_quiet:
  assumes "distinct (map m_name ms)" "m_name ` set ms \<subseteq> expected_names cat"
    and "\<forall>it \<in> set (wanted_items cat). \<exists>x \<in> set ms. m_name x = i_name it \<and> i_ok it x"
  shows "sync_monitors cl cat ms (w, st) =
    (w, st\<lparr>st_skipped := st_skipped st + length (wanted_items cat)\<rparr>)"
proof -
  have "\<exists>b. mget (index_monitors ms) (i_name it) = Some b \<and> i_ok it b" if "it \<in> set (wanted_items cat)" for it
    using assms(3) that by (auto simp: index_monitors_get [OF assms(1)])
  moreover have "mget (expected_monitor_names (cat_services cat) (cat_hosts cat)) (fst e) = Some True"
    if "e \<in> set (index_monitors ms)" for e
    using assms(2) that index_monitors_set [OF assms(1), of "fst e" "snd e"] by (auto simp: expected_get)
  ultimately show ?thesis
    by (simp add: sync_monitors_items sync_items_quiet delete_orphans_quiet)
qed

section \<open>A server to run against\<close>

text \<open>A server that obeys the laws and whose world is just its monitors; every other call succeeds.\<close>

definition fresh_id :: "monitor list \<Rightarrow> int" where
  "fresh_id ms = 1 + fold max (map m_id ms) 0"

lemma fold_max_bound: "(\<forall>x \<in> set xs. x \<le> fold max xs a) \<and> a \<le> fold max xs (a :: int)"
proof (induction xs arbitrary: a)
  case (Cons x xs)
  from Cons.IH [of "max x a"] show ?case by auto
qed simp

lemma fresh_id_fresh: "fresh_id ms \<notin> m_id ` set ms"
  using fold_max_bound [of "map m_id ms" 0] by (auto simp: fresh_id_def)

definition honest_server :: "monitor list client" where
  "honest_server =
     \<lparr>k_get_monitors = \<lambda>w. (Some w, w),
      k_create_monitor = \<lambda>m w. (Some (fresh_id w), w @ [m\<lparr>m_id := fresh_id w\<rparr>]),
      k_resume_monitor = \<lambda>i w. (True, w),
      k_update_monitor = \<lambda>m w. (True, map (\<lambda>x. if m_id x = m_id m then m else x) w),
      k_delete_monitor = \<lambda>i w. (True, filter (\<lambda>x. m_id x \<noteq> i) w),
      k_get_settings = \<lambda>w. (Some \<lparr>se_timezone = server_timezone, se_keep_days = 180, se_rest = VNil\<rparr>, w),
      k_set_settings = \<lambda>s p w. (True, w), k_get_notifications = \<lambda>w. ([], w),
      k_create_notification = \<lambda>n w. (True, w), k_update_notification = \<lambda>n w. (True, w),
      k_get_maintenances = \<lambda>w. (Some [], w), k_create_maintenance = \<lambda>m w. (Some 1, w),
      k_update_maintenance = \<lambda>m w. (True, w), k_delete_maintenance = \<lambda>i w. (True, w),
      k_set_monitor_maintenance = \<lambda>i is w. (True, w), k_get_status_pages = \<lambda>w. (Some [], w),
      k_add_status_page = \<lambda>t s w. (True, w), k_save_status_page = \<lambda>p w. (True, w),
      k_metrics_status = \<lambda>u k w. (Some 200, w), k_disconnect = \<lambda>w. w\<rparr>"

lemma honest_laws: "server_laws honest_server (\<lambda>w. w)"
  by (simp add: server_laws_def honest_server_def fresh_id_fresh)

definition sample_catalog :: catalog where
  "sample_catalog =
     \<lparr>cat_services = [\<lparr>sv_name = ''immich'', sv_enabled = None, sv_domain = VStr ''i.mljr.eu'',
                       sv_monitor_path = [], sv_host = ''nas'', sv_monitor = None\<rparr>],
      cat_hosts = [\<lparr>h_node_name = ''nas'', h_node_host = ''10.0.0.2''\<rparr>]\<rparr>"

definition sample_monitors :: "monitor list" where
  "sample_monitors = [(new_monitor HTTP ''gone'')\<lparr>m_id := 4\<rparr>, (http_monitor ''immich'' ''http://old'')\<lparr>m_id := 7\<rparr>]"

section \<open>Properties\<close>

text \<open>
  Claim C3. Provisioning converges: against a server that behaves as documented, with
  unambiguous names, a pass in which no operation failed leaves every monitored service with a
  monitor on its URL, every host with an address a ping monitor on that address with three
  retries, every fixed TCP target its monitor, and no monitor whose name the catalog does not
  expect; the names stay unambiguous.
\<close>

theorem sync_converges:
  assumes "server_laws cl mons"
    and "distinct (map m_name (mons w))" "distinct (map m_id (mons w))"
    and "distinct (map i_name (wanted_items cat))"
    and "sync_monitors cl cat (mons w) (w, no_stats) = (w', st)" "st_failed st = []"
  shows "(\<forall>svc \<in> set (cat_services cat). is_monitored svc \<and> first_domain (sv_domain svc) \<noteq> [] \<longrightarrow>
            (\<exists>x \<in> set (mons w'). m_name x = sv_name svc \<and> m_url x = service_url svc)) \<and>
    (\<forall>h \<in> set (cat_hosts cat). h_node_name h \<noteq> [] \<and> h_node_host h \<noteq> [] \<longrightarrow>
            (\<exists>x \<in> set (mons w'). m_name x = ping_prefix @ h_node_name h \<and> m_hostname x = h_node_host h \<and>
                                   m_max_retries x = 3)) \<and>
    (\<forall>t \<in> set tcp_targets. \<exists>x \<in> set (mons w'). m_name x = t_name t \<and> m_hostname x = t_host t \<and> m_port x = t_port t) \<and>
    m_name ` set (mons w') \<subseteq> expected_names cat \<and> distinct (map m_name (mons w'))"
proof -
  note r = sync_monitors_result [OF assms]
  then have d: "distinct (map m_name (mons w'))" and sub: "m_name ` set (mons w') \<subseteq> expected_names cat"
    using wanted_expected by auto
  have w: "\<exists>x \<in> set (mons w'). m_name x = i_name it \<and> i_ok it x" if "it \<in> set (wanted_items cat)" for it
    using r that by blast
  have s: "\<exists>x \<in> set (mons w'). m_name x = sv_name svc \<and> m_url x = service_url svc"
    if "svc \<in> set (cat_services cat)" "is_monitored svc" "first_domain (sv_domain svc) \<noteq> []" for svc
  proof -
    from that obtain it where it: "service_item svc = Some it" by (auto simp: service_item_def)
    with that have "it \<in> set (wanted_items cat)" by (auto simp: wanted_items_def set_map_filter)
    from w [OF this] it that show ?thesis by (auto simp: service_item_def)
  qed
  have p: "\<exists>x \<in> set (mons w'). m_name x = ping_prefix @ h_node_name h \<and> m_hostname x = h_node_host h \<and> m_max_retries x = 3"
    if "h \<in> set (cat_hosts cat)" "h_node_name h \<noteq> []" "h_node_host h \<noteq> []" for h
  proof -
    from that obtain it where it: "ping_item h = Some it" by (auto simp: ping_item_def)
    with that have "it \<in> set (wanted_items cat)" by (auto simp: wanted_items_def set_map_filter)
    from w [OF this] it that show ?thesis by (auto simp: ping_item_def)
  qed
  have t: "\<exists>x \<in> set (mons w'). m_name x = t_name t \<and> m_hostname x = t_host t \<and> m_port x = t_port t"
    if "t \<in> set tcp_targets" for t
  proof -
    from that obtain it where it: "tcp_item t = Some it" by (auto simp: tcp_item_def)
    with that have "it \<in> set (wanted_items cat)" by (auto simp: wanted_items_def set_map_filter)
    from w [OF this] it show ?thesis by (auto simp: tcp_item_def)
  qed
  from s p t sub d show ?thesis by blast
qed

lemma sample_names: "distinct (map i_name (wanted_items sample_catalog))"
  by code_simp

lemma sample_sync:
  obtains w' st where
    "sync_monitors honest_server sample_catalog sample_monitors (sample_monitors, no_stats) = (w', st)" "st_failed st = []"
proof -
  have "st_failed (snd (sync_monitors honest_server sample_catalog sample_monitors (sample_monitors, no_stats))) = []"
    by code_simp
  with that show ?thesis
    by (cases "sync_monitors honest_server sample_catalog sample_monitors (sample_monitors, no_stats)") simp
qed

theorem sync_converges_witness:
  "\<exists>w' st. sync_monitors honest_server sample_catalog sample_monitors (sample_monitors, no_stats) = (w', st) \<and>
     (\<exists>x \<in> set w'. m_name x = ''immich'' \<and> m_url x = ''https://i.mljr.eu'') \<and> ''gone'' \<notin> m_name ` set w'"
proof -
  obtain w' st where r:
    "sync_monitors honest_server sample_catalog sample_monitors (sample_monitors, no_stats) = (w', st)"
    "st_failed st = []" by (rule sample_sync)
  have "distinct (map m_name sample_monitors)" "distinct (map m_id sample_monitors)"
    by (simp_all add: sample_monitors_def new_monitor_def http_monitor_def)
  from sync_converges [OF honest_laws this sample_names r]
  have c: "\<forall>svc \<in> set (cat_services sample_catalog). is_monitored svc \<and> first_domain (sv_domain svc) \<noteq> [] \<longrightarrow>
      (\<exists>x \<in> set w'. m_name x = sv_name svc \<and> m_url x = service_url svc)"
    and e: "m_name ` set w' \<subseteq> expected_names sample_catalog" by blast+
  have "\<exists>x \<in> set w'. m_name x = ''immich'' \<and> m_url x = ''https://i.mljr.eu''"
    using c by (simp add: sample_catalog_def is_monitored_def is_enabled_def first_domain_def service_url_def
        target_url_for_def has_prefix_def)
  moreover have "''gone'' \<notin> expected_names sample_catalog"
    by (simp add: expected_names_def sample_catalog_def tcp_targets_def ping_prefix_def smtp_prefix_def
        tcp_prefix_def mail_smtp_in_name_def mail_smtps_name_def mail_imaps_name_def image_iff)
  ultimately show ?thesis using r e by blast
qed

text \<open>
  Claim C5. Provisioning is idempotent: after a pass without failures a second pass over the
  monitors then on the server makes no call at all and leaves the world as it is; it only counts
  every wanted monitor as unchanged.
\<close>

theorem sync_idempotent:
  assumes "server_laws cl mons"
    and "distinct (map m_name (mons w))" "distinct (map m_id (mons w))"
    and "distinct (map i_name (wanted_items cat))"
    and "sync_monitors cl cat (mons w) (w, no_stats) = (w', st)" "st_failed st = []"
  shows "sync_monitors cl cat (mons w') (w', no_stats) = (w', no_stats\<lparr>st_skipped := length (wanted_items cat)\<rparr>)"
proof -
  from sync_monitors_result [OF assms] have
    "distinct (map m_name (mons w'))" "m_name ` set (mons w') \<subseteq> expected_names cat"
    "\<forall>it \<in> set (wanted_items cat). \<exists>x \<in> set (mons w'). m_name x = i_name it \<and> i_ok it x"
    using wanted_expected by auto
  from in_sync_quiet [OF this, of cl w' no_stats] show ?thesis by (simp add: no_stats_def)
qed

theorem sync_idempotent_witness:
  "\<exists>w' st. sync_monitors honest_server sample_catalog sample_monitors (sample_monitors, no_stats) = (w', st) \<and>
     sync_monitors honest_server sample_catalog w' (w', no_stats) = (w', no_stats\<lparr>st_skipped := 8\<rparr>)"
proof -
  obtain w' st where r:
    "sync_monitors honest_server sample_catalog sample_monitors (sample_monitors, no_stats) = (w', st)"
    "st_failed st = []" by (rule sample_sync)
  have "distinct (map m_name sample_monitors)" "distinct (map m_id sample_monitors)"
    by (simp_all add: sample_monitors_def new_monitor_def http_monitor_def)
  from sync_idempotent [OF honest_laws this sample_names r]
  have "sync_monitors honest_server sample_catalog w' (w', no_stats) =
      (w', no_stats\<lparr>st_skipped := length (wanted_items sample_catalog)\<rparr>)" .
  moreover have "length (wanted_items sample_catalog) = 8" by code_simp
  ultimately show ?thesis using r(1) by auto
qed

text \<open>
  Every wanted monitor and every orphan is accounted for exactly once, whatever the server
  answers: the statistics of a pass (created, updated, deleted, unchanged and failed together) add
  up to the monitored services with a domain, the hosts with a name and an address, the six TCP
  targets and the existing monitors nobody expects.
\<close>

lemma delete_orphans_tally:
  "tally (snd (fold (delete_orphan cl expected) es s)) =
     tally (snd s) + length (filter (\<lambda>e. mget expected (fst e) \<noteq> Some True) es)"
  by (induction es arbitrary: s) (auto simp: delete_orphan_def split: prod.splits)

theorem sync_accounts:
  "tally (snd (sync_monitors cl cat ms (w, no_stats))) =
     length (filter (\<lambda>s. is_monitored s \<and> first_domain (sv_domain s) \<noteq> []) (cat_services cat)) +
     length (filter (\<lambda>h. h_node_name h \<noteq> [] \<and> h_node_host h \<noteq> []) (cat_hosts cat)) + 6 +
     length (filter (\<lambda>e. fst e \<notin> expected_names cat) (index_monitors ms))"
proof -
  have n: "(service_item s \<noteq> None) = (is_monitored s \<and> first_domain (sv_domain s) \<noteq> [])"
    "(ping_item h \<noteq> None) = (h_node_name h \<noteq> [] \<and> h_node_host h \<noteq> [])" "tcp_item t \<noteq> None" for s h t
    by (auto simp: service_item_def ping_item_def tcp_item_def)
  have "tally no_stats = 0" "length tcp_targets = 6" by (simp_all add: tally_def no_stats_def tcp_targets_def)
  then show ?thesis
    by (simp add: sync_monitors_def Let_def delete_orphaned_monitors_def sync_tcp_monitors_def
        sync_ping_monitors_def sync_service_monitors_def delete_orphans_tally tcp.loop_tally png.loop_tally
        svc.loop_tally n expected_get del: not_None_eq)
qed

end
