(* ===== verification/Service_Catalog.thy ===== *)
theory Service_Catalog
  imports Go_Any
begin

text \<open>
  The two tools that read the service catalog of \<^verbatim>\<open>openvox/data/common.yaml\<close>:
  \<^verbatim>\<open>src/tools/cmd/validate-services/main.go\<close>, which checks it, and
  \<^verbatim>\<open>src/tools/cmd/check-services/main.go\<close>, which probes what it lists.  The decoded catalog, the
  existence of files, the decoded compose files and the HTTP probe are parameters.  An error or a
  warning is a constructor with the values its message prints; \<open>issue_text\<close> is the message.
\<close>

section \<open>Shared\<close>

record service_entry =
  se_name :: string
  se_enabled :: "bool option"
  se_managed :: "bool option"
  se_skip_deploy :: bool
  se_host :: string
  se_port :: "int option"
  se_domain :: any

definition entry_enabled :: "service_entry \<Rightarrow> bool" where
  "entry_enabled s \<longleftrightarrow> se_enabled s \<noteq> Some False"

definition entry_managed :: "service_entry \<Rightarrow> bool" where
  "entry_managed s \<longleftrightarrow> se_managed s \<noteq> Some False"

definition domains_of :: "any \<Rightarrow> string list" where
  "domains_of d =
     (case d of
        VStr s \<Rightarrow> if s = [] then [] else [s]
      | VList vs \<Rightarrow> concat (map (\<lambda>v. case v of VStr s \<Rightarrow> [s] | _ \<Rightarrow> []) vs)
      | _ \<Rightarrow> [])"

text \<open>
  The walk from the working directory to the root of the file system; a directory is the list of its
  components, innermost first, and \<open>marked\<close> says whether the marker file is in it.
\<close>

fun find_repo_root :: "(string list \<Rightarrow> bool) \<Rightarrow> string list \<Rightarrow> string list option" where
  "find_repo_root marked [] = (if marked [] then Some [] else None)"
| "find_repo_root marked (c # dir) = (if marked (c # dir) then Some (c # dir) else find_repo_root marked dir)"

text \<open>\<^verbatim>\<open>m[k] = append(m[k], v)\<close> over a list of pairs.\<close>

definition append_at :: "'k \<times> 'v \<Rightarrow> ('k, 'v list) gmap \<Rightarrow> ('k, 'v list) gmap" where
  "append_at = (\<lambda>(k, v) m. mput k ((case mget m k of Some vs \<Rightarrow> vs | None \<Rightarrow> []) @ [v]) m)"

definition group_pairs :: "('k \<times> 'v) list \<Rightarrow> ('k, 'v list) gmap" where
  "group_pairs kvs = fold append_at kvs []"

section \<open>Validation\<close>

definition valid_hosts :: "string list" where
  "valid_hosts = [''mljr'', ''nuc'', ''ugreen'', ''nas'', ''wd_mycloud'', ''homeassistant'']"

datatype issue =
    NoName
  | DuplicateName string
  | UnknownHost string string
  | NoHost string
  | NoPort string
  | NoCompose string string
  | PortConflict string int "string list"
  | DomainConflict string "string list"
  | NoServices
  | StagingPort string int int int

definition quoted :: "string \<Rightarrow> string" where "quoted s = [CHR 39] @ s @ [CHR 39]"

fun issue_text :: "issue \<Rightarrow> string" where
  "issue_text NoName = ''Service found without a '' @ quoted ''name'' @ '' field''"
| "issue_text (DuplicateName n) = ''Duplicate service name: '' @ quoted n"
| "issue_text (UnknownHost n h) =
     ''Service '' @ quoted n @ '': host '' @ quoted h @ '' not found in inventory. Valid hosts: ['' @
     join '' '' (sort valid_hosts) @ '']''"
| "issue_text (NoHost n) = ''Service '' @ quoted n @ '': missing required field '' @ quoted ''host''"
| "issue_text (NoPort n) = ''Service '' @ quoted n @ '': missing required field '' @ quoted ''port''"
| "issue_text (NoCompose n p) = ''Service '' @ quoted n @ '': docker-compose.yml not found at '' @ p"
| "issue_text (PortConflict h p ns) =
     ''Port conflict on host '' @ quoted h @ '': port '' @ int_str p @ '' used by multiple services: '' @ join '', '' ns"
| "issue_text (DomainConflict d ns) =
     ''Domain conflict: '' @ quoted d @ '' used by multiple services: '' @ join '', '' ns"
| "issue_text NoServices = ''No services defined in common.yaml'' @ [CHR 39] @ ''s services_catalog''"
| "issue_text (StagingPort n s e p) =
     ''Service '' @ quoted n @ '': staging port '' @ int_str s @ '' doesn'' @ [CHR 39] @
     ''t follow +10000 convention (expected '' @ int_str e @ '' based on production port '' @ int_str p @ '')''"

text \<open>
  A decoded compose file is the list of the \<open>ports\<close> lists of its services, in the order the loop over
  the map takes them.
\<close>

definition port_of_mapping :: "any \<Rightarrow> int option" where
  "port_of_mapping p =
     (let s = takeWhile (\<lambda>c. c \<noteq> CHR ''/'') (sprint p)
      in if CHR '':'' \<in> set s then atoi (takeWhile (\<lambda>c. c \<noteq> CHR '':'') s) else None)"

fun first_some :: "('a \<Rightarrow> 'b option) \<Rightarrow> 'a list \<Rightarrow> 'b option" where
  "first_some f [] = None"
| "first_some f (x # xs) = (case f x of Some y \<Rightarrow> Some y | None \<Rightarrow> first_some f xs)"

definition extract_staging_port :: "any list list option \<Rightarrow> int option" where
  "extract_staging_port compose =
     (case compose of None \<Rightarrow> None | Some svcs \<Rightarrow> first_some port_of_mapping (concat svcs))"

record tree =
  tr_exists :: "string \<Rightarrow> bool"
  tr_compose :: "string \<Rightarrow> any list list option"
  tr_services_dir :: string

definition compose_path :: "tree \<Rightarrow> string \<Rightarrow> string" where
  "compose_path tr name = tr_services_dir tr @ ''/'' @ name @ ''/docker-compose.yml''"

definition dev_compose_path :: "tree \<Rightarrow> string \<Rightarrow> string" where
  "dev_compose_path tr name = tr_services_dir tr @ ''/'' @ name @ ''/dev/docker-compose.yml''"

record vstate =
  v_errors :: "issue list"
  v_warnings :: "issue list"
  v_ports :: "(string, (int \<times> string) list) gmap"
  v_domains :: "(string \<times> string) list" \<comment> \<open>domain and owner\<close>
  v_seen :: "string list"

definition has_port :: "service_entry \<Rightarrow> bool" where
  "has_port svc \<longleftrightarrow> (case se_port svc of Some p \<Rightarrow> 0 < p | None \<Rightarrow> False)"

definition entry_errors :: "tree \<Rightarrow> service_entry \<Rightarrow> issue list" where
  \<comment> \<open>the errors of an enabled entry by itself, in order\<close>
  "entry_errors tr svc =
     (let name = se_name svc in
      (if se_host svc \<noteq> [] \<and> se_host svc \<notin> set valid_hosts then [UnknownHost name (se_host svc)] else []) @
      (if se_host svc = [] then [NoHost name] else []) @
      (if se_port svc = None \<and> entry_managed svc then [NoPort name] else []) @
      (if entry_managed svc \<and> \<not> se_skip_deploy svc \<and> \<not> tr_exists tr (compose_path tr name) \<and>
          \<not> tr_exists tr (dev_compose_path tr name)
       then [NoCompose name (compose_path tr name)] else []))"

definition entry_warnings :: "tree \<Rightarrow> service_entry \<Rightarrow> issue list" where
  "entry_warnings tr svc =
     (let name = se_name svc; dev = dev_compose_path tr name in
      if tr_exists tr dev \<and> has_port svc then
        (case extract_staging_port (tr_compose tr dev) of None \<Rightarrow> []
         | Some staging \<Rightarrow>
             let expected = the (se_port svc) + 10000
             in if staging \<noteq> expected then [StagingPort name staging expected (the (se_port svc))] else [])
      else [])"

definition validate_entry :: "tree \<Rightarrow> service_entry \<Rightarrow> vstate \<Rightarrow> vstate" where
  "validate_entry tr svc st =
     (let name = se_name svc in
      if name = [] then st\<lparr>v_errors := v_errors st @ [NoName]\<rparr> else
      let st1 = st\<lparr>v_errors := v_errors st @ (if name \<in> set (v_seen st) then [DuplicateName name] else []),
                   v_seen := name # v_seen st\<rparr> in
      if \<not> entry_enabled svc then st1 else
      st1\<lparr>v_errors := v_errors st1 @ entry_errors tr svc,
          v_warnings := v_warnings st1 @ entry_warnings tr svc,
          v_ports := (if se_host svc \<noteq> [] \<and> has_port svc
                      then append_at (se_host svc, (the (se_port svc), name)) (v_ports st1) else v_ports st1),
          v_domains := v_domains st1 @ map (\<lambda>d. (d, name)) (domains_of (se_domain svc))\<rparr>)"

definition port_conflicts :: "string \<times> (int \<times> string) list \<Rightarrow> issue list" where
  "port_conflicts = (\<lambda>(host, port_list).
     let by_port = group_pairs port_list
     in concat (map (\<lambda>p. let names = the (mget by_port p)
                         in if 1 < length names then [PortConflict host p names] else [])
                  (sorted_keys by_port)))"

definition domain_order :: "(string \<times> string) list \<Rightarrow> string list" where
  "domain_order ds = fold (\<lambda>(d, _) order. if d \<in> set order then order else order @ [d]) ds []"

definition domain_conflicts :: "(string \<times> string) list \<Rightarrow> issue list" where
  "domain_conflicts ds =
     (let by_domain = group_pairs ds
      in concat (map (\<lambda>d. let names = the (mget by_domain d)
                          in if 1 < length names then [DomainConflict d names] else [])
                   (domain_order ds)))"

definition validate_services :: "tree \<Rightarrow> service_entry list \<Rightarrow> issue list \<times> issue list" where
  "validate_services tr services =
     (let st = fold (validate_entry tr) services
                 \<lparr>v_errors = [], v_warnings = (if services = [] then [NoServices] else []),
                  v_ports = [], v_domains = [], v_seen = []\<rparr>
      in (v_errors st @ concat (map port_conflicts (v_ports st)) @ domain_conflicts (v_domains st),
          v_warnings st))"

text \<open>The program: a catalog that cannot be loaded is one error; any error is exit code 1.\<close>

datatype catalog_doc = NotLoaded string | Loaded "service_entry list"

definition validate_main :: "string list option \<Rightarrow> (string list \<Rightarrow> tree) \<Rightarrow> (string list \<Rightarrow> catalog_doc) \<Rightarrow> int" where
  "validate_main repo tree_at doc_at =
     (case repo of None \<Rightarrow> 1
      | Some dir \<Rightarrow>
          (case doc_at dir of NotLoaded _ \<Rightarrow> 1
           | Loaded services \<Rightarrow> if fst (validate_services (tree_at dir) services) \<noteq> [] then 1 else 0))"

section \<open>Probing\<close>

definition skip_names :: "string list" where "skip_names = [''mailcow'', ''nas'']"

definition acceptable_status :: "int list" where
  "acceptable_status = [200, 201, 204, 301, 302, 303, 307, 308, 401, 403]"

record check_result =
  ck_name :: string
  ck_url :: string
  ck_ok :: bool
  ck_detail :: string

datatype probe = BadRequest string | URLError string | Status int

definition check_url :: "(string \<Rightarrow> probe) \<Rightarrow> string \<times> string \<Rightarrow> check_result" where
  "check_url get = (\<lambda>(name, url).
     case get url of
       BadRequest e \<Rightarrow> \<lparr>ck_name = name, ck_url = url, ck_ok = False, ck_detail = e\<rparr>
     | URLError e \<Rightarrow> \<lparr>ck_name = name, ck_url = url, ck_ok = False, ck_detail = ''URLError: '' @ e\<rparr>
     | Status code \<Rightarrow> \<lparr>ck_name = name, ck_url = url, ck_ok = (code \<in> set acceptable_status),
                       ck_detail = ''HTTP '' @ int_str code\<rparr>)"

definition check_task :: "service_entry \<Rightarrow> (string \<times> string) list" where
  "check_task svc =
     (let name = (if se_name svc = [] then ''?'' else se_name svc) in
      if \<not> entry_enabled svc then []
      else if name \<in> set skip_names then []
      else case domains_of (se_domain svc) of [] \<Rightarrow> [] | d # _ \<Rightarrow> [(name, ''https://'' @ d)])"

definition check_tasks :: "service_entry list \<Rightarrow> (string \<times> string) list" where
  "check_tasks services = concat (map check_task services)"

definition check_services :: "(string \<Rightarrow> probe) \<Rightarrow> service_entry list \<Rightarrow> check_result list \<times> int" where
  \<comment> \<open>the results as printed, and the exit code; each worker fills the place of its own task\<close>
  "check_services get services =
     (let tasks = check_tasks services in
      if tasks = [] then ([], 0)
      else let results = sort_key ck_name (map (check_url get) tasks)
           in (results, if filter (\<lambda>r. \<not> ck_ok r) results \<noteq> [] then 1 else 0))"

section \<open>Lemmas\<close>

lemma group_pairs_get:
  "mget (group_pairs kvs) k =
     (let vs = map snd (filter (\<lambda>x. fst x = k) kvs) in if vs = [] then None else Some vs)"
proof (induction kvs rule: rev_induct)
  case (snoc x kvs)
  then show ?case
    by (cases x) (auto simp: group_pairs_def append_at_def Let_def split: option.split if_splits)
qed (simp add: group_pairs_def)

lemma group_pairs_ok [simp]: "map_ok (group_pairs kvs)"
  by (induction kvs rule: rev_induct) (auto simp: group_pairs_def append_at_def)

lemma distinct_count: "distinct (map f xs) \<longleftrightarrow> (\<forall>k. length (filter (\<lambda>x. f x = k) xs) \<le> 1)"
proof (induction xs)
  case (Cons x xs)
  have n: "f x \<notin> f ` set xs \<longleftrightarrow> length (filter (\<lambda>y. f y = f x) xs) = 0"
    by (auto simp: filter_empty_conv image_iff)
  have "(\<forall>k. length (filter (\<lambda>y. f y = k) (x # xs)) \<le> 1) \<longleftrightarrow>
      length (filter (\<lambda>y. f y = f x) xs) = 0 \<and> (\<forall>k. length (filter (\<lambda>y. f y = k) xs) \<le> 1)"
    (is "?L \<longleftrightarrow> ?R")
  proof
    assume ?L
    then have "length (filter (\<lambda>y. f y = f x) (x # xs)) \<le> 1" by blast
    then have 0: "length (filter (\<lambda>y. f y = f x) xs) = 0" by simp
    have "length (filter (\<lambda>y. f y = k) xs) \<le> 1" for k
      using \<open>?L\<close> [rule_format, of k] by (auto split: if_splits)
    with 0 show ?R by blast
  next
    assume ?R
    then show ?L by (auto simp: not_le)
  qed
  with Cons n show ?case by simp
qed simp

lemma concat_map_Nil: "concat (map f ks) = [] \<longleftrightarrow> (\<forall>k \<in> set ks. f k = [])"
  by (induction ks) auto

lemma dom_group_pairs: "dom (mget (group_pairs kvs)) = fst ` set kvs"
  by (force simp: group_pairs_get Let_def filter_empty_conv dom_def split: if_splits)

lemma filter_key_in: "k \<notin> fst ` set kvs \<Longrightarrow> filter (\<lambda>x. fst x = k) kvs = []"
  by (auto simp: filter_empty_conv)

lemma group_pairs_the:
  "k \<in> fst ` set kvs \<Longrightarrow> mget (group_pairs kvs) k = Some (map snd (filter (\<lambda>x. fst x = k) kvs))"
  by (auto simp: group_pairs_get Let_def filter_empty_conv)

text \<open>The common shape of the two conflict reports.\<close>

lemma conflicts_none:
  assumes "set ks = fst ` set kvs"
  shows "concat (map (\<lambda>k. let names = the (mget (group_pairs kvs) k)
                          in if 1 < length names then [c k names] else []) ks) = [] \<longleftrightarrow> distinct (map fst kvs)"
proof -
  have "concat (map (\<lambda>k. let names = the (mget (group_pairs kvs) k)
                          in if 1 < length names then [c k names] else []) ks) = [] \<longleftrightarrow>
      (\<forall>k \<in> fst ` set kvs. length (filter (\<lambda>x. fst x = k) kvs) \<le> 1)"
    unfolding concat_map_Nil assms by (intro ball_cong refl) (simp add: group_pairs_the Let_def not_less)
  also have "\<dots> \<longleftrightarrow> (\<forall>k. length (filter (\<lambda>x. fst x = k) kvs) \<le> 1)"
    by (metis filter_key_in le0 list.size(3))
  finally show ?thesis by (simp only: distinct_count)
qed

lemma port_conflicts_none: "port_conflicts (h, l) = [] \<longleftrightarrow> distinct (map fst l)"
  unfolding port_conflicts_def prod.case Let_def [of "group_pairs l"]
  by (rule conflicts_none) (simp add: dom_group_pairs)

lemma domain_order_set: "set (domain_order ds) = fst ` set ds"
  by (induction ds rule: rev_induct) (auto simp: domain_order_def split: prod.splits)

lemma domain_conflicts_none: "domain_conflicts ds = [] \<longleftrightarrow> distinct (map fst ds)"
  unfolding domain_conflicts_def Let_def [of "group_pairs ds"]
  by (rule conflicts_none) (simp add: domain_order_set)

lemma group_conflicts_none:
  "concat (map port_conflicts (group_pairs kvs)) = [] \<longleftrightarrow> distinct (map (\<lambda>x. (fst x, fst (snd x))) kvs)"
proof -
  have m: "x \<in> set (group_pairs kvs) \<longleftrightarrow>
      fst x \<in> fst ` set kvs \<and> snd x = map snd (filter (\<lambda>y. fst y = fst x) kvs)" for x
  proof -
    have "x \<in> set (group_pairs kvs) \<longleftrightarrow> mget (group_pairs kvs) (fst x) = Some (snd x)"
      using group_pairs_ok [of kvs] by (simp add: mget_def map_ok_def mkeys_def)
    moreover have "mget (group_pairs kvs) (fst x) = Some (snd x) \<longleftrightarrow> fst x \<in> fst ` set kvs \<and>
        snd x = map snd (filter (\<lambda>y. fst y = fst x) kvs)"
    proof (cases "fst x \<in> fst ` set kvs")
      case True
      then show ?thesis by (simp add: group_pairs_the eq_commute)
    next
      case False
      then show ?thesis by (simp add: group_pairs_get filter_key_in)
    qed
    ultimately show ?thesis by simp
  qed
  have ff: "filter (\<lambda>x. fst x = p) (map snd (filter (\<lambda>y. fst y = h) kvs)) =
      map snd (filter (\<lambda>x. (fst x, fst (snd x)) = (h, p)) kvs)" for h and p
    by (induction kvs) auto
  have "concat (map port_conflicts (group_pairs kvs)) = [] \<longleftrightarrow>
      (\<forall>x \<in> set (group_pairs kvs). distinct (map fst (snd x)))"
    unfolding concat_map_Nil by (intro ball_cong refl) (metis port_conflicts_none prod.collapse)
  also have "\<dots> \<longleftrightarrow> (\<forall>h \<in> fst ` set kvs. \<forall>p. length (filter (\<lambda>x. (fst x, fst (snd x)) = (h, p)) kvs) \<le> 1)"
  proof
    assume L: "\<forall>x \<in> set (group_pairs kvs). distinct (map fst (snd x))"
    show "\<forall>h \<in> fst ` set kvs. \<forall>p. length (filter (\<lambda>x. (fst x, fst (snd x)) = (h, p)) kvs) \<le> 1"
    proof
      fix h assume "h \<in> fst ` set kvs"
      then have "(h, map snd (filter (\<lambda>y. fst y = h) kvs)) \<in> set (group_pairs kvs)" by (simp add: m)
      with L have "distinct (map fst (map snd (filter (\<lambda>y. fst y = h) kvs)))" by (metis snd_conv)
      then show "\<forall>p. length (filter (\<lambda>x. (fst x, fst (snd x)) = (h, p)) kvs) \<le> 1"
        unfolding distinct_count ff by simp
    qed
  next
    assume R: "\<forall>h \<in> fst ` set kvs. \<forall>p. length (filter (\<lambda>x. (fst x, fst (snd x)) = (h, p)) kvs) \<le> 1"
    show "\<forall>x \<in> set (group_pairs kvs). distinct (map fst (snd x))"
    proof
      fix x assume "x \<in> set (group_pairs kvs)"
      then have x: "fst x \<in> fst ` set kvs" "snd x = map snd (filter (\<lambda>y. fst y = fst x) kvs)" by (simp_all add: m)
      from R x(1) show "distinct (map fst (snd x))" unfolding distinct_count x(2) ff length_map by blast
    qed
  qed
  also have "\<dots> \<longleftrightarrow> (\<forall>k. length (filter (\<lambda>x. (fst x, fst (snd x)) = k) kvs) \<le> 1)"
  proof
    assume R: "\<forall>h \<in> fst ` set kvs. \<forall>p. length (filter (\<lambda>x. (fst x, fst (snd x)) = (h, p)) kvs) \<le> 1"
    show "\<forall>k. length (filter (\<lambda>x. (fst x, fst (snd x)) = k) kvs) \<le> 1"
    proof
      fix k
      show "length (filter (\<lambda>x. (fst x, fst (snd x)) = k) kvs) \<le> 1"
      proof (cases "fst k \<in> fst ` set kvs")
        case True
        obtain h p where k: "k = (h, p)" by (cases k)
        from R True show ?thesis unfolding k fst_conv by blast
      next
        case False
        then have "filter (\<lambda>x. (fst x, fst (snd x)) = k) kvs = []" by (force simp: filter_empty_conv)
        then show ?thesis by simp
      qed
    qed
  qed auto
  finally show ?thesis by (simp only: distinct_count)
qed

definition port_pairs :: "service_entry list \<Rightarrow> (string \<times> int \<times> string) list" where
  "port_pairs services =
     map (\<lambda>s. (se_host s, the (se_port s), se_name s))
       (filter (\<lambda>s. se_name s \<noteq> [] \<and> entry_enabled s \<and> se_host s \<noteq> [] \<and> has_port s) services)"

definition domain_pairs :: "service_entry list \<Rightarrow> (string \<times> string) list" where
  "domain_pairs services =
     concat (map (\<lambda>s. map (\<lambda>d. (d, se_name s)) (domains_of (se_domain s)))
       (filter (\<lambda>s. se_name s \<noteq> [] \<and> entry_enabled s) services))"

lemma validate_loop:
  "v_ports (fold (validate_entry tr) services st) = fold append_at (port_pairs services) (v_ports st)"
  "v_domains (fold (validate_entry tr) services st) = v_domains st @ domain_pairs services"
  by (induction services arbitrary: st)
    (auto simp: validate_entry_def port_pairs_def domain_pairs_def Let_def)

lemma validate_loop_errors:
  "v_errors (fold (validate_entry tr) services st) = [] \<longleftrightarrow>
     v_errors st = [] \<and>
     (\<forall>s \<in> set services. se_name s \<noteq> [] \<and> (\<not> entry_enabled s \<or> entry_errors tr s = [])) \<and>
     distinct (map se_name services) \<and> set (map se_name services) \<inter> set (v_seen st) = {}"
proof (induction services arbitrary: st)
  case (Cons s services)
  show ?case
    unfolding fold.simps comp_def Cons.IH
    by (auto simp: validate_entry_def Let_def)
qed simp

section \<open>Properties\<close>

definition good_entry :: "tree \<Rightarrow> service_entry \<Rightarrow> bool" where
  \<comment> \<open>what an enabled entry must satisfy by itself\<close>
  "good_entry tr s \<longleftrightarrow>
     se_host s \<in> set valid_hosts \<and> (se_port s \<noteq> None \<or> \<not> entry_managed s) \<and>
     (\<not> entry_managed s \<or> se_skip_deploy s \<or> tr_exists tr (compose_path tr (se_name s)) \<or>
      tr_exists tr (dev_compose_path tr (se_name s)))"

lemma entry_errors_none: "entry_errors tr s = [] \<longleftrightarrow> good_entry tr s"
proof -
  have "[] \<notin> set valid_hosts" by (simp add: valid_hosts_def)
  then show ?thesis by (auto simp: entry_errors_def good_entry_def Let_def)
qed

text \<open>
  Claim C8. Validation is sound and complete: it reports no error exactly when every entry is named
  and no name occurs twice, every enabled entry runs on a known host, has a port and a compose
  file where they are required, no two enabled entries share a port on a host, and no domain is
  listed twice among the enabled entries.
\<close>

theorem validate_complete:
  "fst (validate_services tr services) = [] \<longleftrightarrow>
     (let enabled = filter entry_enabled services in
      [] \<notin> set (map se_name services) \<and> distinct (map se_name services) \<and>
      list_all (good_entry tr) enabled \<and>
      distinct (map (\<lambda>s. (se_host s, the (se_port s))) (filter has_port enabled)) \<and>
      distinct (concat (map (\<lambda>s. domains_of (se_domain s)) enabled)))"
  (is "?L \<longleftrightarrow> ?R")
proof -
  let ?st0 = "\<lparr>v_errors = [], v_warnings = (if services = [] then [NoServices] else []),
               v_ports = [], v_domains = [], v_seen = []\<rparr>"
  have ports: "v_ports (fold (validate_entry tr) services ?st0) = group_pairs (port_pairs services)"
    by (simp add: validate_loop group_pairs_def)
  have L: "?L \<longleftrightarrow> (\<forall>s \<in> set services. se_name s \<noteq> [] \<and> (\<not> entry_enabled s \<or> good_entry tr s)) \<and>
      distinct (map se_name services) \<and>
      distinct (map (\<lambda>x. (fst x, fst (snd x))) (port_pairs services)) \<and>
      distinct (map fst (domain_pairs services))"
    unfolding validate_services_def Let_def fst_conv append_is_Nil_conv ports group_conflicts_none
      domain_conflicts_none validate_loop_errors
    by (simp add: validate_loop entry_errors_none)
  have pp: "map (\<lambda>x. (fst x, fst (snd x))) (port_pairs services) =
      map (\<lambda>s. (se_host s, the (se_port s))) (filter has_port (filter entry_enabled services))"
    if "\<forall>s \<in> set services. se_name s \<noteq> [] \<and> (\<not> entry_enabled s \<or> good_entry tr s)"
  proof -
    have "[] \<notin> set valid_hosts" by (simp add: valid_hosts_def)
    with that have "filter (\<lambda>s. se_name s \<noteq> [] \<and> entry_enabled s \<and> se_host s \<noteq> [] \<and> has_port s) services =
        filter has_port (filter entry_enabled services)"
      by (auto simp: good_entry_def intro!: filter_cong)
    then show ?thesis by (simp add: port_pairs_def)
  qed
  have dp: "map fst (domain_pairs services) =
      concat (map (\<lambda>s. domains_of (se_domain s)) (filter entry_enabled services))"
    if "\<forall>s \<in> set services. se_name s \<noteq> [] \<and> (\<not> entry_enabled s \<or> good_entry tr s)"
  proof -
    from that have "filter (\<lambda>s. se_name s \<noteq> [] \<and> entry_enabled s) services = filter entry_enabled services"
      by (intro filter_cong) auto
    then show ?thesis by (simp add: domain_pairs_def map_concat comp_def)
  qed
  show ?thesis
  proof (cases "\<forall>s \<in> set services. se_name s \<noteq> [] \<and> (\<not> entry_enabled s \<or> good_entry tr s)")
    case True
    then have "[] \<notin> set (map se_name services)" "list_all (good_entry tr) (filter entry_enabled services)"
      by (auto simp: list_all_iff)
    with True show ?thesis unfolding L pp [OF True] dp [OF True] Let_def by simp
  next
    case False
    then have "\<not> ([] \<notin> set (map se_name services) \<and> list_all (good_entry tr) (filter entry_enabled services))"
      by (auto simp: list_all_iff) (metis imageI)
    with False show ?thesis unfolding L Let_def by blast
  qed
qed

text \<open>
  The probe tests exactly the enabled services that have a domain and are not on the skip
  list, each once at its first domain, and succeeds exactly when every one of them answers with
  an acceptable status; sorting the results for printing changes neither.
\<close>

theorem check_services_exit:
  "let tasks = concat (map (\<lambda>s. let name = (if se_name s = [] then ''?'' else se_name s) in
                 map (\<lambda>d. (name, ''https://'' @ d)) (take 1 (domains_of (se_domain s))))
               (filter (\<lambda>s. entry_enabled s \<and> (if se_name s = [] then ''?'' else se_name s) \<notin> {''mailcow'', ''nas''})
                  services))
   in mset (map (\<lambda>r. (ck_name r, ck_url r)) (fst (check_services get services))) = mset tasks \<and>
      snd (check_services get services) =
        (if list_all (\<lambda>(n, url). \<exists>code \<in> set acceptable_status. get url = Status code) tasks then 0 else 1)"
proof -
  define tasks where "tasks = concat (map (\<lambda>s. let name = (if se_name s = [] then ''?'' else se_name s) in
                 map (\<lambda>d. (name, ''https://'' @ d)) (take 1 (domains_of (se_domain s))))
               (filter (\<lambda>s. entry_enabled s \<and> (if se_name s = [] then ''?'' else se_name s) \<notin> {''mailcow'', ''nas''})
                  services))"
  have t: "check_tasks services = tasks"
    unfolding tasks_def check_tasks_def
    by (induction services) (auto simp: check_task_def Let_def skip_names_def split: list.split)
  have n: "map (\<lambda>r. (ck_name r, ck_url r)) (map (check_url get) ts) = ts" for ts
    by (induction ts) (auto simp: check_url_def split: probe.split)
  have ok: "ck_ok (check_url get (n, url)) \<longleftrightarrow> (\<exists>code \<in> set acceptable_status. get url = Status code)" for n url
    by (auto simp: check_url_def split: probe.split)
  have m: "mset (map (\<lambda>r. (ck_name r, ck_url r)) (sort_key ck_name (map (check_url get) tasks))) = mset tasks"
    by (metis mset_map mset_sort n)
  have e: "filter (\<lambda>r. \<not> ck_ok r) (sort_key ck_name (map (check_url get) tasks)) = [] \<longleftrightarrow>
      list_all (\<lambda>(n, url). \<exists>code \<in> set acceptable_status. get url = Status code) tasks"
    by (auto simp: filter_empty_conv list_all_iff ok split: prod.splits)
  show ?thesis
    unfolding Let_def [of tasks, folded tasks_def] tasks_def [symmetric]
    using m e by (simp add: check_services_def t Let_def)
qed

end
