(* ===== verification/Schedule_Merge.thy ===== *)
theory Schedule_Merge
  imports Go_Any
begin

text \<open>
  \<^verbatim>\<open>src/tools/internal/schedulemerge/schedulemerge.go\<close> and the three programs that call it with a fixed
  configuration: merges User Scripts entries into Unraid's \<open>schedule.json\<close>, which it shares with entries
  made in the web interface, drops retired ones, and mirrors the file to the runtime copy.

  The JSON codec is a parameter: the text of a key, the indented text of an entry and the decoder.
  The files are a record; which file operation fails is a parameter of \<open>run\<close>.
\<close>

section \<open>Data\<close>

record entry =
  en_script :: string
  en_frequency :: string

record config =
  cf_entry :: entry
  cf_extra :: "entry list"
  cf_retired :: "string list"

type_synonym schedule = "(string, any) gmap"

record codec =
  enc_key :: "string \<Rightarrow> string"
  enc_entry :: "any \<Rightarrow> string option"
  dec_schedule :: "string \<Rightarrow> schedule option"

record files =
  fs_schedule :: "string option"
  fs_backup :: "string option"
  fs_runtime :: "string option"
  fs_scripts :: "string list" \<comment> \<open>the directories under \<open>scripts\<close>\<close>

datatype file_op =
    ReadSchedule | ReadRuntime | CopyBackup | MkUsDir | WriteSchedule | ChmodSchedule | MkRuntimeDir
  | CopyRuntime | RemoveScript string

datatype ending = Failed | Exit int | Completed

section \<open>Operations\<close>

definition us_path :: string where "us_path = ''/boot/config/plugins/user.scripts''"

definition script_path :: "string \<Rightarrow> string" where
  "script_path name = us_path @ ''/scripts/'' @ name @ ''/script''"

definition is_alnum :: "char \<Rightarrow> bool" where
  "is_alnum r \<longleftrightarrow> (CHR ''a'' \<le> r \<and> r \<le> CHR ''z'') \<or> (CHR ''A'' \<le> r \<and> r \<le> CHR ''Z'') \<or> (CHR ''0'' \<le> r \<and> r \<le> CHR ''9'')"

definition schedule_id :: "string \<Rightarrow> string" where
  "schedule_id name = ''schedule'' @ filter is_alnum name"

fun all_some :: "'a option list \<Rightarrow> 'a list option" where
  "all_some [] = Some []"
| "all_some (x # xs) =
     (case x of None \<Rightarrow> None | Some y \<Rightarrow> (case all_some xs of None \<Rightarrow> None | Some ys \<Rightarrow> Some (y # ys)))"

definition marshal_sorted :: "codec \<Rightarrow> schedule \<Rightarrow> string option" where
  "marshal_sorted cd m =
     (let keys = sorted_keys m in
      case all_some (map (\<lambda>k. map_option (\<lambda>e. newline @ ''    '' @ enc_key cd k @ '': '' @ e)
                                (enc_entry cd (the (mget m k)))) keys) of
        None \<Rightarrow> None
      | Some parts \<Rightarrow> Some (''{'' @ join '','' parts @ (if keys \<noteq> [] then newline else []) @ ''}'' @ newline))"

definition trimmed_non_empty :: "string \<Rightarrow> bool" where
  "trimmed_non_empty s \<longleftrightarrow> list_ex (\<lambda>r. r \<notin> {CHR '' '', CHR 0x09, CHR 0x0A, CHR 0x0D}) s"

definition parse_existing :: "codec \<Rightarrow> string option \<Rightarrow> schedule option" where
  "parse_existing cd raw =
     (case raw of None \<Rightarrow> Some []
      | Some s \<Rightarrow> if trimmed_non_empty s then dec_schedule cd s else Some [])"

definition schedule_value :: "entry \<Rightarrow> any" where
  "schedule_value e =
     VMap [(''script'', VStr (script_path (en_script e))), (''frequency'', VStr (en_frequency e)),
           (''id'', VStr (schedule_id (en_script e))), (''custom'', VStr [])]"

definition merge_schedule :: "config \<Rightarrow> schedule \<Rightarrow> schedule" where
  "merge_schedule cfg existing =
     fold (\<lambda>e. mput (script_path (en_script e)) (schedule_value e)) (cf_entry cfg # cf_extra cfg)
       (fold (\<lambda>(k, v) m. if k \<in> set (map script_path (cf_retired cfg)) then m else mput k v m) existing [])"

definition retired_present :: "config \<Rightarrow> files \<Rightarrow> string list" where
  "retired_present cfg fs = filter (\<lambda>n. n \<in> set (fs_scripts fs)) (cf_retired cfg)"

fun remove_scripts :: "(file_op \<Rightarrow> bool) \<Rightarrow> string list \<Rightarrow> files \<Rightarrow> bool \<times> files" where
  "remove_scripts ok [] fs = (True, fs)"
| "remove_scripts ok (n # ns) fs =
     (if n \<in> set (fs_scripts fs) then
        (if ok (RemoveScript n) then remove_scripts ok ns (fs\<lparr>fs_scripts := removeAll n (fs_scripts fs)\<rparr>)
         else (False, fs))
      else remove_scripts ok ns fs)"

definition write_schedule :: "(file_op \<Rightarrow> bool) \<Rightarrow> string \<Rightarrow> files \<Rightarrow> bool \<times> files" where
  \<comment> \<open>the branch for a changed schedule\<close>
  "write_schedule ok merged fs =
     (if fs_schedule fs \<noteq> None \<and> \<not> ok CopyBackup then (False, fs) else
      let fs1 = (if fs_schedule fs \<noteq> None then fs\<lparr>fs_backup := fs_schedule fs\<rparr> else fs) in
      if \<not> ok MkUsDir then (False, fs1) else
      if \<not> ok WriteSchedule then (False, fs1) else
      let fs2 = fs1\<lparr>fs_schedule := Some merged\<rparr> in
      if \<not> ok ChmodSchedule then (False, fs2) else (True, fs2))"

definition mirror_and_clean :: "(file_op \<Rightarrow> bool) \<Rightarrow> config \<Rightarrow> files \<Rightarrow> ending \<times> files" where
  "mirror_and_clean ok cfg fs =
     (if \<not> ok MkRuntimeDir then (Failed, fs) else
      if fs_schedule fs = None \<or> \<not> ok CopyRuntime then (Failed, fs) else
      let fs1 = fs\<lparr>fs_runtime := fs_schedule fs\<rparr>
      in case remove_scripts ok (cf_retired cfg) fs1 of
           (done, fs2) \<Rightarrow> (if done then Completed else Failed, fs2))"

definition run :: "codec \<Rightarrow> (file_op \<Rightarrow> bool) \<Rightarrow> config \<Rightarrow> bool \<Rightarrow> files \<Rightarrow> ending \<times> files" where
  "run cd ok cfg check_only fs =
     (if fs_schedule fs \<noteq> None \<and> \<not> ok ReadSchedule then (Failed, fs) else
      case parse_existing cd (fs_schedule fs) of None \<Rightarrow> (Failed, fs)
      | Some existing \<Rightarrow>
      (case marshal_sorted cd (merge_schedule cfg existing) of None \<Rightarrow> (Failed, fs)
       | Some merged \<Rightarrow>
         let changed = merged \<noteq> (case fs_schedule fs of None \<Rightarrow> [] | Some raw \<Rightarrow> raw);
             retired = retired_present cfg fs
         in if fs_runtime fs \<noteq> None \<and> \<not> ok ReadRuntime then (Failed, fs) else
            let stale = (fs_runtime fs \<noteq> Some merged)
            in if check_only then (Exit (if changed \<or> retired \<noteq> [] \<or> stale then 1 else 0), fs)
               else if changed then
                 (case write_schedule ok merged fs of
                    (written, fs1) \<Rightarrow> if written then mirror_and_clean ok cfg fs1 else (Failed, fs1))
               else mirror_and_clean ok cfg fs))"

text \<open>The three programs: their configuration, and the flag.\<close>

definition unraid_config :: config where
  "unraid_config = \<lparr>cf_entry = \<lparr>en_script = ''homelab-compose-up'', en_frequency = ''start''\<rparr>, cf_extra = [],
                    cf_retired = [''GHCR Auth'']\<rparr>"

definition aoostar_config :: config where
  "aoostar_config = \<lparr>cf_entry = \<lparr>en_script = ''aoostar-display'', en_frequency = ''start''\<rparr>,
     cf_extra = [\<lparr>en_script = ''aoostar-display-stop'', en_frequency = ''stop''\<rparr>],
     cf_retired = [''aoostar_display'', ''aoostar_display_controller'']\<rparr>"

definition backup_config :: config where
  "backup_config = \<lparr>cf_entry = \<lparr>en_script = ''nas-backup'', en_frequency = ''daily''\<rparr>, cf_extra = [],
                    cf_retired = [''rclone backup'']\<rparr>"

definition main :: "codec \<Rightarrow> (file_op \<Rightarrow> bool) \<Rightarrow> config \<Rightarrow> string list \<Rightarrow> files \<Rightarrow> int \<times> files" where
  "main cd ok cfg args fs =
     (case run cd ok cfg (''--check'' \<in> set args) fs of
        (Failed, fs') \<Rightarrow> (1, fs') | (Exit n, fs') \<Rightarrow> (n, fs') | (Completed, fs') \<Rightarrow> (0, fs'))"

section \<open>Lemmas\<close>

lemma marshal_cong:
  assumes "map_ok m" "map_ok m'" "mget m = mget m'"
  shows "marshal_sorted cd m = marshal_sorted cd m'"
  using sorted_keys_cong [of m m'] assms by (simp add: marshal_sorted_def)

definition own_entries :: "config \<Rightarrow> entry list" where
  "own_entries cfg = cf_entry cfg # cf_extra cfg"

lemma retired_fold:
  assumes "map_ok existing"
  shows "mget (fold (\<lambda>(k, v) m. if k \<in> R then m else mput k v m) existing m0) k =
    (case mget existing k of Some v \<Rightarrow> if k \<in> R then mget m0 k else Some v | None \<Rightarrow> mget m0 k)"
  using assms
proof (induction existing arbitrary: m0)
  case (Cons x existing)
  obtain a v where x: "x = (a, v)" by (cases x)
  from Cons.prems have ok: "map_ok existing" and nin: "a \<notin> set (mkeys existing)"
    by (simp_all add: x map_ok_def mkeys_def)
  then have "mget existing a = None" by (simp add: mkeys_mget)
  with Cons.IH [OF ok] show ?case by (auto simp: x split: option.split)
qed simp

lemma retired_fold_ok: "map_ok m0 \<Longrightarrow> map_ok (fold (\<lambda>(k, v) m. if k \<in> R then m else mput k v m) existing m0)"
proof (induction existing arbitrary: m0)
  case (Cons x existing)
  then show ?case by (cases x) (simp add: gm.inv_put)
qed simp

lemma merge_ok [simp]: "map_ok (merge_schedule cfg existing)"
  unfolding merge_schedule_def
  by (rule gm.inv_fold_put [where key = "\<lambda>e. script_path (en_script e)" and val = schedule_value])
    (simp add: retired_fold_ok)

lemma merge_get:
  assumes "map_ok existing"
  shows "mget (merge_schedule cfg existing) k =
    (case find (\<lambda>e. script_path (en_script e) = k) (rev (own_entries cfg)) of
       Some e \<Rightarrow> Some (schedule_value e)
     | None \<Rightarrow> if k \<in> script_path ` set (cf_retired cfg) then None else mget existing k)"
  unfolding merge_schedule_def own_entries_def
  by (subst gm.get_fold_put [where key = "\<lambda>e. script_path (en_script e)" and val = schedule_value])
    (auto simp: retired_fold [OF assms] split: option.split)

lemma merge_twice:
  assumes "map_ok existing" "map_ok m" "mget m = mget (merge_schedule cfg existing)"
  shows "mget (merge_schedule cfg m) = mget (merge_schedule cfg existing)"
  using assms by (auto simp: fun_eq_iff merge_get split: option.split)

lemma remove_scripts_done:
  assumes "remove_scripts ok ns fs = (True, fs')"
  shows "fs' = fs\<lparr>fs_scripts := filter (\<lambda>n. n \<notin> set ns) (fs_scripts fs)\<rparr>"
  using assms
proof (induction ok ns fs rule: remove_scripts.induct)
  case (2 ok n ns fs)
  show ?case
  proof (cases "n \<in> set (fs_scripts fs)")
    case True
    with 2 have "fs' = fs\<lparr>fs_scripts := filter (\<lambda>x. x \<notin> set ns) (removeAll n (fs_scripts fs))\<rparr>"
      by (auto split: if_splits)
    moreover have "filter (\<lambda>x. x \<notin> set ns) (removeAll n xs) = filter (\<lambda>x. x \<notin> set (n # ns)) xs" for xs
      by (induction xs) auto
    ultimately show ?thesis by simp
  next
    case False
    with 2 have "fs' = fs\<lparr>fs_scripts := filter (\<lambda>x. x \<notin> set ns) (fs_scripts fs)\<rparr>" by auto
    moreover from False have "filter (\<lambda>x. x \<notin> set (n # ns)) (fs_scripts fs) = filter (\<lambda>x. x \<notin> set ns) (fs_scripts fs)"
      by (intro filter_cong) auto
    ultimately show ?thesis by simp
  qed
qed simp

lemma marshal_text:
  "marshal_sorted cd m = Some s \<Longrightarrow> trimmed_non_empty s \<and> s \<noteq> []"
  by (auto simp: marshal_sorted_def Let_def trimmed_non_empty_def split: option.splits)

lemma run_completed:
  assumes "run cd ok cfg False fs = (Completed, fs')"
  obtains existing merged where
    "parse_existing cd (fs_schedule fs) = Some existing"
    "marshal_sorted cd (merge_schedule cfg existing) = Some merged"
    "fs_schedule fs' = Some merged" "fs_runtime fs' = Some merged"
    "fs_scripts fs' = filter (\<lambda>n. n \<notin> set (cf_retired cfg)) (fs_scripts fs)"
    "fs_backup fs' = (if fs_schedule fs = None \<or> fs_schedule fs = Some merged then fs_backup fs else fs_schedule fs)"
proof -
  from assms obtain existing where e: "parse_existing cd (fs_schedule fs) = Some existing"
    by (auto simp: run_def Let_def split: if_splits option.splits)
  from assms e obtain merged where m: "marshal_sorted cd (merge_schedule cfg existing) = Some merged"
    by (auto simp: run_def Let_def split: if_splits option.splits)
  let ?changed = "merged \<noteq> (case fs_schedule fs of None \<Rightarrow> [] | Some raw \<Rightarrow> raw)"
  have mirror: "fs_schedule g' = fs_schedule g \<and> fs_runtime g' = fs_schedule g \<and> fs_backup g' = fs_backup g \<and>
      fs_scripts g' = filter (\<lambda>n. n \<notin> set (cf_retired cfg)) (fs_scripts g) \<and> fs_schedule g \<noteq> None"
    if "mirror_and_clean ok cfg g = (Completed, g')" for g g'
    using that by (auto simp: mirror_and_clean_def Let_def dest!: remove_scripts_done split: if_splits prod.splits)
  show ?thesis
  proof (cases ?changed)
    case True
    with assms e m obtain fs1 where
      w: "write_schedule ok merged fs = (True, fs1)" "mirror_and_clean ok cfg fs1 = (Completed, fs')"
      by (auto simp: run_def Let_def split: if_splits prod.splits)
    from w(1) have f1: "fs_schedule fs1 = Some merged" "fs_scripts fs1 = fs_scripts fs"
      "fs_backup fs1 = (if fs_schedule fs = None then fs_backup fs else fs_schedule fs)"
      by (auto simp: write_schedule_def Let_def split: if_splits)
    from True have "fs_schedule fs \<noteq> Some merged" by auto
    with f1 mirror [OF w(2)] that [OF e m] show ?thesis by auto
  next
    case False
    with assms e m have w: "mirror_and_clean ok cfg fs = (Completed, fs')"
      by (auto simp: run_def Let_def split: if_splits)
    from mirror [OF w] False have "fs_schedule fs = Some merged" by auto
    with mirror [OF w] that [OF e m] show ?thesis by auto
  qed
qed

section \<open>Properties\<close>

text \<open>
  The merge touches nothing it does not own: in the merged schedule an entry of the
  configuration is exactly as configured, an entry retired by the configuration is gone, and every
  other entry, whoever made it, is exactly as it was.
\<close>

theorem merge_schedule_exact:
  assumes "map_ok existing" "distinct (map (\<lambda>e. script_path (en_script e)) (cf_entry cfg # cf_extra cfg))"
  shows "let m = merge_schedule cfg existing; own = set (cf_entry cfg # cf_extra cfg);
             own_paths = (\<lambda>e. script_path (en_script e)) ` own; gone = script_path ` set (cf_retired cfg)
    in map_ok m \<and> (\<forall>e \<in> own. mget m (script_path (en_script e)) = Some (schedule_value e)) \<and>
       (\<forall>k. k \<in> own_paths \<or> mget m k = (if k \<in> gone then None else mget existing k))"
proof -
  let ?key = "\<lambda>e. script_path (en_script e)"
  have own: "mget (merge_schedule cfg existing) (?key e) = Some (schedule_value e)" if e: "e \<in> set (own_entries cfg)" for e
  proof -
    obtain x where x: "find (\<lambda>x. ?key x = ?key e) (rev (own_entries cfg)) = Some x"
      using e by (cases "find (\<lambda>x. ?key x = ?key e) (rev (own_entries cfg))") (auto simp: find_None_iff)
    then have "x \<in> set (own_entries cfg)" "?key x = ?key e" by (auto dest: find_SomeD)
    with e assms(2) have "x = e" by (intro distinct_map_eqD [of ?key "own_entries cfg"]) (simp_all add: own_entries_def)
    with x show ?thesis by (simp add: merge_get [OF assms(1)])
  qed
  have other: "mget (merge_schedule cfg existing) k = (if k \<in> script_path ` set (cf_retired cfg) then None else mget existing k)"
    if "k \<notin> ?key ` set (own_entries cfg)" for k
  proof -
    from that have "find (\<lambda>e. ?key e = k) (rev (own_entries cfg)) = None" by (auto simp: find_None_iff)
    then show ?thesis by (simp add: merge_get [OF assms(1)])
  qed
  from own other show ?thesis
    unfolding Let_def own_entries_def [symmetric] by (simp only: merge_ok) blast
qed

theorem merge_schedule_exact_witness:
  "mget (merge_schedule unraid_config [(script_path ''GHCR Auth'', VNil), (''/by/hand'', VStr ''x'')]) ''/by/hand'' =
     Some (VStr ''x'') \<and>
   mget (merge_schedule unraid_config [(script_path ''GHCR Auth'', VNil), (''/by/hand'', VStr ''x'')])
     (script_path ''GHCR Auth'') = None"
proof -
  let ?ex = "[(script_path ''GHCR Auth'', VNil), (''/by/hand'', VStr ''x'')]"
  have ok: "map_ok ?ex" by (simp add: map_ok_def mkeys_def script_path_def us_path_def)
  have d: "distinct (map (\<lambda>e. script_path (en_script e)) (cf_entry unraid_config # cf_extra unraid_config))"
    by (simp add: unraid_config_def)
  have n: "''/by/hand'' \<notin> (\<lambda>e. script_path (en_script e)) ` set (cf_entry unraid_config # cf_extra unraid_config)"
    "script_path ''GHCR Auth'' \<notin> (\<lambda>e. script_path (en_script e)) ` set (cf_entry unraid_config # cf_extra unraid_config)"
    "''/by/hand'' \<notin> script_path ` set (cf_retired unraid_config)"
    "script_path ''GHCR Auth'' \<in> script_path ` set (cf_retired unraid_config)"
    by (simp_all add: unraid_config_def script_path_def us_path_def)
  from merge_schedule_exact [OF ok d] n
  have "mget (merge_schedule unraid_config ?ex) ''/by/hand'' = mget ?ex ''/by/hand''"
    "mget (merge_schedule unraid_config ?ex) (script_path ''GHCR Auth'') = None"
    unfolding Let_def by metis+
  then show ?thesis by (simp add: script_path_def us_path_def)
qed

definition round_trips :: "codec \<Rightarrow> schedule \<Rightarrow> bool" where
  \<comment> \<open>decoding the text of this schedule gives it back, up to the order of its keys\<close>
  "round_trips cd m \<longleftrightarrow>
     (\<forall>s. marshal_sorted cd m = Some s \<longrightarrow> (\<exists>m'. dec_schedule cd s = Some m' \<and> map_ok m' \<and> mget m' = mget m))"

text \<open>
  Claim C9. Applying converges and the check agrees with it: after a run that completed, the check
  mode reports a clean state (exit code 0), and a further run completes and changes nothing, not
  even the backup, provided the codec reads back the schedule that was written.
\<close>

theorem run_idempotent:
  assumes "parse_existing cd (fs_schedule fs) = Some existing" "map_ok existing"
    and "round_trips cd (merge_schedule cfg existing)"
    and "run cd ok cfg False fs = (Completed, fs')" "\<And>x. ok' x"
  shows "run cd ok' cfg True fs' = (Exit 0, fs') \<and> run cd ok' cfg False fs' = (Completed, fs')"
proof -
  from run_completed [OF assms(4)] obtain ex merged where
    r: "parse_existing cd (fs_schedule fs) = Some ex" "marshal_sorted cd (merge_schedule cfg ex) = Some merged"
      "fs_schedule fs' = Some merged" "fs_runtime fs' = Some merged"
      "fs_scripts fs' = filter (\<lambda>n. n \<notin> set (cf_retired cfg)) (fs_scripts fs)" .
  from r(1) assms(1) have ex: "ex = existing" by simp
  from assms(3) r(2) obtain m' where m': "dec_schedule cd merged = Some m'" "map_ok m'"
    "mget m' = mget (merge_schedule cfg existing)"
    by (auto simp: round_trips_def ex)
  have again: "marshal_sorted cd (merge_schedule cfg m') = Some merged"
    using marshal_cong [OF merge_ok merge_ok merge_twice [OF assms(2) m'(2,3)]] r(2) by (simp add: ex)
  have parse: "parse_existing cd (fs_schedule fs') = Some m'"
    using marshal_text [OF r(2)] m'(1) by (simp add: parse_existing_def r(3))
  have none: "n \<notin> set (fs_scripts fs')" if "n \<in> set (cf_retired cfg)" for n
    using that by (simp add: r(5))
  then have retired: "retired_present cfg fs' = []" by (auto simp: retired_present_def filter_empty_conv)
  have rm: "remove_scripts ok' ns fs' = (True, fs')" if "set ns \<subseteq> set (cf_retired cfg)" for ns
    using that by (induction ns) (auto dest: none)
  have same: "fs'\<lparr>fs_runtime := Some merged\<rparr> = fs'" using r(4) by simp
  show ?thesis
    using parse again retired rm [of "cf_retired cfg"] assms(5)
    by (simp add: run_def r(3,4) mirror_and_clean_def same)
qed

text \<open>A codec for the one text of the example: the file starts out blank.\<close>

definition sample_merged :: schedule where
  "sample_merged = merge_schedule backup_config []"

definition sample_codec :: codec where
  "sample_codec = \<lparr>enc_key = \<lambda>k. k, enc_entry = \<lambda>v. Some (sprint v), dec_schedule = \<lambda>_. Some sample_merged\<rparr>"

definition sample_files :: files where
  "sample_files = \<lparr>fs_schedule = Some [CHR '' ''], fs_backup = None, fs_runtime = None,
                   fs_scripts = [''rclone backup'', ''mine'']\<rparr>"

theorem run_idempotent_witness:
  "\<exists>fs'. run sample_codec (\<lambda>_. True) backup_config False sample_files = (Completed, fs') \<and>
     fs_scripts fs' = [''mine''] \<and> fs_backup fs' = Some [CHR '' ''] \<and>
     run sample_codec (\<lambda>_. True) backup_config True fs' = (Exit 0, fs')"
proof -
  have p: "parse_existing sample_codec (fs_schedule sample_files) = Some []"
    by (simp add: parse_existing_def sample_files_def trimmed_non_empty_def)
  have rt: "round_trips sample_codec (merge_schedule backup_config [])"
    by (simp add: round_trips_def sample_codec_def sample_merged_def)
  have e: "fst (run sample_codec (\<lambda>_. True) backup_config False sample_files) = Completed"
    "fs_scripts (snd (run sample_codec (\<lambda>_. True) backup_config False sample_files)) = [''mine'']"
    "fs_backup (snd (run sample_codec (\<lambda>_. True) backup_config False sample_files)) = Some [CHR '' '']"
    by code_simp+
  obtain fs' where f: "run sample_codec (\<lambda>_. True) backup_config False sample_files = (Completed, fs')"
    using e(1) by (cases "run sample_codec (\<lambda>_. True) backup_config False sample_files") simp
  from run_idempotent [OF p map_ok_Nil rt f, of "\<lambda>_. True"] e f show ?thesis by auto
qed

text \<open>
  A completed run leaves the schedule and the runtime copy identical and equal to the
  merged text, no retired script directory, and, when it replaced a different file, that file
  as the backup.
\<close>

theorem run_completed_state:
  assumes "run cd ok cfg False fs = (Completed, fs')"
  shows "fs_schedule fs' = fs_runtime fs' \<and>
    (\<exists>existing. parse_existing cd (fs_schedule fs) = Some existing \<and>
       fs_schedule fs' = marshal_sorted cd (merge_schedule cfg existing)) \<and>
    set (fs_scripts fs') = set (fs_scripts fs) - set (cf_retired cfg) \<and>
    fs_backup fs' = (if fs_schedule fs \<in> {None, fs_schedule fs'} then fs_backup fs else fs_schedule fs)"
proof -
  from run_completed [OF assms] obtain existing merged where r:
    "parse_existing cd (fs_schedule fs) = Some existing"
    "marshal_sorted cd (merge_schedule cfg existing) = Some merged"
    "fs_schedule fs' = Some merged" "fs_runtime fs' = Some merged"
    "fs_scripts fs' = filter (\<lambda>n. n \<notin> set (cf_retired cfg)) (fs_scripts fs)"
    "fs_backup fs' = (if fs_schedule fs = None \<or> fs_schedule fs = Some merged then fs_backup fs else fs_schedule fs)" .
  from r(5) have s: "set (fs_scripts fs') = set (fs_scripts fs) - set (cf_retired cfg)" by auto
  show ?thesis
  proof (intro conjI)
    show "fs_schedule fs' = fs_runtime fs'" by (simp add: r(3,4))
    show "\<exists>existing. parse_existing cd (fs_schedule fs) = Some existing \<and>
       fs_schedule fs' = marshal_sorted cd (merge_schedule cfg existing)"
      using r(1,2,3) by auto
  qed (simp_all add: s r(3,6))
qed

theorem run_completed_state_witness:
  "fs_schedule (snd (run sample_codec (\<lambda>_. True) backup_config False sample_files)) =
   fs_runtime (snd (run sample_codec (\<lambda>_. True) backup_config False sample_files))"
proof -
  have e: "fst (run sample_codec (\<lambda>_. True) backup_config False sample_files) = Completed"
    by code_simp
  obtain fs' where f: "run sample_codec (\<lambda>_. True) backup_config False sample_files = (Completed, fs')"
    using e by (cases "run sample_codec (\<lambda>_. True) backup_config False sample_files") simp
  from run_completed_state [OF f] f show ?thesis by simp
qed

end
