(* ===== verification/Syncthing_Provision.thy ===== *)
theory Syncthing_Provision
  imports Go_Any
begin

text \<open>
  Provisioning of the second Syncthing node, \<^verbatim>\<open>src/tools/cmd/provision-syncthing/main.go\<close>.  The
  two nodes are a parameter \<open>api\<close> from a request and the state of the nodes to an error or the
  decoded object of the answer (nil for an empty one) and the new state.  A program returns the
  requests it made together with its result, so what it asks for can be stated for any server.
  A failing type assertion is an error like the others: both end the program.
\<close>

section \<open>Requests and programs\<close>

datatype node = Nas | Local
datatype http_method = GET | PUT

record request =
  rq_node :: node
  rq_method :: http_method
  rq_path :: string
  rq_body :: any

type_synonym object = "(string, any) gmap"
type_synonym 's api = "request \<Rightarrow> 's \<Rightarrow> (string + object) \<times> 's"
type_synonym ('s, 'a) prog = "'s \<Rightarrow> (string + 'a) \<times> 's \<times> request list"

text \<open>
  \<^verbatim>\<open>api\<close> over the HTTP transport: an error of the transport, a status of 400 and more, and a body that
  does not decode are errors, an empty body is a nil object.
\<close>

datatype http_outcome = Failed string | Answer int string

definition api_answer :: "(string \<Rightarrow> object option) \<Rightarrow> request \<Rightarrow> http_outcome \<Rightarrow> string + object" where
  "api_answer decode rq outcome =
     (case outcome of
        Failed e \<Rightarrow> Inl e
      | Answer code raw \<Rightarrow>
          if 400 \<le> code then
            Inl ((case rq_method rq of GET \<Rightarrow> ''GET'' | PUT \<Rightarrow> ''PUT'') @ '' '' @ rq_path rq @ '' -> '' @ int_str code @
                 '': '' @ raw)
          else if raw = [] then Inr []
          else case decode raw of None \<Rightarrow> Inl ''invalid JSON'' | Some m \<Rightarrow> Inr m)"

definition api_of :: "(string \<Rightarrow> object option) \<Rightarrow> (request \<Rightarrow> 's \<Rightarrow> http_outcome \<times> 's) \<Rightarrow> 's api" where
  "api_of decode http = (\<lambda>rq s. case http rq s of (outcome, s') \<Rightarrow> (api_answer decode rq outcome, s'))"

definition ret :: "'a \<Rightarrow> ('s, 'a) prog" where
  "ret x = (\<lambda>s. (Inr x, s, []))"

definition fail_with :: "string \<Rightarrow> ('s, 'a) prog" where
  "fail_with e = (\<lambda>s. (Inl e, s, []))"

definition and_then :: "('s, 'a) prog \<Rightarrow> ('a \<Rightarrow> ('s, 'b) prog) \<Rightarrow> ('s, 'b) prog" where
  "and_then m f =
     (\<lambda>s. case m s of
            (Inl e, s', l) \<Rightarrow> (Inl e, s', l)
          | (Inr a, s', l) \<Rightarrow> (case f a s' of (r, s'', l') \<Rightarrow> (r, s'', l @ l')))"

fun each :: "('x \<Rightarrow> ('s, unit) prog) \<Rightarrow> 'x list \<Rightarrow> ('s, unit) prog" where
  "each f [] = ret ()"
| "each f (x # xs) = and_then (f x) (\<lambda>_. each f xs)"

definition get :: "'s api \<Rightarrow> node \<Rightarrow> string \<Rightarrow> ('s, object) prog" where
  "get api n path =
     (\<lambda>s. let rq = \<lparr>rq_node = n, rq_method = GET, rq_path = path, rq_body = VNil\<rparr>
          in case api rq s of (r, s') \<Rightarrow> (r, s', [rq]))"

definition put :: "'s api \<Rightarrow> node \<Rightarrow> string \<Rightarrow> object \<Rightarrow> ('s, unit) prog" where
  "put api n path body =
     (\<lambda>s. let rq = \<lparr>rq_node = n, rq_method = PUT, rq_path = path, rq_body = VMap body\<rparr>
          in case api rq s of (Inl e, s') \<Rightarrow> (Inl e, s', [rq]) | (Inr _, s') \<Rightarrow> (Inr (), s', [rq]))"

section \<open>Constants and helpers\<close>

definition local_data_root :: string where "local_data_root = ''/var/syncthing''"

definition new_archive_folders :: "string list" where
  "new_archive_folders =
     [''1_2021WS'', ''2_2022SS'', ''3_2022WS'', ''4_2023SS'', ''5_2023WS'', ''6_2024SS'', ''Home Assistant'', ''Mail'']"

definition excluded_labels :: "string set" where "excluded_labels = {''Games''}"

fun local_api_key :: "string \<Rightarrow> string option" where
  \<comment> \<open>the first match of \<^verbatim>\<open><apikey>([^<]+)</apikey>\<close> in the configuration file\<close>
  "local_api_key [] = None"
| "local_api_key (c # s) =
     (let key = takeWhile (\<lambda>x. x \<noteq> CHR ''<'') (drop 8 (c # s))
      in if has_prefix (c # s) ''<apikey>'' \<and> key \<noteq> [] \<and> has_prefix (drop (8 + length key) (c # s)) ''</apikey>''
         then Some key else local_api_key s)"

definition str :: "object \<Rightarrow> string \<Rightarrow> string" where
  "str m key = as_str (mget m key)"

definition items :: "object \<Rightarrow> string \<Rightarrow> any list" where
  "items m key = as_list (mget m key)"

definition archive_folder_id :: "string \<Rightarrow> string" where
  "archive_folder_id name = ''archive-'' @ to_lower (replace_all name '' '' ''-'')"

definition device_ids_of :: "object \<Rightarrow> string list" where
  "device_ids_of folder =
     concat (map (\<lambda>d. case d of VMap dm \<Rightarrow> [str dm ''deviceID''] | _ \<Rightarrow> []) (items folder ''devices''))"

definition has_device :: "object \<Rightarrow> string \<Rightarrow> bool" where
  "has_device folder device_id \<longleftrightarrow> device_id \<in> set (device_ids_of folder)"

definition label_or :: "object \<Rightarrow> string \<Rightarrow> string" where
  "label_or folder fallback_id = (if str folder ''label'' \<noteq> [] then str folder ''label'' else fallback_id)"

definition short_id :: "string \<Rightarrow> string" where
  "short_id i = cut_to 8 i"

definition as_object :: "any \<Rightarrow> ('s, object) prog" where
  \<comment> \<open>the assertion \<^verbatim>\<open>d.(map[string]any)\<close>, which panics\<close>
  "as_object d = (case d of VMap m \<Rightarrow> ret m | _ \<Rightarrow> fail_with ''panic: interface conversion'')"

fun objects :: "any list \<Rightarrow> ('s, object list) prog" where
  \<comment> \<open>the loops that only collect keys assert every element first\<close>
  "objects [] = ret []"
| "objects (d # ds) = and_then (as_object d) (\<lambda>m. and_then (objects ds) (\<lambda>ms. ret (m # ms)))"

definition device_path :: "string \<Rightarrow> string" where "device_path i = ''/rest/config/devices/'' @ i"
definition folder_path :: "string \<Rightarrow> string" where "folder_path i = ''/rest/config/folders/'' @ i"

definition device_body :: "string \<Rightarrow> string \<Rightarrow> object" where
  "device_body device_id name = [(''deviceID'', VStr device_id), (''name'', VStr name)]"

definition folder_body :: "string \<Rightarrow> string \<Rightarrow> string \<Rightarrow> string list \<Rightarrow> object" where
  "folder_body fid label path device_ids =
     [(''id'', VStr fid), (''label'', VStr label), (''path'', VStr path), (''type'', VStr ''sendreceive''),
      (''devices'', VList (map (\<lambda>i. VMap [(''deviceID'', VStr i)]) device_ids))]"

section \<open>The steps\<close>

definition register_self :: "'s api \<Rightarrow> string \<Rightarrow> string list \<Rightarrow> ('s, unit) prog" where
  "register_self api local_id existing =
     (if local_id \<in> set existing then ret ()
      else put api Nas (device_path local_id) (device_body local_id ''ugreen''))"

definition create_archive :: "'s api \<Rightarrow> string \<Rightarrow> string \<Rightarrow> string list \<Rightarrow> string \<Rightarrow> ('s, unit) prog" where
  "create_archive api nas_id local_id existing name =
     (let fid = archive_folder_id name
      in if fid \<in> set existing then ret ()
         else put api Nas (folder_path fid)
                (folder_body fid name (''/data1/'' @ name) [nas_id, local_id]))"

definition add_to_folder :: "'s api \<Rightarrow> string \<Rightarrow> any \<Rightarrow> ('s, unit) prog" where
  "add_to_folder api local_id f =
     and_then (as_object f) (\<lambda>folder.
       if str folder ''label'' \<in> excluded_labels \<or> has_device folder local_id then ret ()
       else put api Nas (folder_path (str folder ''id''))
              (mput ''devices'' (VList (items folder ''devices'' @ [VMap [(''deviceID'', VStr local_id)]])) folder))"

definition register_device :: "'s api \<Rightarrow> string \<Rightarrow> string list \<Rightarrow> string \<times> object \<Rightarrow> ('s, unit) prog" where
  "register_device api local_id existing =
     (\<lambda>(device_id, dev).
        if device_id = local_id \<or> device_id \<in> set existing then ret ()
        else let name = (if str dev ''name'' = [] then short_id device_id else str dev ''name'')
             in put api Local (device_path device_id) (device_body device_id name))"

definition accept_folder :: "'s api \<Rightarrow> string \<Rightarrow> string list \<Rightarrow> any \<Rightarrow> ('s, unit) prog" where
  "accept_folder api local_id existing f =
     and_then (as_object f) (\<lambda>folder.
       let fid = str folder ''id'' in
       if str folder ''label'' \<in> excluded_labels \<or> \<not> has_device folder local_id \<or> fid \<in> set existing then ret ()
       else let leaf = last (split_char CHR ''/'' (str folder ''path''))
            in put api Local (folder_path fid)
                 (folder_body fid (label_or folder fid) (local_data_root @ ''/'' @ leaf) (device_ids_of folder)))"

definition keys_of :: "object list \<Rightarrow> string \<Rightarrow> string list" where
  "keys_of ms key = map (\<lambda>m. str m key) ms"

definition nas_side :: "'s api \<Rightarrow> string \<Rightarrow> ('s, unit) prog" where
  \<comment> \<open>steps 1 to 3, from the first reading of the configuration of the NAS\<close>
  "nas_side api local_id =
     and_then (get api Nas ''/rest/config'') (\<lambda>nas_config.
     and_then (get api Nas ''/rest/system/status'') (\<lambda>nas_status.
     and_then (objects (items nas_config ''devices'')) (\<lambda>ds.
     and_then (objects (items nas_config ''folders'')) (\<lambda>fs.
     and_then (register_self api local_id (keys_of ds ''deviceID'')) (\<lambda>_.
     and_then (each (create_archive api (str nas_status ''myID'') local_id (keys_of fs ''id'')) new_archive_folders) (\<lambda>_.
     each (add_to_folder api local_id) (items nas_config ''folders'')))))))"

definition devices_by_id :: "object list \<Rightarrow> (string, object) gmap" where
  "devices_by_id ds = fold (\<lambda>d. mput (str d ''deviceID'') d) ds []"

definition local_side :: "'s api \<Rightarrow> string \<Rightarrow> ('s, unit) prog" where
  \<comment> \<open>steps 4 and 5, from the second reading of the configuration of the NAS\<close>
  "local_side api local_id =
     and_then (get api Nas ''/rest/config'') (\<lambda>nas_config.
     and_then (objects (items nas_config ''devices'')) (\<lambda>nds.
     and_then (get api Local ''/rest/config'') (\<lambda>local_config.
     and_then (objects (items local_config ''devices'')) (\<lambda>lds.
     and_then (each (register_device api local_id (keys_of lds ''deviceID'')) (devices_by_id nds)) (\<lambda>_.
     and_then (get api Local ''/rest/config'') (\<lambda>local_config2.
     and_then (objects (items local_config2 ''folders'')) (\<lambda>lfs.
     each (accept_folder api local_id (keys_of lfs ''id'')) (items nas_config ''folders''))))))))"

definition provision :: "'s api \<Rightarrow> ('s, unit) prog" where
  "provision api =
     and_then (get api Local ''/rest/system/status'') (\<lambda>local_status.
       let local_id = str local_status ''myID''
       in and_then (nas_side api local_id) (\<lambda>_. local_side api local_id))"

definition run :: "'s api \<Rightarrow> (string \<Rightarrow> string option) \<Rightarrow> (string \<Rightarrow> string option) \<Rightarrow> ('s, unit) prog" where
  \<comment> \<open>the environment and the file of the local key come first\<close>
  "run api env file =
     (if (case env ''NAS_SYNCTHING_URL'' of None \<Rightarrow> [] | Some v \<Rightarrow> v) = [] then fail_with ''NAS_SYNCTHING_URL not set''
      else if (case env ''NAS_SYNCTHING_API_KEY'' of None \<Rightarrow> [] | Some v \<Rightarrow> v) = []
      then fail_with ''NAS_SYNCTHING_API_KEY not set''
      else case file ''/volume1/homelab/syncthing/config/config.xml'' of
        None \<Rightarrow> fail_with ''open /volume1/homelab/syncthing/config/config.xml''
      | Some content \<Rightarrow>
          if local_api_key content = None
          then fail_with ''could not read API key from /volume1/homelab/syncthing/config/config.xml''
          else provision api)"

section \<open>Reasoning about programs\<close>

text \<open>
  \<open>triple L P m Q E\<close>: from a state with \<open>P\<close>, \<open>m\<close> makes only requests with \<open>L\<close> and ends in \<open>Q\<close> with its
  result or, after an error, in \<open>E\<close>.
\<close>

definition triple ::
  "(request \<Rightarrow> bool) \<Rightarrow> ('s \<Rightarrow> bool) \<Rightarrow> ('s, 'a) prog \<Rightarrow> ('a \<Rightarrow> 's \<Rightarrow> bool) \<Rightarrow> ('s \<Rightarrow> bool) \<Rightarrow> bool" where
  "triple L P m Q E \<longleftrightarrow>
     (\<forall>s. P s \<longrightarrow> (case m s of (r, s', l) \<Rightarrow>
        list_all L l \<and> (case r of Inr a \<Rightarrow> Q a s' | Inl _ \<Rightarrow> E s')))"

lemma triple_ret: "(\<And>s. P s \<Longrightarrow> Q x s) \<Longrightarrow> triple L P (ret x) Q E"
  by (simp add: triple_def ret_def)

lemma triple_fail: "(\<And>s. P s \<Longrightarrow> E s) \<Longrightarrow> triple L P (fail_with e) Q E"
  by (simp add: triple_def fail_with_def)

lemma and_then_ret [simp]: "and_then (ret x) f = f x"
  by (simp add: and_then_def ret_def fun_eq_iff split: prod.split)

lemma triple_then:
  assumes "triple L P m R E" "\<And>a. triple L (R a) (f a) Q E"
  shows "triple L P (and_then m f) Q E"
  unfolding triple_def
proof (intro allI impI)
  fix s assume "P s"
  obtain r s' l where m: "m s = (r, s', l)" by (metis prod.exhaust)
  show "case and_then m f s of (r, s', l) \<Rightarrow> list_all L l \<and> (case r of Inl e \<Rightarrow> E s' | Inr a \<Rightarrow> Q a s')"
  proof (cases r)
    case (Inl e)
    with assms(1) \<open>P s\<close> m show ?thesis by (auto simp: triple_def and_then_def)
  next
    case (Inr a)
    with assms(1) \<open>P s\<close> m have l: "list_all L l" "R a s'" by (auto simp: triple_def)
    obtain r2 s2 l2 where f: "f a s' = (r2, s2, l2)" by (metis prod.exhaust)
    from assms(2) [of a] l(2) f have "list_all L l2 \<and> (case r2 of Inl e \<Rightarrow> E s2 | Inr a \<Rightarrow> Q a s2)"
      by (auto simp: triple_def)
    with l(1) m Inr f show ?thesis by (simp add: and_then_def)
  qed
qed

lemma triple_weaken:
  "triple L R m S F \<Longrightarrow> (\<And>s. P s \<Longrightarrow> R s) \<Longrightarrow> (\<And>a s. S a s \<Longrightarrow> Q a s) \<Longrightarrow> (\<And>s. F s \<Longrightarrow> E s) \<Longrightarrow> triple L P m Q E"
  unfolding triple_def by (fastforce split: sum.splits)

lemma triple_each:
  assumes "\<And>x rest. x # rest \<in> set (suffixes xs) \<Longrightarrow> triple L (I (x # rest)) (f x) (\<lambda>_. I rest) E"
  shows "triple L (I xs) (each f xs) (\<lambda>_. I []) E"
  using assms
proof (induction xs)
  case Nil
  show ?case by (simp add: triple_ret)
next
  case (Cons x xs)
  have "triple L (I xs) (each f xs) (\<lambda>_. I []) E" by (rule Cons.IH) (rule Cons.prems, simp add: suffix_Cons)
  moreover have "triple L (I (x # xs)) (f x) (\<lambda>_. I xs) E" by (rule Cons.prems) simp
  ultimately show ?case by (auto intro: triple_then)
qed

lemma triple_get:
  assumes "\<And>s r s'. P s \<Longrightarrow> api \<lparr>rq_node = n, rq_method = GET, rq_path = path, rq_body = VNil\<rparr> s = (r, s') \<Longrightarrow>
      (case r of Inr m \<Rightarrow> Q m s' | Inl _ \<Rightarrow> E s')"
    and "L \<lparr>rq_node = n, rq_method = GET, rq_path = path, rq_body = VNil\<rparr>"
  shows "triple L P (get api n path) Q E"
  unfolding triple_def
proof (intro allI impI)
  fix s assume "P s"
  obtain r s' where a: "api \<lparr>rq_node = n, rq_method = GET, rq_path = path, rq_body = VNil\<rparr> s = (r, s')" by fastforce
  from assms(1) [OF \<open>P s\<close> a] assms(2) a
  show "case get api n path s of (r, s', l) \<Rightarrow> list_all L l \<and> (case r of Inl e \<Rightarrow> E s' | Inr a \<Rightarrow> Q a s')"
    by (simp add: get_def)
qed

lemma triple_put:
  assumes "\<And>s r s'. P s \<Longrightarrow> api \<lparr>rq_node = n, rq_method = PUT, rq_path = path, rq_body = VMap body\<rparr> s = (r, s') \<Longrightarrow>
      (case r of Inr m \<Rightarrow> Q () s' | Inl _ \<Rightarrow> E s')"
    and "L \<lparr>rq_node = n, rq_method = PUT, rq_path = path, rq_body = VMap body\<rparr>"
  shows "triple L P (put api n path body) Q E"
  unfolding triple_def
proof (intro allI impI)
  fix s assume "P s"
  obtain r s' where a: "api \<lparr>rq_node = n, rq_method = PUT, rq_path = path, rq_body = VMap body\<rparr> s = (r, s')" by fastforce
  from assms(1) [OF \<open>P s\<close> a] assms(2) a
  show "case put api n path body s of (r, s', l) \<Rightarrow> list_all L l \<and> (case r of Inl e \<Rightarrow> E s' | Inr a \<Rightarrow> Q a s')"
    by (cases r) (simp_all add: put_def)
qed

lemma triple_object:
  "(\<And>m s. d = VMap m \<Longrightarrow> P s \<Longrightarrow> Q m s) \<Longrightarrow> (\<And>s. P s \<Longrightarrow> E s) \<Longrightarrow> triple L P (as_object d) Q E"
  by (cases d) (simp_all add: as_object_def triple_ret triple_fail)

lemma triple_objects:
  assumes "\<And>s. P s \<Longrightarrow> E s"
  shows "triple L P (objects ds) (\<lambda>ms s. P s \<and> ds = map VMap ms) E"
proof (induction ds)
  case Nil
  show ?case by (simp add: triple_ret)
next
  case (Cons d ds)
  show ?case
  proof (cases "\<exists>m. d = VMap m")
    case True
    then obtain m where d: "d = VMap m" ..
    have "triple L P (and_then (objects ds) (\<lambda>ms. ret (m # ms))) (\<lambda>ms s. P s \<and> d # ds = map VMap ms) E"
      by (rule triple_then [OF Cons.IH]) (auto intro!: triple_ret simp: d)
    then show ?thesis by (simp add: d as_object_def)
  next
    case False
    have "triple L P (as_object d) (\<lambda>m s. False) E"
      by (rule triple_object) (use False assms in auto)
    moreover have "triple L (\<lambda>s. False) (and_then (objects ds) (\<lambda>ms. ret (m # ms)))
        (\<lambda>ms s. P s \<and> d # ds = map VMap ms) E" for m
      by (simp add: triple_def)
    ultimately show ?thesis by (auto intro: triple_then)
  qed
qed

section \<open>Configurations and the behaviour of a node\<close>

definition objs :: "any list \<Rightarrow> object list" where
  "objs ds = concat (map (\<lambda>d. case d of VMap m \<Rightarrow> [m] | _ \<Rightarrow> []) ds)"

definition devices :: "object \<Rightarrow> object list" where "devices c = objs (items c ''devices'')"
definition folders :: "object \<Rightarrow> object list" where "folders c = objs (items c ''folders'')"
definition dids :: "object \<Rightarrow> string set" where "dids c = set (keys_of (devices c) ''deviceID'')"
definition fids :: "object \<Rightarrow> string set" where "fids c = set (keys_of (folders c) ''id'')"

definition upsert :: "string \<Rightarrow> object \<Rightarrow> object list \<Rightarrow> object list" where
  "upsert key b ms =
     (if str b key \<in> set (keys_of ms key) then map (\<lambda>m. if str m key = str b key then b else m) ms else ms @ [b])"

definition stored_as :: "object \<Rightarrow> object \<Rightarrow> bool" where
  "stored_as body b \<longleftrightarrow>
     str b ''id'' = str body ''id'' \<and> str b ''label'' = str body ''label'' \<and> str b ''path'' = str body ''path'' \<and>
     str b ''deviceID'' = str body ''deviceID'' \<and> set (device_ids_of body) \<subseteq> set (device_ids_of b)"

text \<open>
  The documented behaviour of the two nodes: an answered \<open>GET\<close> changes no configuration and gives the
  configuration or the own id, an answered \<open>PUT\<close> of a device or a folder replaces the entry with its
  id or adds it (with defaults, and possibly more devices, filled in), an error changes nothing,
  and ids identify devices and folders.
\<close>

definition node_laws :: "'s api \<Rightarrow> ('s \<Rightarrow> node \<Rightarrow> object) \<Rightarrow> (node \<Rightarrow> string) \<Rightarrow> bool" where
  "node_laws api view my_id \<longleftrightarrow>
     (\<forall>s n. distinct (keys_of (devices (view s n)) ''deviceID'') \<and> distinct (keys_of (folders (view s n)) ''id'')) \<and>
     (\<forall>rq s r s'. api rq s = (r, s') \<longrightarrow>
        (case r of
           Inl _ \<Rightarrow> view s' = view s
         | Inr m \<Rightarrow>
             (rq_method rq = GET \<longrightarrow> view s' = view s \<and>
                (rq_path rq = ''/rest/config'' \<longrightarrow> m = view s (rq_node rq)) \<and>
                (rq_path rq = ''/rest/system/status'' \<longrightarrow> str m ''myID'' = my_id (rq_node rq))) \<and>
             (\<forall>body. rq_method rq = PUT \<and> rq_body rq = VMap body \<and>
                rq_path rq = device_path (str body ''deviceID'') \<longrightarrow>
                (\<exists>b. stored_as body b \<and>
                   devices (view s' (rq_node rq)) = upsert ''deviceID'' b (devices (view s (rq_node rq))) \<and>
                   folders (view s' (rq_node rq)) = folders (view s (rq_node rq)) \<and>
                   (\<forall>n. n \<noteq> rq_node rq \<longrightarrow> view s' n = view s n))) \<and>
             (\<forall>body. rq_method rq = PUT \<and> rq_body rq = VMap body \<and>
                rq_path rq = folder_path (str body ''id'') \<longrightarrow>
                (\<exists>b. stored_as body b \<and>
                   folders (view s' (rq_node rq)) = upsert ''id'' b (folders (view s (rq_node rq))) \<and>
                   devices (view s' (rq_node rq)) = devices (view s (rq_node rq)) \<and>
                   (\<forall>n. n \<noteq> rq_node rq \<longrightarrow> view s' n = view s n)))))"

lemma law_distinct:
  "node_laws api view my_id \<Longrightarrow>
   distinct (keys_of (devices (view s n)) ''deviceID'') \<and> distinct (keys_of (folders (view s n)) ''id'')"
  by (simp add: node_laws_def)

lemma law_call:
  assumes "node_laws api view my_id" "api rq s = (r, s')"
  shows "case r of Inl _ \<Rightarrow> view s' = view s
    | Inr m \<Rightarrow> (rq_method rq = GET \<longrightarrow> view s' = view s \<and>
         (rq_path rq = ''/rest/config'' \<longrightarrow> m = view s (rq_node rq)) \<and>
         (rq_path rq = ''/rest/system/status'' \<longrightarrow> str m ''myID'' = my_id (rq_node rq)))"
  using assms unfolding node_laws_def by (fastforce split: sum.split)

lemma law_put_device:
  assumes "node_laws api view my_id"
    and "api \<lparr>rq_node = n, rq_method = PUT, rq_path = device_path (str body ''deviceID''), rq_body = VMap body\<rparr> s = (Inr m, s')"
  shows "\<exists>b. stored_as body b \<and> devices (view s' n) = upsert ''deviceID'' b (devices (view s n)) \<and>
     folders (view s' n) = folders (view s n) \<and> (\<forall>k. k \<noteq> n \<longrightarrow> view s' k = view s k)"
  using assms unfolding node_laws_def by (fastforce split: sum.split)

lemma law_put_folder:
  assumes "node_laws api view my_id"
    and "api \<lparr>rq_node = n, rq_method = PUT, rq_path = folder_path (str body ''id''), rq_body = VMap body\<rparr> s = (Inr m, s')"
  shows "\<exists>b. stored_as body b \<and> folders (view s' n) = upsert ''id'' b (folders (view s n)) \<and>
     devices (view s' n) = devices (view s n) \<and> (\<forall>k. k \<noteq> n \<longrightarrow> view s' k = view s k)"
  using assms unfolding node_laws_def by (fastforce split: sum.split)

subsection \<open>Growing configurations\<close>

definition keeps :: "object \<Rightarrow> object \<Rightarrow> bool" where
  "keeps f f' \<longleftrightarrow>
     str f' ''id'' = str f ''id'' \<and> str f' ''label'' = str f ''label'' \<and> str f' ''path'' = str f ''path'' \<and>
     set (device_ids_of f) \<subseteq> set (device_ids_of f')"

definition extends :: "object \<Rightarrow> object \<Rightarrow> bool" where
  "extends c c' \<longleftrightarrow> dids c \<subseteq> dids c' \<and> (\<forall>f \<in> set (folders c). \<exists>f' \<in> set (folders c'). keeps f f')"

lemma keeps_refl: "keeps f f"
  by (simp add: keeps_def)

lemma keeps_trans: "keeps f g \<Longrightarrow> keeps g h \<Longrightarrow> keeps f h"
  by (auto simp: keeps_def)

lemma extends_refl: "extends c c"
  using keeps_refl by (auto simp: extends_def)

lemma extends_trans: "extends a b \<Longrightarrow> extends b c \<Longrightarrow> extends a c"
  unfolding extends_def by (metis keeps_trans order.trans)

lemma extends_same_folders:
  "dids c \<subseteq> dids c' \<Longrightarrow> set (folders c) \<subseteq> set (folders c') \<Longrightarrow> extends c c'"
  using keeps_refl by (auto simp: extends_def)

lemma keys_upsert: "set (keys_of (upsert key b ms) key) = insert (str b key) (set (keys_of ms key))"
  by (auto simp: upsert_def keys_of_def)

lemma upsert_keeps: "m \<in> set ms \<Longrightarrow> str m key \<noteq> str b key \<Longrightarrow> m \<in> set (upsert key b ms)"
  by (auto simp: upsert_def image_iff)

lemma key_in: "m \<in> set ms \<Longrightarrow> str m key \<in> set (keys_of ms key)"
  by (simp add: keys_of_def)

lemma keys_of_Cons [simp]: "keys_of (m # ms) key = str m key # keys_of ms key"
  by (simp add: keys_of_def)

lemma upsert_in: "m \<in> set (upsert key b ms) \<Longrightarrow> m = b \<or> m \<in> set ms \<and> str m key \<noteq> str b key"
proof -
  assume m: "m \<in> set (upsert key b ms)"
  note k = key_in [of m ms key]
  from m k show ?thesis
    by (cases "str b key \<in> set (keys_of ms key)") (auto simp: upsert_def)
qed

lemma b_in_upsert: "b \<in> set (upsert key b ms)"
  by (auto simp: upsert_def keys_of_def image_iff)

lemma dids_upsert: "devices c' = upsert ''deviceID'' b (devices c) \<Longrightarrow> dids c' = insert (str b ''deviceID'') (dids c)"
  by (simp add: dids_def keys_upsert)

lemma fids_upsert: "folders c' = upsert ''id'' b (folders c) \<Longrightarrow> fids c' = insert (str b ''id'') (fids c)"
  by (simp add: fids_def keys_upsert)

lemma distinct_keys_eq:
  "distinct (keys_of ms key) \<Longrightarrow> a \<in> set ms \<Longrightarrow> b \<in> set ms \<Longrightarrow> str a key = str b key \<Longrightarrow> a = b"
  unfolding keys_of_def by (rule distinct_map_eqD [of "\<lambda>m. str m key"])

lemma extends_update:
  assumes "distinct (keys_of (folders c) ''id'')" "f \<in> set (folders c)" "folders c' = upsert ''id'' b (folders c)"
    and "dids c' = dids c" "keeps f b"
  shows "extends c c'"
  unfolding extends_def
proof (intro conjI ballI)
  fix g assume g: "g \<in> set (folders c)"
  show "\<exists>g' \<in> set (folders c'). keeps g g'"
  proof (cases "str g ''id'' = str b ''id''")
    case True
    with assms(1,2,5) g have "g = f" using distinct_keys_eq by (metis keeps_def)
    with assms(3,5) show ?thesis by (metis b_in_upsert)
  next
    case False
    with g assms(3) show ?thesis by (metis keeps_refl upsert_keeps)
  qed
qed (use assms(4) in simp)

section \<open>The steps against such nodes\<close>

abbreviation any_request :: "request \<Rightarrow> bool" where "any_request \<equiv> \<lambda>_. True"

definition grown :: "('s \<Rightarrow> node \<Rightarrow> object) \<Rightarrow> 's \<Rightarrow> 's \<Rightarrow> bool" where
  "grown view s0 s \<longleftrightarrow> (\<forall>n. extends (view s0 n) (view s n))"

lemma grown_step:
  "grown view s0 s \<Longrightarrow> extends (view s n) (view s' n) \<Longrightarrow> \<forall>k. k \<noteq> n \<longrightarrow> view s' k = view s k \<Longrightarrow> grown view s0 s'"
  unfolding grown_def by (metis extends_trans)

lemma grown_refl: "grown view s s"
  by (simp add: grown_def extends_refl)

lemma grown_same: "grown view s0 s \<Longrightarrow> view s' = view s \<Longrightarrow> grown view s0 s'"
  by (simp add: grown_def)

text \<open>One \<open>PUT\<close>: its effect is that of the law, an error leaves the configurations alone.\<close>

lemma triple_put_device:
  assumes laws: "node_laws api view my_id" and id: "str body ''deviceID'' = i"
    and ok: "\<And>s s' b. P s \<Longrightarrow> stored_as body b \<Longrightarrow> devices (view s' n) = upsert ''deviceID'' b (devices (view s n)) \<Longrightarrow>
      folders (view s' n) = folders (view s n) \<Longrightarrow> \<forall>k. k \<noteq> n \<longrightarrow> view s' k = view s k \<Longrightarrow>
      dids (view s' n) = insert i (dids (view s n)) \<Longrightarrow> extends (view s n) (view s' n) \<Longrightarrow> Q s'"
    and err: "\<And>s s'. P s \<Longrightarrow> view s' = view s \<Longrightarrow> E s'"
  shows "triple any_request P (put api n (device_path i) body) (\<lambda>_. Q) E"
proof (rule triple_put)
  fix s r s' assume P: "P s" and c: "api \<lparr>rq_node = n, rq_method = PUT, rq_path = device_path i, rq_body = VMap body\<rparr> s = (r, s')"
  show "case r of Inl _ \<Rightarrow> E s' | Inr m \<Rightarrow> Q s'"
  proof (cases r)
    case (Inl e)
    with law_call [OF laws c] err [OF P] show ?thesis by simp
  next
    case (Inr m)
    from law_put_device [OF laws c [unfolded Inr id [symmetric]]] obtain b where
      b: "stored_as body b" "devices (view s' n) = upsert ''deviceID'' b (devices (view s n))"
      "folders (view s' n) = folders (view s n)" "\<forall>k. k \<noteq> n \<longrightarrow> view s' k = view s k" by blast
    have d: "dids (view s' n) = insert i (dids (view s n))"
      using dids_upsert [OF b(2)] b(1) id by (simp add: stored_as_def)
    have "extends (view s n) (view s' n)" by (rule extends_same_folders) (use d b(3) in auto)
    from ok [OF P b d this] Inr show ?thesis by simp
  qed
qed simp

lemma triple_put_folder:
  assumes laws: "node_laws api view my_id" and id: "str body ''id'' = i"
    and ok: "\<And>s s' b. P s \<Longrightarrow> stored_as body b \<Longrightarrow> folders (view s' n) = upsert ''id'' b (folders (view s n)) \<Longrightarrow>
      dids (view s' n) = dids (view s n) \<Longrightarrow> \<forall>k. k \<noteq> n \<longrightarrow> view s' k = view s k \<Longrightarrow>
      fids (view s' n) = insert i (fids (view s n)) \<Longrightarrow> str b ''id'' = i \<Longrightarrow> Q s'"
    and err: "\<And>s s'. P s \<Longrightarrow> view s' = view s \<Longrightarrow> E s'"
  shows "triple any_request P (put api n (folder_path i) body) (\<lambda>_. Q) E"
proof (rule triple_put)
  fix s r s' assume P: "P s" and c: "api \<lparr>rq_node = n, rq_method = PUT, rq_path = folder_path i, rq_body = VMap body\<rparr> s = (r, s')"
  show "case r of Inl _ \<Rightarrow> E s' | Inr m \<Rightarrow> Q s'"
  proof (cases r)
    case (Inl e)
    with law_call [OF laws c] err [OF P] show ?thesis by simp
  next
    case (Inr m)
    from law_put_folder [OF laws c [unfolded Inr id [symmetric]]] obtain b where
      b: "stored_as body b" "folders (view s' n) = upsert ''id'' b (folders (view s n))"
      "devices (view s' n) = devices (view s n)" "\<forall>k. k \<noteq> n \<longrightarrow> view s' k = view s k" by blast
    have "str b ''id'' = i" using b(1) id by (simp add: stored_as_def)
    moreover from this have "fids (view s' n) = insert i (fids (view s n))" using fids_upsert [OF b(2)] by simp
    ultimately show ?thesis using ok [OF P b(1,2) _ b(4)] b(3) Inr by (simp add: dids_def)
  qed
qed simp

lemma triple_get_config:
  assumes "node_laws api view my_id" "\<And>s s'. P s \<Longrightarrow> view s' = view s \<Longrightarrow> Q (view s n) s' \<and> E s'" "L \<lparr>rq_node = n, rq_method = GET, rq_path = ''/rest/config'', rq_body = VNil\<rparr>"
  shows "triple L P (get api n ''/rest/config'') Q E"
proof (rule triple_get)
  fix s r s' assume P: "P s" and c: "api \<lparr>rq_node = n, rq_method = GET, rq_path = ''/rest/config'', rq_body = VNil\<rparr> s = (r, s')"
  from law_call [OF assms(1) c] assms(2) [OF P] show "case r of Inl _ \<Rightarrow> E s' | Inr m \<Rightarrow> Q m s'"
    by (cases r) auto
qed (rule assms(3))

lemma triple_get_status:
  assumes "node_laws api view my_id" "\<And>s s' m. P s \<Longrightarrow> view s' = view s \<Longrightarrow> str m ''myID'' = my_id n \<Longrightarrow> Q m s'"
    "\<And>s s'. P s \<Longrightarrow> view s' = view s \<Longrightarrow> E s'"
    "L \<lparr>rq_node = n, rq_method = GET, rq_path = ''/rest/system/status'', rq_body = VNil\<rparr>"
  shows "triple L P (get api n ''/rest/system/status'') Q E"
proof (rule triple_get)
  fix s r s' assume P: "P s" and c: "api \<lparr>rq_node = n, rq_method = GET, rq_path = ''/rest/system/status'', rq_body = VNil\<rparr> s = (r, s')"
  from law_call [OF assms(1) c] assms(2,3) [OF P] show "case r of Inl _ \<Rightarrow> E s' | Inr m \<Rightarrow> Q m s'"
    by (cases r) auto
qed (rule assms(4))

lemma objs_map [simp]: "objs (map VMap ms) = ms"
  by (induction ms) (simp_all add: objs_def)

lemma objs_Cons [simp]: "objs (VMap m # ds) = m # objs ds"
  by (simp add: objs_def)

lemma device_ids_folder_body [simp]: "device_ids_of (folder_body fid label path ids) = ids"
  by (induction ids) (simp_all add: device_ids_of_def folder_body_def items_def as_list_def str_def as_str_def)

lemma body_keys [simp]:
  "str (folder_body fid label path ids) ''id'' = fid" "str (device_body i name) ''deviceID'' = i"
  by (simp_all add: folder_body_def device_body_def str_def as_str_def)

definition with_device :: "object \<Rightarrow> string \<Rightarrow> object" where
  "with_device folder local_id =
     mput ''devices'' (VList (items folder ''devices'' @ [VMap [(''deviceID'', VStr local_id)]])) folder"

lemma device_ids_with_device [simp]: "device_ids_of (with_device f i) = device_ids_of f @ [i]"
  by (simp add: device_ids_of_def with_device_def items_def as_list_def str_def as_str_def)

lemma str_with_device [simp]: "k \<noteq> ''devices'' \<Longrightarrow> str (with_device f i) k = str f k"
  by (simp add: str_def with_device_def)

definition archived :: "object \<Rightarrow> string \<Rightarrow> bool" where
  "archived c name \<longleftrightarrow> archive_folder_id name \<in> fids c"

definition shared :: "string \<Rightarrow> object \<Rightarrow> bool" where
  "shared local_id f \<longleftrightarrow> has_device f local_id \<or> str f ''label'' \<in> excluded_labels"

definition nas_done :: "string \<Rightarrow> object \<Rightarrow> bool" where
  "nas_done local_id c \<longleftrightarrow> local_id \<in> dids c \<and> (\<forall>name \<in> set new_archive_folders. archived c name) \<and>
     (\<forall>f \<in> set (folders c). shared local_id f)"

lemma register_self_triple:
  assumes laws: "node_laws api view my_id"
  shows "triple any_request (\<lambda>s. view s = view s0)
    (register_self api local_id (keys_of (devices (view s0 Nas)) ''deviceID''))
    (\<lambda>_ s. grown view s0 s \<and> view s Local = view s0 Local \<and> folders (view s Nas) = folders (view s0 Nas) \<and>
       local_id \<in> dids (view s Nas)) (grown view s0)"
proof (cases "local_id \<in> dids (view s0 Nas)")
  case True
  then show ?thesis
    by (auto simp: register_self_def dids_def intro!: triple_ret grown_same [OF grown_refl])
next
  case False
  then have put: "register_self api local_id (keys_of (devices (view s0 Nas)) ''deviceID'') =
      put api Nas (device_path local_id) (device_body local_id ''ugreen'')"
    by (simp add: register_self_def dids_def)
  show ?thesis
    unfolding put
  proof (rule triple_put_device [OF laws])
    fix s s' b
    assume s: "view s = view s0" and b: "folders (view s' Nas) = folders (view s Nas)"
      "\<forall>k. k \<noteq> Nas \<longrightarrow> view s' k = view s k" "dids (view s' Nas) = insert local_id (dids (view s Nas))"
      "extends (view s Nas) (view s' Nas)"
    from grown_step [OF grown_same [OF grown_refl s] b(4,2)] s b
    show "grown view s0 s' \<and> view s' Local = view s0 Local \<and> folders (view s' Nas) = folders (view s0 Nas) \<and>
        local_id \<in> dids (view s' Nas)" by simp
  qed (auto intro: grown_same [OF grown_refl])
qed

definition archive_inv :: "('s \<Rightarrow> node \<Rightarrow> object) \<Rightarrow> 's \<Rightarrow> string \<Rightarrow> string list \<Rightarrow> 's \<Rightarrow> bool" where
  "archive_inv view s0 local_id rest s \<longleftrightarrow>
     grown view s0 s \<and> view s Local = view s0 Local \<and> local_id \<in> dids (view s Nas) \<and>
     set (folders (view s0 Nas)) \<subseteq> set (folders (view s Nas)) \<and>
     (\<forall>f \<in> set (folders (view s Nas)). f \<in> set (folders (view s0 Nas)) \<or> has_device f local_id) \<and>
     (\<forall>name \<in> set new_archive_folders - set rest. archived (view s Nas) name)"

lemma create_archive_triple:
  assumes laws: "node_laws api view my_id"
  shows "triple any_request (archive_inv view s0 local_id (name # rest))
    (create_archive api nas_id local_id (keys_of (folders (view s0 Nas)) ''id'') name)
    (\<lambda>_. archive_inv view s0 local_id rest) (grown view s0)"
proof (cases "archive_folder_id name \<in> fids (view s0 Nas)")
  case True
  have "archived (view s Nas) name" if "archive_inv view s0 local_id (name # rest) s" for s
    using that True by (auto simp: archive_inv_def archived_def fids_def keys_of_def)
  then have "archive_inv view s0 local_id rest s" if "archive_inv view s0 local_id (name # rest) s" for s
    using that by (auto simp: archive_inv_def)
  with True show ?thesis by (auto simp: create_archive_def fids_def Let_def intro!: triple_ret)
next
  case False
  define fid where "fid = archive_folder_id name"
  define body where "body = folder_body fid name (''/data1/'' @ name) [nas_id, local_id]"
  have put: "create_archive api nas_id local_id (keys_of (folders (view s0 Nas)) ''id'') name =
      put api Nas (folder_path fid) body"
    using False by (simp add: create_archive_def fids_def Let_def fid_def body_def)
  show ?thesis
    unfolding put
  proof (rule triple_put_folder [OF laws])
    fix s s' b
    assume inv: "archive_inv view s0 local_id (name # rest) s" and b: "stored_as body b"
      "folders (view s' Nas) = upsert ''id'' b (folders (view s Nas))" "dids (view s' Nas) = dids (view s Nas)"
      "\<forall>k. k \<noteq> Nas \<longrightarrow> view s' k = view s k" "fids (view s' Nas) = insert fid (fids (view s Nas))" "str b ''id'' = fid"
    have dev: "has_device b local_id" using b(1) by (auto simp: stored_as_def body_def has_device_def)
    have old: "set (folders (view s0 Nas)) \<subseteq> set (folders (view s' Nas))"
    proof
      fix f assume f: "f \<in> set (folders (view s0 Nas))"
      from key_in [OF this] False have "str f ''id'' \<noteq> fid" by (metis fid_def fids_def)
      with f inv b(2,6) show "f \<in> set (folders (view s' Nas))" by (auto simp: archive_inv_def intro!: upsert_keeps)
    qed
    have loc: "view s' Local = view s0 Local" using inv b(4) by (auto simp: archive_inv_def)
    have "dids (view s0 Nas) \<subseteq> dids (view s' Nas)" using inv b(3) by (auto simp: archive_inv_def grown_def extends_def)
    then have "extends (view s0 Nas) (view s' Nas)" using old by (rule extends_same_folders)
    then have "grown view s0 s'" using loc unfolding grown_def by (metis extends_refl node.exhaust)
    moreover have "\<forall>f \<in> set (folders (view s' Nas)). f \<in> set (folders (view s0 Nas)) \<or> has_device f local_id"
      using inv dev by (auto simp: archive_inv_def b(2) dest!: upsert_in)
    moreover have "\<forall>n \<in> set new_archive_folders - set rest. archived (view s' Nas) n"
      using inv b(5) by (auto simp: archive_inv_def archived_def fid_def)
    ultimately show "archive_inv view s0 local_id rest s'"
      using inv old loc b(3) by (simp add: archive_inv_def)
  qed (auto simp: archive_inv_def body_def intro: grown_same)
qed

definition share_inv :: "('s \<Rightarrow> node \<Rightarrow> object) \<Rightarrow> 's \<Rightarrow> string \<Rightarrow> any list \<Rightarrow> 's \<Rightarrow> bool" where
  "share_inv view s0 local_id rest s \<longleftrightarrow>
     grown view s0 s \<and> view s Local = view s0 Local \<and> local_id \<in> dids (view s Nas) \<and>
     (\<forall>name \<in> set new_archive_folders. archived (view s Nas) name) \<and>
     set (objs rest) \<subseteq> set (folders (view s Nas)) \<and>
     (\<forall>f \<in> set (folders (view s Nas)). f \<in> set (objs rest) \<or> shared local_id f)"

lemma add_to_folder_triple:
  assumes laws: "node_laws api view my_id" and dist: "distinct (keys_of (objs (VMap f # rest)) ''id'')"
  shows "triple any_request (share_inv view s0 local_id (VMap f # rest)) (add_to_folder api local_id (VMap f))
    (\<lambda>_. share_inv view s0 local_id rest) (grown view s0)"
proof (cases "shared local_id f")
  case True
  have "share_inv view s0 local_id rest s" if "share_inv view s0 local_id (VMap f # rest) s" for s
    using that True by (auto simp: share_inv_def)
  with True show ?thesis
    by (auto simp: add_to_folder_def as_object_def shared_def intro!: triple_ret)
next
  case False
  then have put: "add_to_folder api local_id (VMap f) =
      put api Nas (folder_path (str f ''id'')) (with_device f local_id)"
    by (simp add: add_to_folder_def as_object_def shared_def with_device_def)
  show ?thesis
    unfolding put
  proof (rule triple_put_folder [OF laws])
    fix s s' b
    assume inv: "share_inv view s0 local_id (VMap f # rest) s" and b: "stored_as (with_device f local_id) b"
      "folders (view s' Nas) = upsert ''id'' b (folders (view s Nas))" "dids (view s' Nas) = dids (view s Nas)"
      "\<forall>k. k \<noteq> Nas \<longrightarrow> view s' k = view s k" "fids (view s' Nas) = insert (str f ''id'') (fids (view s Nas))"
      "str b ''id'' = str f ''id''"
    have f: "f \<in> set (folders (view s Nas))" using inv by (simp add: share_inv_def)
    have k: "keeps f b" using b(1) by (auto simp: stored_as_def keeps_def)
    have d: "distinct (keys_of (folders (view s Nas)) ''id'')" using law_distinct [OF laws] by blast
    have ext: "extends (view s Nas) (view s' Nas)" by (rule extends_update [OF d f b(2,3) k])
    have g: "grown view s0 s'" by (rule grown_step [OF _ ext b(4)]) (use inv in \<open>simp add: share_inv_def\<close>)
    have dev: "shared local_id b" using b(1) by (auto simp: stored_as_def shared_def has_device_def)
    have "set (objs rest) \<subseteq> set (folders (view s' Nas))"
    proof
      fix h assume h: "h \<in> set (objs rest)"
      from key_in [OF this, of "''id''"] dist have "str h ''id'' \<noteq> str f ''id''" by auto
      with h inv b(2,6) show "h \<in> set (folders (view s' Nas))" by (auto simp: share_inv_def intro!: upsert_keeps)
    qed
    moreover have "h \<in> set (objs rest) \<or> shared local_id h" if "h \<in> set (folders (view s' Nas))" for h
    proof -
      from that upsert_in [of h "''id''" b] b(2,6) consider "h = b" | "h \<in> set (folders (view s Nas))" "str h ''id'' \<noteq> str f ''id''"
        by auto
      then show ?thesis by cases (use inv dev in \<open>auto simp: share_inv_def\<close>)
    qed
    ultimately show "share_inv view s0 local_id rest s'"
      using inv g b(3,4,5) by (auto simp: share_inv_def archived_def)
  qed (auto simp: share_inv_def intro: grown_same)
qed

lemma triple_pure: "(A \<Longrightarrow> triple L P m Q E) \<Longrightarrow> triple L (\<lambda>s. A \<and> P s) m Q E"
  by (auto simp: triple_def)

lemma objects_triple:
  "(\<And>s. P s \<Longrightarrow> E s) \<Longrightarrow> (\<And>ms. ds = map VMap ms \<Longrightarrow> triple L P (f ms) Q E) \<Longrightarrow>
   triple L P (and_then (objects ds) f) Q E"
  by (rule triple_then [OF triple_objects, of P E L ds], assumption, subst conj_commute, rule triple_pure)

lemma suffix_objs_distinct:
  assumes "x # rest \<in> set (suffixes (map VMap ms))" "distinct (keys_of ms key)"
  shows "\<exists>m. x = VMap m \<and> distinct (keys_of (objs (VMap m # rest)) key)"
proof -
  from assms(1) have "suffix (x # rest) (map VMap ms)" by simp
  then obtain us where us: "map VMap ms = us @ x # rest" by (auto simp: suffix_def)
  then obtain as m bs where ms: "ms = as @ m # bs" "x = VMap m" "rest = map VMap bs"
    by (auto simp: map_eq_append_conv map_eq_Cons_conv)
  with assms(2) have "distinct (keys_of (m # bs) key)" by (auto simp: keys_of_def)
  with ms show ?thesis by (simp only: objs_Cons objs_map) blast
qed

lemma nas_side_triple:
  assumes laws: "node_laws api view my_id"
  shows "triple any_request (\<lambda>s. view s = view s0) (nas_side api local_id)
    (\<lambda>_ s. grown view s0 s \<and> view s Local = view s0 Local \<and> nas_done local_id (view s Nas)) (grown view s0)"
    (is "triple _ ?P _ ?Q ?E")
  unfolding nas_side_def
proof (rule triple_then [where R = "\<lambda>c s. c = view s0 Nas \<and> ?P s"])
  show "triple any_request ?P (get api Nas ''/rest/config'') (\<lambda>c s. c = view s0 Nas \<and> ?P s) ?E"
    by (rule triple_get_config [OF laws]) (auto intro: grown_same [OF grown_refl])
next
  fix c
  let ?start = "\<lambda>_ s. grown view s0 s \<and> view s Local = view s0 Local \<and> folders (view s Nas) = folders (view s0 Nas) \<and>
       local_id \<in> dids (view s Nas)"
  let ?archives = "\<lambda>nas_id. each (create_archive api nas_id local_id (keys_of (folders (view s0 Nas)) ''id'')) new_archive_folders"
  have archives: "triple any_request (?start ()) (?archives nas_id) (\<lambda>_. archive_inv view s0 local_id []) ?E" for nas_id
  proof (rule triple_weaken)
    show "triple any_request (archive_inv view s0 local_id new_archive_folders) (?archives nas_id)
        (\<lambda>_. archive_inv view s0 local_id []) ?E"
      by (rule triple_each) (rule create_archive_triple [OF laws])
  qed (auto simp: archive_inv_def)
  have share: "triple any_request (archive_inv view s0 local_id []) (each (add_to_folder api local_id) (map VMap fs))
      (\<lambda>_. share_inv view s0 local_id []) ?E" if fs: "folders (view s0 Nas) = fs" for fs
  proof (rule triple_weaken)
    have dist: "distinct (keys_of fs ''id'')" using law_distinct [OF laws] fs by metis
    show "triple any_request (share_inv view s0 local_id (map VMap fs)) (each (add_to_folder api local_id) (map VMap fs))
        (\<lambda>_. share_inv view s0 local_id []) ?E"
    proof (rule triple_each)
      fix x rest assume "x # rest \<in> set (suffixes (map VMap fs))"
      from suffix_objs_distinct [OF this dist] obtain m where
        "x = VMap m" "distinct (keys_of (objs (VMap m # rest)) ''id'')" by blast
      then show "triple any_request (share_inv view s0 local_id (x # rest)) (add_to_folder api local_id x)
          (\<lambda>_. share_inv view s0 local_id rest) ?E"
        by (simp only:) (rule add_to_folder_triple [OF laws])
    qed
  qed (use fs in \<open>auto simp: archive_inv_def share_inv_def shared_def\<close>)
  have fin: "share_inv view s0 local_id [] s \<Longrightarrow> ?Q () s" for s
    by (auto simp: share_inv_def nas_done_def objs_def)
  show "triple any_request (\<lambda>s. c = view s0 Nas \<and> ?P s)
     (and_then (get api Nas ''/rest/system/status'') (\<lambda>nas_status.
      and_then (objects (items c ''devices'')) (\<lambda>ds.
      and_then (objects (items c ''folders'')) (\<lambda>fs.
      and_then (register_self api local_id (keys_of ds ''deviceID'')) (\<lambda>_.
      and_then (each (create_archive api (str nas_status ''myID'') local_id (keys_of fs ''id'')) new_archive_folders) (\<lambda>_.
      each (add_to_folder api local_id) (items c ''folders''))))))) ?Q ?E"
  proof (rule triple_pure, rule triple_then [where R = "\<lambda>_. ?P"])
    show "triple any_request ?P (get api Nas ''/rest/system/status'') (\<lambda>_. ?P) ?E"
      by (rule triple_get_status [OF laws]) (auto intro: grown_same [OF grown_refl])
  next
    fix nas_status assume c: "c = view s0 Nas"
    show "triple any_request ?P
       (and_then (objects (items c ''devices'')) (\<lambda>ds.
        and_then (objects (items c ''folders'')) (\<lambda>fs.
        and_then (register_self api local_id (keys_of ds ''deviceID'')) (\<lambda>_.
        and_then (each (create_archive api (str nas_status ''myID'') local_id (keys_of fs ''id'')) new_archive_folders) (\<lambda>_.
        each (add_to_folder api local_id) (items c ''folders'')))))) ?Q ?E"
    proof (rule objects_triple, rule grown_same [OF grown_refl], assumption,
        rule objects_triple, rule grown_same [OF grown_refl], assumption)
      fix ds fs assume "items c ''devices'' = map VMap ds" and i: "items c ''folders'' = map VMap fs"
      then have d: "ds = devices (view s0 Nas)" and f: "fs = folders (view s0 Nas)"
        using c by (simp_all add: devices_def folders_def)
      show "triple any_request ?P (and_then (register_self api local_id (keys_of ds ''deviceID'')) (\<lambda>_.
          and_then (each (create_archive api (str nas_status ''myID'') local_id (keys_of fs ''id'')) new_archive_folders) (\<lambda>_.
          each (add_to_folder api local_id) (items c ''folders'')))) ?Q ?E"
        unfolding i d f
      proof (rule triple_then [OF register_self_triple [OF laws]], rule triple_then [OF archives])
        show "triple any_request (archive_inv view s0 local_id [])
            (each (add_to_folder api local_id) (map VMap (folders (view s0 Nas)))) ?Q ?E"
          by (rule triple_weaken [OF share [OF refl]]) (use fin in auto)
      qed
    qed
  qed
qed

subsection \<open>The local side\<close>

lemma set_devices_by_id: "fst ` set (devices_by_id ds) = set (keys_of ds ''deviceID'')"
proof -
  have "fst ` set (devices_by_id ds) = dom (mget (devices_by_id ds))"
    using mkeys_dom [of "devices_by_id ds"] by (simp add: mkeys_def)
  also have "\<dots> = set (keys_of ds ''deviceID'')"
    using gm.dom_fold_put [of "\<lambda>d. str d ''deviceID''" "\<lambda>d. d" ds "[]"]
    by (simp add: devices_by_id_def keys_of_def)
  finally show ?thesis .
qed

lemma grown_dids: "grown view s1 s \<Longrightarrow> dids (view s1 n) \<subseteq> dids (view s n)"
  by (simp add: grown_def extends_def)

definition register_inv :: "('s \<Rightarrow> node \<Rightarrow> object) \<Rightarrow> 's \<Rightarrow> string \<Rightarrow> (string \<times> object) list \<Rightarrow> (string \<times> object) list \<Rightarrow> 's \<Rightarrow> bool" where
  "register_inv view s1 local_id all rest s \<longleftrightarrow>
     grown view s1 s \<and> view s Nas = view s1 Nas \<and>
     (\<forall>p \<in> set all - set rest. fst p = local_id \<or> fst p \<in> dids (view s Local))"

lemma register_device_triple:
  assumes laws: "node_laws api view my_id"
  shows "triple any_request (register_inv view s1 local_id all (p # rest))
    (register_device api local_id (keys_of (devices (view s1 Local)) ''deviceID'') p)
    (\<lambda>_. register_inv view s1 local_id all rest) (grown view s1)"
proof -
  obtain i dev where p: "p = (i, dev)" by fastforce
  show ?thesis
  proof (cases "i = local_id \<or> i \<in> dids (view s1 Local)")
    case True
    have "register_inv view s1 local_id all rest s" if "register_inv view s1 local_id all (p # rest) s" for s
      using that True grown_dids [of view s1 s Local] by (auto simp: register_inv_def p)
    with True show ?thesis by (auto simp: register_device_def p dids_def intro!: triple_ret)
  next
    case False
    define name where "name = (if str dev ''name'' = [] then short_id i else str dev ''name'')"
    have put: "register_device api local_id (keys_of (devices (view s1 Local)) ''deviceID'') p =
        put api Local (device_path i) (device_body i name)"
      using False by (simp add: register_device_def p dids_def name_def Let_def)
    show ?thesis
      unfolding put
    proof (rule triple_put_device [OF laws])
      fix s s' b
      assume inv: "register_inv view s1 local_id all (p # rest) s" and b: "\<forall>k. k \<noteq> Local \<longrightarrow> view s' k = view s k"
        "dids (view s' Local) = insert i (dids (view s Local))" "extends (view s Local) (view s' Local)"
      have "grown view s1 s'" by (rule grown_step [OF _ b(3,1)]) (use inv in \<open>simp add: register_inv_def\<close>)
      with inv b(1,2) show "register_inv view s1 local_id all rest s'" by (auto simp: register_inv_def p)
    qed (auto simp: register_inv_def intro: grown_same)
  qed
qed

definition accept_inv :: "('s \<Rightarrow> node \<Rightarrow> object) \<Rightarrow> 's \<Rightarrow> 's \<Rightarrow> string \<Rightarrow> any list \<Rightarrow> 's \<Rightarrow> bool" where
  "accept_inv view s1 s2 local_id rest s \<longleftrightarrow>
     grown view s1 s \<and> grown view s2 s \<and> view s Nas = view s1 Nas \<and>
     (\<forall>f \<in> set (objs rest). str f ''id'' \<in> fids (view s2 Local) \<or> str f ''id'' \<notin> fids (view s Local)) \<and>
     fids (view s2 Local) \<subseteq> fids (view s Local) \<and>
     (\<forall>f \<in> set (folders (view s1 Nas)) - set (objs rest).
        str f ''label'' \<in> excluded_labels \<or> has_device f local_id = False \<or> str f ''id'' \<in> fids (view s Local))"

lemma accept_folder_triple:
  assumes laws: "node_laws api view my_id" and dist: "distinct (keys_of (objs (VMap f # rest)) ''id'')"
  shows "triple any_request (accept_inv view s1 s2 local_id (VMap f # rest))
    (accept_folder api local_id (keys_of (folders (view s2 Local)) ''id'') (VMap f))
    (\<lambda>_. accept_inv view s1 s2 local_id rest) (grown view s1)"
proof (cases "str f ''label'' \<in> excluded_labels \<or> \<not> has_device f local_id \<or> str f ''id'' \<in> fids (view s2 Local)")
  case True
  have "accept_inv view s1 s2 local_id rest s" if "accept_inv view s1 s2 local_id (VMap f # rest) s" for s
    using that True by (auto simp: accept_inv_def)
  with True show ?thesis
    by (auto simp: accept_folder_def as_object_def fids_def Let_def intro!: triple_ret)
next
  case False
  define body where "body = folder_body (str f ''id'') (label_or f (str f ''id''))
     (local_data_root @ ''/'' @ last (split_char CHR ''/'' (str f ''path''))) (device_ids_of f)"
  have put: "accept_folder api local_id (keys_of (folders (view s2 Local)) ''id'') (VMap f) =
      put api Local (folder_path (str f ''id'')) body"
    using False by (simp add: accept_folder_def as_object_def fids_def Let_def body_def)
  show ?thesis
    unfolding put
  proof (rule triple_put_folder [OF laws])
    fix s s' b
    assume inv: "accept_inv view s1 s2 local_id (VMap f # rest) s" and b: "stored_as body b"
      "folders (view s' Local) = upsert ''id'' b (folders (view s Local))" "dids (view s' Local) = dids (view s Local)"
      "\<forall>k. k \<noteq> Local \<longrightarrow> view s' k = view s k" "fids (view s' Local) = insert (str f ''id'') (fids (view s Local))"
      "str b ''id'' = str f ''id''"
    from inv False have new: "str f ''id'' \<notin> fids (view s Local)" by (auto simp: accept_inv_def)
    have "set (folders (view s Local)) \<subseteq> set (folders (view s' Local))"
    proof
      fix g assume g: "g \<in> set (folders (view s Local))"
      from key_in [OF this, of "''id''"] new b(6) have "str g ''id'' \<noteq> str b ''id''" by (auto simp: fids_def)
      with g show "g \<in> set (folders (view s' Local))" unfolding b(2) by (rule upsert_keeps)
    qed
    with b(3) have ext: "extends (view s Local) (view s' Local)" by (intro extends_same_folders) simp_all
    have "grown view s1 s'" "grown view s2 s'"
      by (rule grown_step [OF _ ext b(4)]; use inv in \<open>simp add: accept_inv_def\<close>)+
    moreover have "\<forall>g \<in> set (objs rest). str g ''id'' \<in> fids (view s2 Local) \<or> str g ''id'' \<notin> fids (view s' Local)"
    proof
      fix g assume g: "g \<in> set (objs rest)"
      from key_in [OF this, of "''id''"] dist have "str g ''id'' \<noteq> str f ''id''" by auto
      with g inv b(5) show "str g ''id'' \<in> fids (view s2 Local) \<or> str g ''id'' \<notin> fids (view s' Local)"
        by (auto simp: accept_inv_def)
    qed
    ultimately show "accept_inv view s1 s2 local_id rest s'"
      using inv b(4,5) by (auto simp: accept_inv_def)
  qed (auto simp: accept_inv_def body_def intro: grown_same)
qed

definition converged :: "string \<Rightarrow> (node \<Rightarrow> object) \<Rightarrow> bool" where
  "converged local_id v \<longleftrightarrow>
     nas_done local_id (v Nas) \<and>
     (\<forall>i \<in> dids (v Nas). i = local_id \<or> i \<in> dids (v Local)) \<and>
     (\<forall>f \<in> set (folders (v Nas)). str f ''label'' \<in> excluded_labels \<or> str f ''id'' \<in> fids (v Local))"

lemma triple_fix: "(\<And>s2. P s2 \<Longrightarrow> triple L (\<lambda>s. view s = view s2) m Q E) \<Longrightarrow> triple L P m Q E"
proof -
  assume each_start: "\<And>s2. P s2 \<Longrightarrow> triple L (\<lambda>s. view s = view s2) m Q E"
  show ?thesis
    unfolding triple_def
  proof (intro allI impI)
    fix s assume "P s"
    from each_start [OF this] show "case m s of (r, s', l) \<Rightarrow> list_all L l \<and> (case r of Inl _ \<Rightarrow> E s' | Inr a \<Rightarrow> Q a s')"
      by (simp add: triple_def)
  qed
qed

lemma suffix_objs:
  assumes "x # rest \<in> set (suffixes xs)" "distinct (keys_of (objs xs) key)"
  shows "distinct (keys_of (objs (x # rest)) key)"
proof -
  have split: "keys_of (objs (us @ vs)) key = keys_of (objs us) key @ keys_of (objs vs) key" for us vs
    by (simp add: objs_def keys_of_def)
  from assms(1) obtain us where "xs = us @ x # rest" by (auto simp: suffix_def)
  with assms(2) show ?thesis by (simp only: split distinct_append)
qed

lemma as_object_fails: "\<nexists>m. x = VMap m \<Longrightarrow> as_object x = fail_with ''panic: interface conversion''"
  by (cases x) (simp_all add: as_object_def)

lemma fail_then [simp]: "and_then (fail_with e) f = fail_with e"
  by (simp add: and_then_def fail_with_def fun_eq_iff)

lemma local_side_triple:
  assumes laws: "node_laws api view my_id" and nas: "nas_done local_id (view s1 Nas)"
  shows "triple any_request (\<lambda>s. view s = view s1) (local_side api local_id)
    (\<lambda>_ s. grown view s1 s \<and> converged local_id (view s)) (grown view s1)"
    (is "triple _ ?P _ ?Q ?E")
proof -
  have start: "?P s \<Longrightarrow> ?E s" for s by (rule grown_same [OF grown_refl])
  have register: "triple any_request ?P
      (each (register_device api local_id (keys_of (devices (view s1 Local)) ''deviceID'')) all)
      (\<lambda>_. register_inv view s1 local_id all []) ?E" for all
    by (rule triple_weaken [OF triple_each [where I = "register_inv view s1 local_id all"]],
        rule register_device_triple [OF laws]) (auto simp: register_inv_def start)
  define xs where "xs = items (view s1 Nas) ''folders''"
  have fs: "folders (view s1 Nas) = objs xs" by (simp add: xs_def folders_def)
  have accept: "triple any_request (\<lambda>s. view s = view s2)
      (each (accept_folder api local_id (keys_of (folders (view s2 Local)) ''id'')) xs) ?Q ?E"
    if s2: "register_inv view s1 local_id all [] s2" and all: "fst ` set all = dids (view s1 Nas)" for s2 all
  proof (rule triple_weaken)
    show "triple any_request (accept_inv view s1 s2 local_id xs)
        (each (accept_folder api local_id (keys_of (folders (view s2 Local)) ''id'')) xs)
        (\<lambda>_. accept_inv view s1 s2 local_id []) ?E"
    proof (rule triple_each)
      fix x rest assume s: "x # rest \<in> set (suffixes xs)"
      have d: "distinct (keys_of (objs (x # rest)) ''id'')"
        using suffix_objs [OF s] law_distinct [OF laws] fs by metis
      show "triple any_request (accept_inv view s1 s2 local_id (x # rest))
          (accept_folder api local_id (keys_of (folders (view s2 Local)) ''id'') x)
          (\<lambda>_. accept_inv view s1 s2 local_id rest) ?E"
      proof (cases "\<exists>m. x = VMap m")
        case True
        then obtain m where x: "x = VMap m" ..
        show ?thesis unfolding x by (rule accept_folder_triple [OF laws d [unfolded x]])
      next
        case False
        then show ?thesis by (auto simp: accept_folder_def as_object_fails accept_inv_def intro!: triple_fail)
      qed
    qed
    show "accept_inv view s1 s2 local_id xs s" if "view s = view s2" for s
      using that s2 grown_same [of view s1 s2 s] grown_same [OF grown_refl, of view s s2]
      by (auto simp: accept_inv_def register_inv_def fs)
    show "?Q u s" if a: "accept_inv view s1 s2 local_id [] s" for u s
    proof -
      from s2 all have "\<forall>i \<in> dids (view s1 Nas). i = local_id \<or> i \<in> dids (view s2 Local)"
        by (fastforce simp: register_inv_def)
      moreover from a have "dids (view s2 Local) \<subseteq> dids (view s Local)"
        using grown_dids [of view s2 s Local] by (auto simp: accept_inv_def)
      moreover from a nas have "\<forall>f \<in> set (folders (view s1 Nas)). str f ''label'' \<in> excluded_labels \<or> str f ''id'' \<in> fids (view s Local)"
        by (auto simp: accept_inv_def objs_def nas_done_def shared_def)
      ultimately show ?thesis using a nas by (auto simp: converged_def accept_inv_def)
    qed
  qed
  have accept_all: "triple any_request (\<lambda>s. c2 = view s Local \<and> register_inv view s1 local_id all [] s)
      (and_then (objects (items c2 ''folders'')) (\<lambda>lfs. each (accept_folder api local_id (keys_of lfs ''id'')) xs)) ?Q ?E"
    if all: "fst ` set all = dids (view s1 Nas)" for c2 all
  proof (rule triple_fix)
    fix s2 assume s2: "c2 = view s2 Local \<and> register_inv view s1 local_id all [] s2"
    show "triple any_request (\<lambda>s. view s = view s2)
        (and_then (objects (items c2 ''folders'')) (\<lambda>lfs. each (accept_folder api local_id (keys_of lfs ''id'')) xs)) ?Q ?E"
    proof (rule objects_triple)
      show "view s = view s2 \<Longrightarrow> ?E s" for s using s2 grown_same by (auto simp: register_inv_def)
      fix lfs assume "items c2 ''folders'' = map VMap lfs"
      then have "lfs = folders (view s2 Local)" using s2 by (simp add: folders_def)
      then show "triple any_request (\<lambda>s. view s = view s2) (each (accept_folder api local_id (keys_of lfs ''id'')) xs) ?Q ?E"
        using accept [OF _ all] s2 by simp
    qed
  qed
  have inner: "triple any_request ?P
     (and_then (get api Local ''/rest/config'') (\<lambda>local_config.
      and_then (objects (items local_config ''devices'')) (\<lambda>lds.
      and_then (each (register_device api local_id (keys_of lds ''deviceID'')) (devices_by_id nds)) (\<lambda>_.
      and_then (get api Local ''/rest/config'') (\<lambda>local_config2.
      and_then (objects (items local_config2 ''folders'')) (\<lambda>lfs.
      each (accept_folder api local_id (keys_of lfs ''id'')) xs)))))) ?Q ?E"
    if nds: "nds = devices (view s1 Nas)" for nds
  proof (rule triple_then [OF triple_get_config [OF laws, where Q = "\<lambda>c s. c = view s1 Local \<and> ?P s"]],
      simp add: start, simp, rule triple_pure, rule objects_triple, rule start, assumption)
    fix lc lds assume lc: "lc = view s1 Local" and i: "items lc ''devices'' = map VMap lds"
    then have lds: "lds = devices (view s1 Local)" by (simp add: devices_def)
    have all: "fst ` set (devices_by_id nds) = dids (view s1 Nas)" by (simp add: set_devices_by_id nds dids_def)
    show "triple any_request ?P
       (and_then (each (register_device api local_id (keys_of lds ''deviceID'')) (devices_by_id nds)) (\<lambda>_.
        and_then (get api Local ''/rest/config'') (\<lambda>local_config2.
        and_then (objects (items local_config2 ''folders'')) (\<lambda>lfs.
        each (accept_folder api local_id (keys_of lfs ''id'')) xs)))) ?Q ?E"
      unfolding lds
    proof (rule triple_then [OF register], rule triple_then [OF triple_get_config [OF laws]])
      show "triple any_request (\<lambda>s. c2 = view s Local \<and> register_inv view s1 local_id (devices_by_id nds) [] s)
          (and_then (objects (items c2 ''folders'')) (\<lambda>lfs. each (accept_folder api local_id (keys_of lfs ''id'')) xs)) ?Q ?E" for c2
        by (rule accept_all [OF all])
    qed (auto simp: register_inv_def intro: grown_same)
  qed
  show ?thesis
    unfolding local_side_def
  proof (rule triple_then [OF triple_get_config [OF laws, where Q = "\<lambda>c s. c = view s1 Nas \<and> ?P s"]],
      simp add: start, simp, rule triple_pure, rule objects_triple, rule start, assumption)
    fix c nds assume c: "c = view s1 Nas" and i: "items c ''devices'' = map VMap nds"
    then have "nds = devices (view s1 Nas)" by (simp add: devices_def)
    from inner [OF this] show "triple any_request ?P
       (and_then (get api Local ''/rest/config'') (\<lambda>local_config.
        and_then (objects (items local_config ''devices'')) (\<lambda>lds.
        and_then (each (register_device api local_id (keys_of lds ''deviceID'')) (devices_by_id nds)) (\<lambda>_.
        and_then (get api Local ''/rest/config'') (\<lambda>local_config2.
        and_then (objects (items local_config2 ''folders'')) (\<lambda>lfs.
        each (accept_folder api local_id (keys_of lfs ''id'')) (items c ''folders''))))))) ?Q ?E"
      by (simp add: c xs_def)
  qed
qed

subsection \<open>The whole program\<close>

lemma provision_triple:
  assumes laws: "node_laws api view my_id"
  shows "triple any_request (\<lambda>s. view s = view s0) (provision api)
    (\<lambda>_ s. grown view s0 s \<and> converged (my_id Local) (view s)) (grown view s0)"
    (is "triple _ ?P _ ?Q ?E")
  unfolding provision_def Let_def
proof (rule triple_then [OF triple_get_status [OF laws, where Q = "\<lambda>m s. str m ''myID'' = my_id Local \<and> ?P s"]])
  fix m
  have local: "triple any_request
      (\<lambda>s. grown view s0 s \<and> view s Local = view s0 Local \<and> nas_done (my_id Local) (view s Nas))
      (local_side api (my_id Local)) ?Q ?E"
  proof (rule triple_fix)
    fix s2 assume s2: "grown view s0 s2 \<and> view s2 Local = view s0 Local \<and> nas_done (my_id Local) (view s2 Nas)"
    have "grown view s0 s" if "grown view s2 s" for s
      using that s2 extends_trans by (metis grown_def)
    with local_side_triple [OF laws, of "my_id Local" s2] s2
    show "triple any_request (\<lambda>s. view s = view s2) (local_side api (my_id Local)) ?Q ?E"
      by (auto intro: triple_weaken)
  qed
  show "triple any_request (\<lambda>s. str m ''myID'' = my_id Local \<and> ?P s)
      (and_then (nas_side api (str m ''myID'')) (\<lambda>_. local_side api (str m ''myID''))) ?Q ?E"
  proof (rule triple_pure)
    assume i: "str m ''myID'' = my_id Local"
    show "triple any_request ?P (and_then (nas_side api (str m ''myID'')) (\<lambda>_. local_side api (str m ''myID''))) ?Q ?E"
      unfolding i by (rule triple_then [OF nas_side_triple [OF laws] local])
  qed
qed (auto intro: grown_same [OF grown_refl])

lemma run_triple:
  assumes "triple L P (provision api) Q E" "\<And>s. P s \<Longrightarrow> E s"
  shows "triple L P (run api env file) Q E"
proof -
  have "triple L P (fail_with e) Q E" for e by (rule triple_fail) (rule assms(2))
  with assms(1) show ?thesis by (simp add: run_def Let_def split: option.split)
qed

text \<open>Against a converged pair every guard is false: the program only reads.\<close>

abbreviation reads :: "request \<Rightarrow> bool" where "reads \<equiv> \<lambda>rq. rq_method rq = GET"

lemma each_quiet:
  "(\<And>x. x \<in> set xs \<Longrightarrow> triple L P (f x) (\<lambda>_. P) E) \<Longrightarrow> triple L P (each f xs) (\<lambda>_. P) E"
proof (induction xs)
  case Nil
  show ?case by (simp add: triple_ret)
next
  case (Cons x xs)
  then show ?case by (auto intro: triple_then)
qed

lemma objs_member: "VMap m \<in> set xs \<longleftrightarrow> m \<in> set (objs xs)"
  by (induction xs) (auto simp: objs_def split: any.splits)

lemma quiet_object:
  assumes "\<And>m. x = VMap m \<Longrightarrow> triple L P (f m) Q E" "\<And>s. P s \<Longrightarrow> E s"
  shows "triple L P (and_then (as_object x) f) Q E"
proof (cases "\<exists>m. x = VMap m")
  case True
  then show ?thesis using assms(1) by (auto simp: as_object_def)
next
  case False
  then show ?thesis by (auto simp: as_object_fails intro!: triple_fail assms(2))
qed

lemma provision_quiet:
  assumes laws: "node_laws api view my_id" and conv: "converged (my_id Local) (view s0)"
  shows "triple reads (\<lambda>s. view s = view s0) (provision api) (\<lambda>_ s. view s = view s0) (\<lambda>s. view s = view s0)"
    (is "triple _ ?P _ _ _")
proof -
  let ?i = "my_id Local"
  from conv have nas: "nas_done ?i (view s0 Nas)" by (simp add: converged_def)
  have ret: "triple reads ?P (ret ()) (\<lambda>_. ?P) ?P" by (rule triple_ret)
  have get: "triple reads ?P (get api n ''/rest/config'') (\<lambda>c s. c = view s0 n \<and> ?P s) ?P" for n
    by (rule triple_get_config [OF laws]) auto
  have self: "register_self api ?i (keys_of (devices (view s0 Nas)) ''deviceID'') = ret ()"
    using nas by (simp add: register_self_def nas_done_def dids_def)
  have archive: "create_archive api n ?i (keys_of (folders (view s0 Nas)) ''id'') name = ret ()"
    if "name \<in> set new_archive_folders" for n name
    using that nas by (simp add: create_archive_def nas_done_def archived_def fids_def Let_def)
  have share: "triple reads ?P (add_to_folder api ?i x) (\<lambda>_. ?P) ?P" if "x \<in> set (items (view s0 Nas) ''folders'')" for x
    unfolding add_to_folder_def
  proof (rule quiet_object)
    fix m assume "x = VMap m"
    with that have "m \<in> set (folders (view s0 Nas))" by (simp add: folders_def flip: objs_member)
    with nas have "shared ?i m" by (simp add: nas_done_def)
    then show "triple reads ?P (if str m ''label'' \<in> excluded_labels \<or> has_device m ?i then ret ()
        else put api Nas (folder_path (str m ''id''))
          (mput ''devices'' (VList (items m ''devices'' @ [VMap [(''deviceID'', VStr ?i)]])) m)) (\<lambda>_. ?P) ?P"
      using ret by (auto simp: shared_def)
  qed simp
  have register: "triple reads ?P (register_device api ?i (keys_of (devices (view s0 Local)) ''deviceID'') p) (\<lambda>_. ?P) ?P"
    if "p \<in> set (devices_by_id (devices (view s0 Nas)))" for p
  proof -
    have "fst p \<in> dids (view s0 Nas)" using that set_devices_by_id [of "devices (view s0 Nas)"] by (auto simp: dids_def)
    with conv have "fst p = ?i \<or> fst p \<in> dids (view s0 Local)" by (auto simp: converged_def)
    with ret show ?thesis by (auto simp: register_device_def dids_def case_prod_unfold)
  qed
  have accept: "triple reads ?P (accept_folder api ?i (keys_of (folders (view s0 Local)) ''id'') x) (\<lambda>_. ?P) ?P"
    if "x \<in> set (items (view s0 Nas) ''folders'')" for x
    unfolding accept_folder_def
  proof (rule quiet_object)
    fix m assume "x = VMap m"
    with that have "m \<in> set (folders (view s0 Nas))" by (simp add: folders_def flip: objs_member)
    with conv have "str m ''label'' \<in> excluded_labels \<or> str m ''id'' \<in> fids (view s0 Local)" by (auto simp: converged_def)
    then show "triple reads ?P (let fid = str m ''id'' in
        if str m ''label'' \<in> excluded_labels \<or> \<not> has_device m ?i \<or> fid \<in> set (keys_of (folders (view s0 Local)) ''id'') then ret ()
        else let leaf = last (split_char CHR ''/'' (str m ''path''))
             in put api Local (folder_path fid) (folder_body fid (label_or m fid) (local_data_root @ ''/'' @ leaf) (device_ids_of m)))
        (\<lambda>_. ?P) ?P"
      using ret by (auto simp: fids_def Let_def)
  qed simp
  have nas_quiet: "triple reads ?P (nas_side api ?i) (\<lambda>_. ?P) ?P"
    unfolding nas_side_def
  proof (rule triple_then [OF get], rule triple_pure, rule triple_then [OF triple_get_status [OF laws, where Q = "\<lambda>_. ?P"]],
      simp, simp, simp, rule objects_triple, assumption, rule objects_triple, assumption)
    fix c st ds fs assume c: "c = view s0 Nas" and i: "items c ''devices'' = map VMap ds" "items c ''folders'' = map VMap fs"
    have ds: "ds = devices (view s0 Nas)" and fs: "fs = folders (view s0 Nas)" using c i by (simp_all add: devices_def folders_def)
    have archives: "triple reads ?P (each (create_archive api (str st ''myID'') ?i (keys_of fs ''id'')) new_archive_folders) (\<lambda>_. ?P) ?P"
      by (rule each_quiet) (simp add: fs archive ret)
    show "triple reads ?P (and_then (register_self api ?i (keys_of ds ''deviceID'')) (\<lambda>_.
        and_then (each (create_archive api (str st ''myID'') ?i (keys_of fs ''id'')) new_archive_folders) (\<lambda>_.
        each (add_to_folder api ?i) (items c ''folders'')))) (\<lambda>_. ?P) ?P"
      unfolding ds self and_then_ret
      by (rule triple_then [OF archives]) (rule each_quiet, rule share, simp add: c)
  qed
  have local_quiet: "triple reads ?P (local_side api ?i) (\<lambda>_. ?P) ?P"
    unfolding local_side_def
  proof (rule triple_then [OF get], rule triple_pure, rule objects_triple, assumption, rule triple_then [OF get],
      rule triple_pure, rule objects_triple, assumption)
    fix c nds lc lds assume c: "c = view s0 Nas" "lc = view s0 Local"
      and i: "items c ''devices'' = map VMap nds" "items lc ''devices'' = map VMap lds"
    have nds: "nds = devices (view s0 Nas)" and lds: "lds = devices (view s0 Local)" using c i by (simp_all add: devices_def)
    have rest: "triple reads ?P (and_then (get api Local ''/rest/config'') (\<lambda>c2.
        and_then (objects (items c2 ''folders'')) (\<lambda>lfs. each (accept_folder api ?i (keys_of lfs ''id'')) (items c ''folders'')))) (\<lambda>_. ?P) ?P"
    proof (rule triple_then [OF get], rule triple_pure, rule objects_triple, assumption)
      fix c2 lfs assume "c2 = view s0 Local" "items c2 ''folders'' = map VMap lfs"
      then have "lfs = folders (view s0 Local)" by (simp add: folders_def)
      then show "triple reads ?P (each (accept_folder api ?i (keys_of lfs ''id'')) (items c ''folders'')) (\<lambda>_. ?P) ?P"
        by (simp add: c) (rule each_quiet, rule accept)
    qed
    show "triple reads ?P (and_then (each (register_device api ?i (keys_of lds ''deviceID'')) (devices_by_id nds)) (\<lambda>_.
        and_then (get api Local ''/rest/config'') (\<lambda>c2.
        and_then (objects (items c2 ''folders'')) (\<lambda>lfs. each (accept_folder api ?i (keys_of lfs ''id'')) (items c ''folders''))))) (\<lambda>_. ?P) ?P"
      by (rule triple_then [OF each_quiet rest]) (simp add: nds lds register)
  qed
  show ?thesis
    unfolding provision_def Let_def
  proof (rule triple_then [OF triple_get_status [OF laws, where Q = "\<lambda>m s. str m ''myID'' = ?i \<and> ?P s"]], simp, simp, simp,
      rule triple_pure)
    fix m assume i: "str m ''myID'' = ?i"
    show "triple reads ?P (and_then (nas_side api (str m ''myID'')) (\<lambda>_. local_side api (str m ''myID''))) (\<lambda>_. ?P) ?P"
      unfolding i by (rule triple_then [OF nas_quiet local_quiet])
  qed
qed

section \<open>A pair of nodes that behaves so\<close>

definition distinct_ids :: "object \<Rightarrow> bool" where
  "distinct_ids c \<longleftrightarrow> distinct (keys_of (devices c) ''deviceID'') \<and> distinct (keys_of (folders c) ''id'')"

type_synonym pair = "object \<times> object" \<comment> \<open>the NAS and the new node\<close>

fun side :: "pair \<Rightarrow> node \<Rightarrow> object" where
  "side (a, b) Nas = a"
| "side (a, b) Local = b"

fun set_side :: "node \<Rightarrow> object \<Rightarrow> pair \<Rightarrow> pair" where
  "set_side Nas c (a, b) = (c, b)"
| "set_side Local c (a, b) = (a, c)"

lemma side_set_side [simp]: "side (set_side n c s) k = (if k = n then c else side s k)"
  by (cases s; cases n; cases k) simp_all

definition sound_view :: "pair \<Rightarrow> node \<Rightarrow> object" where
  "sound_view s n = (if distinct_ids (side s n) then side s n else [])"

definition stored :: "string \<Rightarrow> string \<Rightarrow> object \<Rightarrow> object \<Rightarrow> object" where
  "stored field key body c = mput field (VList (map VMap (upsert key body (objs (items c field))))) c"

definition node_id :: "node \<Rightarrow> string" where
  "node_id n = (case n of Nas \<Rightarrow> ''NASNAS'' | Local \<Rightarrow> ''UGREEN'')"

definition honest_nodes :: "pair api" where
  "honest_nodes rq s =
     (let v = sound_view s; n = rq_node rq
      in case rq_method rq of
           GET \<Rightarrow> (Inr (if rq_path rq = ''/rest/config'' then v n else [(''myID'', VStr (node_id n))]), s)
         | PUT \<Rightarrow>
             (case rq_body rq of
                VMap body \<Rightarrow>
                  if rq_path rq = device_path (str body ''deviceID'')
                  then (Inr [], set_side n (stored ''devices'' ''deviceID'' body (v n)) s)
                  else if rq_path rq = folder_path (str body ''id'')
                  then (Inr [], set_side n (stored ''folders'' ''id'' body (v n)) s)
                  else (Inl ''404'', s)
              | _ \<Rightarrow> (Inl ''400'', s)))"

lemma items_stored: "items (stored field key body c) f =
   (if f = field then map VMap (upsert key body (objs (items c field))) else items c f)"
  by (auto simp: stored_def items_def as_list_def)

lemma distinct_upsert: "distinct (keys_of ms key) \<Longrightarrow> distinct (keys_of (upsert key b ms) key)"
proof -
  assume d: "distinct (keys_of ms key)"
  have "keys_of (map (\<lambda>m. if str m key = str b key then b else m) ms) key = keys_of ms key"
    by (auto simp: keys_of_def)
  with d show ?thesis by (auto simp: upsert_def) (simp add: keys_of_def)
qed

lemma stored_device:
  "devices (stored ''devices'' ''deviceID'' b c) = upsert ''deviceID'' b (devices c)"
  "folders (stored ''devices'' ''deviceID'' b c) = folders c"
  "devices (stored ''folders'' ''id'' b c) = devices c"
  "folders (stored ''folders'' ''id'' b c) = upsert ''id'' b (folders c)"
  by (simp_all add: devices_def folders_def items_stored)

lemma distinct_ids_view: "distinct_ids (sound_view s n)"
  by (simp add: sound_view_def distinct_ids_def devices_def folders_def items_def as_list_def objs_def keys_of_def)

lemma view_stored:
  "sound_view (set_side n (stored ''devices'' ''deviceID'' b (sound_view s n)) s) =
     (sound_view s)(n := stored ''devices'' ''deviceID'' b (sound_view s n))"
  "sound_view (set_side n (stored ''folders'' ''id'' b (sound_view s n)) s) =
     (sound_view s)(n := stored ''folders'' ''id'' b (sound_view s n))"
proof -
  have "distinct_ids (stored ''devices'' ''deviceID'' b (sound_view s n))"
    "distinct_ids (stored ''folders'' ''id'' b (sound_view s n))"
    using distinct_ids_view [of s n] by (simp_all add: distinct_ids_def stored_device distinct_upsert)
  then show "sound_view (set_side n (stored ''devices'' ''deviceID'' b (sound_view s n)) s) =
     (sound_view s)(n := stored ''devices'' ''deviceID'' b (sound_view s n))"
  "sound_view (set_side n (stored ''folders'' ''id'' b (sound_view s n)) s) =
     (sound_view s)(n := stored ''folders'' ''id'' b (sound_view s n))"
    by (auto simp: fun_eq_iff) (simp_all add: sound_view_def)
qed

lemma paths_differ: "device_path i \<noteq> folder_path j"
  by (simp add: device_path_def folder_path_def)

lemma stored_as_refl: "stored_as b b"
  by (simp add: stored_as_def)

lemma node_pair_laws: "node_laws honest_nodes sound_view node_id"
proof -
  have d: "distinct (keys_of (devices (sound_view s n)) ''deviceID'') \<and> distinct (keys_of (folders (sound_view s n)) ''id'')" for s n
    using distinct_ids_view [of s n] by (simp add: distinct_ids_def)
  have status: "str [(''myID'', VStr (node_id n))] ''myID'' = node_id n" for n by (simp add: str_def as_str_def)
  have paths: "device_path i = folder_path j \<longleftrightarrow> False" "folder_path j = device_path i \<longleftrightarrow> False"
    "device_path i = device_path k \<longleftrightarrow> i = k" "folder_path i = folder_path k \<longleftrightarrow> i = k" for i j k
    using paths_differ [of i j] by (auto simp: device_path_def folder_path_def)
  show ?thesis
    unfolding node_laws_def
  proof (intro conjI allI impI)
    fix rq s r s' assume c: "honest_nodes rq s = (r, s')"
    show "case r of Inl _ \<Rightarrow> sound_view s' = sound_view s
      | Inr m \<Rightarrow>
         (rq_method rq = GET \<longrightarrow> sound_view s' = sound_view s \<and>
            (rq_path rq = ''/rest/config'' \<longrightarrow> m = sound_view s (rq_node rq)) \<and>
            (rq_path rq = ''/rest/system/status'' \<longrightarrow> str m ''myID'' = node_id (rq_node rq))) \<and>
         (\<forall>body. rq_method rq = PUT \<and> rq_body rq = VMap body \<and> rq_path rq = device_path (str body ''deviceID'') \<longrightarrow>
            (\<exists>b. stored_as body b \<and>
               devices (sound_view s' (rq_node rq)) = upsert ''deviceID'' b (devices (sound_view s (rq_node rq))) \<and>
               folders (sound_view s' (rq_node rq)) = folders (sound_view s (rq_node rq)) \<and>
               (\<forall>n. n \<noteq> rq_node rq \<longrightarrow> sound_view s' n = sound_view s n))) \<and>
         (\<forall>body. rq_method rq = PUT \<and> rq_body rq = VMap body \<and> rq_path rq = folder_path (str body ''id'') \<longrightarrow>
            (\<exists>b. stored_as body b \<and>
               folders (sound_view s' (rq_node rq)) = upsert ''id'' b (folders (sound_view s (rq_node rq))) \<and>
               devices (sound_view s' (rq_node rq)) = devices (sound_view s (rq_node rq)) \<and>
               (\<forall>n. n \<noteq> rq_node rq \<longrightarrow> sound_view s' n = sound_view s n)))"
    proof (cases "rq_method rq")
      case GET
      with c show ?thesis by (auto simp: honest_nodes_def Let_def status)
    next
      case PUT
      with c show ?thesis
        by (cases "rq_body rq")
          (auto simp: honest_nodes_def Let_def paths view_stored stored_device split: if_splits
            intro!: exI [of _ "_ :: object"] stored_as_refl)
    qed
  qed (use d in auto)
qed

text \<open>They answer every request of the program, so a run against them ends without an error.\<close>

definition tidy_object :: "object \<Rightarrow> bool" where
  "tidy_object c \<longleftrightarrow> items c ''devices'' = map VMap (devices c) \<and> items c ''folders'' = map VMap (folders c)"

definition tidy :: "pair \<Rightarrow> bool" where
  "tidy s \<longleftrightarrow> (\<forall>n. tidy_object (side s n))"

lemma tidy_Nil: "tidy_object []"
  by (simp add: tidy_object_def items_def as_list_def devices_def folders_def objs_def)

lemma tidy_status: "tidy_object [(''myID'', v)]"
  by (simp add: tidy_object_def items_def as_list_def devices_def folders_def objs_def)

lemma tidy_view: "tidy s \<Longrightarrow> tidy_object (sound_view s n)"
  by (simp add: tidy_def sound_view_def tidy_Nil)

lemma tidy_object_stored:
  "tidy_object c \<Longrightarrow> tidy_object (stored ''devices'' ''deviceID'' b c)"
  "tidy_object c \<Longrightarrow> tidy_object (stored ''folders'' ''id'' b c)"
  by (simp_all add: tidy_object_def stored_device) (simp_all add: items_stored devices_def folders_def)

lemma tidy_stored:
  "tidy s \<Longrightarrow> tidy (set_side n (stored ''devices'' ''deviceID'' b (sound_view s n)) s)"
  "tidy s \<Longrightarrow> tidy (set_side n (stored ''folders'' ''id'' b (sound_view s n)) s)"
  using tidy_object_stored [OF tidy_view [of s n]] by (auto simp: tidy_def)

abbreviation never :: "pair \<Rightarrow> bool" where "never \<equiv> \<lambda>_. False"

lemma tidy_get: "triple any_request tidy (get honest_nodes n path) (\<lambda>c s. tidy_object c \<and> tidy s) never"
proof (rule triple_get)
  fix s r s' assume "tidy s" "honest_nodes \<lparr>rq_node = n, rq_method = GET, rq_path = path, rq_body = VNil\<rparr> s = (r, s')"
  then show "case r of Inl _ \<Rightarrow> False | Inr c \<Rightarrow> tidy_object c \<and> tidy s'"
    using tidy_view [of s n]
    by (auto simp: honest_nodes_def Let_def tidy_status split: if_splits)
qed simp

lemma tidy_put:
  "path \<in> {device_path (str body ''deviceID''), folder_path (str body ''id'')} \<Longrightarrow>
   triple any_request tidy (put honest_nodes n path body) (\<lambda>_. tidy) never"
  by (rule triple_put) (auto simp: honest_nodes_def Let_def tidy_stored split: if_splits)

lemma objects_map: "objects (map VMap ms) = ret ms"
  by (induction ms) (simp_all add: as_object_def)

lemma tidy_objects: "tidy_object c \<Longrightarrow> objects (items c ''devices'') = ret (devices c)"
  "tidy_object c \<Longrightarrow> objects (items c ''folders'') = ret (folders c)"
  by (simp_all add: tidy_object_def objects_map)

lemma tidy_ret: "triple any_request tidy (ret ()) (\<lambda>_. tidy) never"
  by (rule triple_ret)

lemma tidy_if:
  "triple L P m Q E \<Longrightarrow> triple L P m' Q E \<Longrightarrow> triple L P (if b then m else m') Q E"
  by simp

lemma tidy_put_device: "triple any_request tidy (put honest_nodes n (device_path i) (device_body i name)) (\<lambda>_. tidy) never"
  by (rule tidy_put) simp

lemma tidy_put_folder: "triple any_request tidy (put honest_nodes n (folder_path i) (folder_body i label path ids)) (\<lambda>_. tidy) never"
  by (rule tidy_put) simp

lemma tidy_register: "triple any_request tidy (register_self honest_nodes i ids) (\<lambda>_. tidy) never"
  "triple any_request tidy (register_device honest_nodes i ids p) (\<lambda>_. tidy) never"
  using tidy_ret tidy_put_device by (simp_all add: register_self_def register_device_def case_prod_unfold Let_def)

lemma tidy_archive: "triple any_request tidy (create_archive honest_nodes ni i ids name) (\<lambda>_. tidy) never"
  unfolding create_archive_def Let_def by (rule tidy_if [OF tidy_ret tidy_put_folder])

lemma tidy_share: "triple any_request tidy (add_to_folder honest_nodes i (VMap f)) (\<lambda>_. tidy) never"
proof -
  have "triple any_request tidy (put honest_nodes Nas (folder_path (str f ''id'')) (with_device f i)) (\<lambda>_. tidy) never"
    by (rule tidy_put) simp
  then show ?thesis
    unfolding add_to_folder_def as_object_def any.case and_then_ret with_device_def
    by (rule tidy_if [OF tidy_ret])
qed

lemma tidy_accept: "triple any_request tidy (accept_folder honest_nodes i ids (VMap f)) (\<lambda>_. tidy) never"
  unfolding accept_folder_def as_object_def any.case and_then_ret Let_def
  by (rule tidy_if [OF tidy_ret tidy_put_folder])

lemma tidy_nas_side: "triple any_request tidy (nas_side honest_nodes i) (\<lambda>_. tidy) never"
  unfolding nas_side_def
proof (rule triple_then [OF tidy_get], rule triple_pure, rule triple_then [OF tidy_get], rule triple_pure)
  fix c st assume c: "tidy_object c"
  have f: "\<exists>f. x = VMap f" if "x \<in> set (items c ''folders'')" for x
    using that c by (auto simp: tidy_object_def)
  show "triple any_request tidy (and_then (objects (items c ''devices'')) (\<lambda>ds.
     and_then (objects (items c ''folders'')) (\<lambda>fs.
     and_then (register_self honest_nodes i (keys_of ds ''deviceID'')) (\<lambda>_.
     and_then (each (create_archive honest_nodes (str st ''myID'') i (keys_of fs ''id'')) new_archive_folders) (\<lambda>_.
     each (add_to_folder honest_nodes i) (items c ''folders''))))))  (\<lambda>_. tidy) never"
    unfolding tidy_objects [OF c] and_then_ret
    by (rule triple_then [OF tidy_register(1)], rule triple_then [OF each_quiet], rule tidy_archive, rule each_quiet)
      (use f tidy_share in blast)
qed

lemma tidy_local_side: "triple any_request tidy (local_side honest_nodes i) (\<lambda>_. tidy) never"
  unfolding local_side_def
proof (rule triple_then [OF tidy_get], rule triple_pure)
  fix c assume c: "tidy_object c"
  have f: "\<exists>f. x = VMap f" if "x \<in> set (items c ''folders'')" for x
    using that c by (auto simp: tidy_object_def)
  have accept: "triple any_request tidy (and_then (get honest_nodes Local ''/rest/config'') (\<lambda>c2.
      and_then (objects (items c2 ''folders'')) (\<lambda>lfs. each (accept_folder honest_nodes i (keys_of lfs ''id'')) (items c ''folders''))))
      (\<lambda>_. tidy) never"
  proof (rule triple_then [OF tidy_get], rule triple_pure)
    fix c2 assume c2: "tidy_object c2"
    show "triple any_request tidy (and_then (objects (items c2 ''folders''))
        (\<lambda>lfs. each (accept_folder honest_nodes i (keys_of lfs ''id'')) (items c ''folders''))) (\<lambda>_. tidy) never"
      unfolding tidy_objects(2) [OF c2] and_then_ret by (rule each_quiet) (use f tidy_accept in blast)
  qed
  show "triple any_request tidy (and_then (objects (items c ''devices'')) (\<lambda>nds.
     and_then (get honest_nodes Local ''/rest/config'') (\<lambda>lc.
     and_then (objects (items lc ''devices'')) (\<lambda>lds.
     and_then (each (register_device honest_nodes i (keys_of lds ''deviceID'')) (devices_by_id nds)) (\<lambda>_.
     and_then (get honest_nodes Local ''/rest/config'') (\<lambda>c2.
     and_then (objects (items c2 ''folders'')) (\<lambda>lfs.
     each (accept_folder honest_nodes i (keys_of lfs ''id'')) (items c ''folders''))))))))  (\<lambda>_. tidy) never"
    unfolding tidy_objects(1) [OF c] and_then_ret
  proof (rule triple_then [OF tidy_get], rule triple_pure)
    fix lc assume lc: "tidy_object lc"
    show "triple any_request tidy (and_then (objects (items lc ''devices'')) (\<lambda>lds.
       and_then (each (register_device honest_nodes i (keys_of lds ''deviceID'')) (devices_by_id (devices c))) (\<lambda>_.
       and_then (get honest_nodes Local ''/rest/config'') (\<lambda>c2.
       and_then (objects (items c2 ''folders'')) (\<lambda>lfs.
       each (accept_folder honest_nodes i (keys_of lfs ''id'')) (items c ''folders'')))))) (\<lambda>_. tidy) never"
      unfolding tidy_objects(1) [OF lc] and_then_ret
      by (rule triple_then [OF each_quiet accept]) (rule tidy_register(2))
  qed
qed

lemma tidy_provision: "triple any_request tidy (provision honest_nodes) (\<lambda>_. tidy) never"
  unfolding provision_def Let_def
  by (rule triple_then [OF tidy_get], rule triple_pure, rule triple_then [OF tidy_nas_side tidy_local_side])

definition sample_nodes :: pair where
  "sample_nodes =
     ([(''devices'', VList [VMap (device_body ''PHONE1'' ''phone'')]),
       (''folders'', VList [VMap (folder_body ''docs'' ''Docs'' ''/data1/Docs'' [''NASNAS'', ''PHONE1'']),
                            VMap (folder_body ''games'' ''Games'' ''/data1/Games'' [''NASNAS''])])],
      [])"

definition sample_env :: "string \<Rightarrow> string option" where
  "sample_env name = Some ''x''"

definition sample_file :: "string \<Rightarrow> string option" where
  "sample_file path = Some ''<gui><apikey>k</apikey></gui>''"

definition sample_result :: "(string + unit) \<times> pair \<times> request list" where
  "sample_result = run honest_nodes sample_env sample_file sample_nodes"

lemma sample_pair_run: "fst sample_result = Inr ()"
proof -
  have "tidy sample_nodes"
    unfolding tidy_def
  proof
    fix n
    show "tidy_object (side sample_nodes n)"
      by (cases n) (simp_all add: sample_nodes_def tidy_Nil, simp add: tidy_object_def items_def as_list_def devices_def folders_def objs_def)
  qed
  moreover have "local_api_key ''<gui><apikey>k</apikey></gui>'' \<noteq> None" by code_simp
  then have "run honest_nodes sample_env sample_file = provision honest_nodes"
    by (auto simp: run_def sample_env_def sample_file_def)
  ultimately show ?thesis
    using tidy_provision [unfolded triple_def, rule_format, of sample_nodes]
    by (auto simp: sample_result_def split: sum.splits prod.splits)
qed

section \<open>Properties\<close>

text \<open>
  Provisioning never takes anything away: against nodes that behave as documented, however
  the run ends (also after an error in the middle), each node still knows every device it knew, and
  still has every folder it had, with its id, label and path and at least its devices.
\<close>

theorem provision_never_removes:
  assumes "node_laws api view my_id"
  shows "case run api env rf s of (r, s', requests) \<Rightarrow>
    dids (view s n) \<subseteq> dids (view s' n) \<and>
    list_all (\<lambda>f. \<exists>f'. f' \<in> set (folders (view s' n)) \<and> str f' ''id'' = str f ''id'' \<and>
       str f' ''label'' = str f ''label'' \<and> str f' ''path'' = str f ''path'' \<and>
       set (device_ids_of f) \<subseteq> set (device_ids_of f')) (folders (view s n))"
proof -
  have "triple any_request (\<lambda>x. view x = view s) (run api env rf) (\<lambda>_. grown view s) (grown view s)"
    by (rule triple_weaken [OF run_triple [OF provision_triple [OF assms, of s]]])
      (auto intro: grown_same [OF grown_refl])
  then have "case run api env rf s of (r, s', requests) \<Rightarrow> grown view s s'"
    by (auto simp: triple_def split: sum.splits)
  moreover have "extends c c' \<Longrightarrow> dids c \<subseteq> dids c' \<and> list_all (\<lambda>f. \<exists>f'. f' \<in> set (folders c') \<and> str f' ''id'' = str f ''id'' \<and>
       str f' ''label'' = str f ''label'' \<and> str f' ''path'' = str f ''path'' \<and>
       set (device_ids_of f) \<subseteq> set (device_ids_of f')) (folders c)" for c c'
    unfolding extends_def keeps_def list_all_iff by blast
  ultimately show ?thesis by (auto simp: grown_def split: prod.splits)
qed

theorem provision_never_removes_witness:
  "case sample_result of (r, s', requests) \<Rightarrow> ''PHONE1'' \<in> dids (sound_view s' Nas)"
proof -
  have "''PHONE1'' \<in> dids (sound_view sample_nodes Nas)" by code_simp
  then show ?thesis
    using provision_never_removes [OF node_pair_laws, where env = sample_env and rf = sample_file and s = sample_nodes and n = Nas]
    by (auto simp: sample_result_def)
qed




text \<open>
  Claim C18. Provisioning is idempotent: after a run without an error, another run only reads. It makes no
  \<open>PUT\<close> and leaves every configuration as it is, however its reads end.
\<close>

theorem provision_idempotent:
  assumes "node_laws api view my_id" "run api env rf s = (Inr (), s', requests)"
  shows "case run api env' rf' s' of (r2, s2, requests2) \<Rightarrow>
    list_all (\<lambda>rq. rq_method rq = GET) requests2 \<and> view s2 = view s'"
proof -
  have "triple any_request (\<lambda>x. view x = view s) (run api env rf) (\<lambda>_ x. converged (my_id Local) (view x)) (\<lambda>_. True)"
    by (rule triple_weaken [OF run_triple [OF provision_triple [OF assms(1), of s]]])
      (auto intro: grown_same [OF grown_refl])
  with assms(2) have "converged (my_id Local) (view s')" by (auto simp: triple_def)
  from run_triple [OF provision_quiet [OF assms(1) this], of env' rf'] show ?thesis
    by (auto simp: triple_def split: sum.splits)
qed

theorem provision_idempotent_witness:
  "case run honest_nodes sample_env sample_file (fst (snd sample_result)) of (r2, s2, requests2) \<Rightarrow>
     list_all (\<lambda>rq. rq_method rq = GET) requests2"
proof -
  obtain s' requests where r: "run honest_nodes sample_env sample_file sample_nodes = (Inr (), s', requests)"
    using sample_pair_run by (metis prod.collapse sample_result_def)
  from provision_idempotent [OF node_pair_laws r, where env' = sample_env and rf' = sample_file] show ?thesis
    by (auto simp: sample_result_def r)
qed

end
