(* ===== verification/Spec2Isabelle.thy ===== *)
theory Spec2Isabelle
  imports HR_Run_Props HR_Main HR_Page CO_SSHFacts CO_Kuma CO_Access CO_Dojo CO_Github BD_Page DS_Main Kuma_Provision Service_Catalog Schedule_Merge Syncthing_Provision
begin

text \<open>
  A verification library for the Go tools of the homelab automation repository
  (\<^verbatim>\<open>src/tools\<close>).  The tools are small programs around one state each: a daily health report
  that classifies what its collectors observe and compares it with the last run, a dashboard of the
  backups and a page of the deployments, provisioning programs that bring a server (Uptime Kuma,
  Syncthing) to what a catalog says, a validator of the service catalog, and a merge of the script
  schedules on the Unraid hosts.

  \<^bold>\<open>How the code is read.\<close>  A function of the source is a HOL function, a struct a record, an enum
  a datatype or the strings the source compares.  A \<^verbatim>\<open>map\<close> is an association list with distinct keys
  (\<open>gmap\<close> of \<open>Go_Base\<close>); a \<open>range\<close> over it runs in the order of the list, and the properties hold for
  every such list.  A pointer into a slice is a position of the list.  \<^verbatim>\<open>float64\<close> is binary64 with Go's
  rounding (\<open>Go_Float\<close>), \<^verbatim>\<open>any\<close> a datatype of the dynamic types that occur (\<open>Go_Any\<close>), a time an
  instant with its location's offsets (\<open>Go_Time\<close>), a string its bytes.  A panic, an error and an
  early return are values.  Files, the network, subprocesses, JSON and YAML decoding and the clock
  are parameters: a record of functions or an oracle for the outcome of each operation, so every
  error path is a branch, and where a property needs a server to behave, its documented behaviour is
  a named hypothesis with a model server that satisfies it.

  \<^bold>\<open>Prelude.\<close>
    \<^item> \<open>Go_Base\<close>: strings, decimal numbers, maps (\<open>keyed_store\<close> is the interface of a map, interpreted
      on \<open>gmap\<close>; \<open>pointwise_loop\<close> that of a loop whose rounds touch one key each).
    \<^item> \<open>Go_Float\<close>, \<open>Go_Any\<close>, \<open>Go_Time\<close>, \<open>Go_Duration\<close>: numbers, dynamic values, times, durations.
    \<^item> \<open>Go_Sort\<close>: \<^verbatim>\<open>sort.SliceStable\<close> (\<open>weak_order\<close> is the interface of its comparison, interpreted on the
      descending order of floats); \<open>Go_Regex\<close>: regular expressions with leftmost-first matches.

  \<^bold>\<open>Health report\<close> (\<^verbatim>\<open>internal/healthreport\<close>, \<^verbatim>\<open>cmd/healthreport\<close>).
    \<^item> \<open>HR_Model\<close> (\<^verbatim>\<open>model.go\<close>): severities, observations, results.  \<open>best_scan\<close> is the interface of a
      left-to-right maximum, interpreted on \<^verbatim>\<open>Worst\<close> and, in \<open>HR_Report\<close>, on \<^verbatim>\<open>worstNew\<close>.
    \<^item> \<open>HR_Severity\<close> (\<^verbatim>\<open>severity.go\<close>): the rules; classification writes only its own fields, is
      monotone, and the age gates hold.
    \<^item> \<open>HR_Diff\<close> (\<^verbatim>\<open>diff.go\<close>): \<open>compute\<close> partitions the actionable ids into new, reopened, persisting
      and resolved and keeps the seen-state, \<open>prune_seen\<close> forgets stale records.
    \<^item> \<open>HR_Run\<close>, \<open>HR_Run_Props\<close> (\<^verbatim>\<open>run.go\<close>, \<^verbatim>\<open>Save\<close> and \<^verbatim>\<open>Load\<close> of \<^verbatim>\<open>diff.go\<close>): collecting, assembling,
      saving; \<open>reaches\<close> is the step relation of the state directory under runs in which any file
      operation may fail, and its invariants give that no id is new twice.
    \<^item> \<open>HR_Narrative\<close> (\<^verbatim>\<open>llm.go\<close>): what is sent to the language model and what of its answer is kept; the
      order of load, chats and unload.
    \<^item> \<open>HR_Config\<close> (\<^verbatim>\<open>config.go\<close>): the configuration from the environment; what a list and the host list
      read back.
    \<^item> \<open>HR_Report\<close> (\<^verbatim>\<open>history.go\<close>, \<^verbatim>\<open>render.go\<close>): the Markdown report; nothing actionable is left out,
      the table of subjects is exact.
    \<^item> \<open>HR_State\<close> (\<^verbatim>\<open>data_types.go\<close>, \<^verbatim>\<open>system_state.go\<close>): the data of the collectors, and the tables and notes
      on hosts and backup targets read from it.
    \<^item> \<open>HR_Page\<close> (\<^verbatim>\<open>render_html.go\<close>): the values of the HTML report; nothing actionable is left out, the
      bars of the trend fit.
    \<^item> \<open>HR_Deliver\<close> (\<^verbatim>\<open>deliver.go\<close>): push, mail over two relays as a sequence of SMTP steps, the
      fallback push; what the result says is what happened.
    \<^item> \<open>HR_Main\<close> (\<^verbatim>\<open>cmd/healthreport/main.go\<close>): flags, modes and the whole run.  It refines \<open>reaches\<close>: what
      is proved of reachable states holds of the directories the program writes.

  \<^bold>\<open>Collectors of the health report\<close> (\<^verbatim>\<open>internal/healthreport/collectors\<close>).  A collector is a function of
  the configuration and of the answers of the servers it asks; a panic is the left of a sum, which
  \<open>run_collector\<close> of \<open>HR_Run\<close> turns into a failed collector.
    \<^item> \<open>CO_Base\<close>: what the collectors share.
    \<^item> \<open>CO_SSHFacts\<close> (\<^verbatim>\<open>sshfacts.go\<close>): the facts of the hosts; every host is accounted for, notifications are
      grouped exactly, and the alarms of the backup verification fail safe.
    \<^item> \<open>CO_Victoria\<close> (\<^verbatim>\<open>victoria.go\<close>, \<^verbatim>\<open>kuma_availability.go\<close>): metrics of hosts, containers, monitors;
      the drift of the containers is exact, no host goes unnoticed.
    \<^item> \<open>CO_Kuma\<close> (\<^verbatim>\<open>kuma.go\<close>): the metrics of Uptime Kuma; what the server renders is read back.
    \<^item> \<open>CO_Loki\<close> (\<^verbatim>\<open>loki.go\<close>, the link of \<^verbatim>\<open>base.go\<close>): log signatures, normalized by \<open>Go_Regex\<close>, error rates, maintenance
      windows and the answers above 500; the windows and the ranking are exact, and the answers above 500
      are never seen.
    \<^item> \<open>CO_Access\<close> (\<^verbatim>\<open>appsec.go\<close>, \<^verbatim>\<open>ntfy_denied.go\<close>, \<^verbatim>\<open>ntfy_updates.go\<close>, \<^verbatim>\<open>csp_reports.go\<close> and the program
      \<^verbatim>\<open>cmd/csp-reports\<close>): what browsers report to the program is what the collector reports.
    \<^item> \<open>CO_Dojo\<close> (\<^verbatim>\<open>defectdojo.go\<close>): findings by target and by vulnerability, stopped scans; the loop over the
      pages is a partial function, proved to return.
    \<^item> \<open>CO_Github\<close> (\<^verbatim>\<open>github.go\<close>): workflows, alerts, the expiry of the token; the present state of the default
      branch is exact, and the pages of a server with a list of repositories are read to the end.

  \<^bold>\<open>Backup dashboard\<close> (\<^verbatim>\<open>internal/backupdashboard\<close>, \<^verbatim>\<open>cmd/backup-dashboard-collect\<close>).
    \<^item> \<open>BD_Collect\<close> (\<^verbatim>\<open>config.go\<close>, \<^verbatim>\<open>facts.go\<close>, \<^verbatim>\<open>victoria.go\<close>, \<^verbatim>\<open>collect.go\<close>): the fetches of a collection
      and the status of each backup; a badge says ok exactly when the facts do.
    \<^item> \<open>BD_Page\<close> (\<^verbatim>\<open>schedule.go\<close>, \<^verbatim>\<open>render.go\<close>, the program): next runs, the values of the page, the flow
      graph; the graph has no dangling edge, and when the page is written.

  \<^bold>\<open>Deploy status\<close> (\<^verbatim>\<open>internal/deploystatus\<close>, \<^verbatim>\<open>cmd/build-deploy-status\<close>).
    \<^item> \<open>DS_Status\<close> (\<^verbatim>\<open>status.go\<close>): the host, the service and the first error a log shows.
    \<^item> \<open>DS_Page\<close> (\<^verbatim>\<open>page.go\<close>): the values the page shows, section by section.
    \<^item> \<open>DS_Main\<close>: the program and the history it keeps.

  \<^bold>\<open>Provisioning and catalog.\<close>
    \<^item> \<open>Kuma_Provision\<close> (\<^verbatim>\<open>cmd/provision-kuma\<close>): monitors, settings, notifications, maintenance windows
      and status pages over a client library that is a record of functions; \<open>reconciler\<close> is the
      interface of the three kinds of monitors.  A pass without failures converges and is
      idempotent.
    \<^item> \<open>Syncthing_Provision\<close> (\<^verbatim>\<open>cmd/provision-syncthing\<close>): two nodes, programs as state transformers
      with errors and a log of requests, triples for them; a run removes nothing, converges and is
      idempotent.
    \<^item> \<open>Service_Catalog\<close> (\<^verbatim>\<open>cmd/validate-services\<close>, \<^verbatim>\<open>cmd/check-services\<close>): validation is equivalent to a
      declarative specification of a sound catalog.
    \<^item> \<open>Schedule_Merge\<close> (\<^verbatim>\<open>internal/schedulemerge\<close>, \<^verbatim>\<open>cmd/schedule-merge-unraid*\<close>): the merge touches only
      its own entries and is idempotent.

  \<^bold>\<open>Fuel.\<close>  Recursion is structural or has a measure.  \<open>replace_all_fuel\<close>, \<open>strip_spaces\<close> and
  \<open>lines76\<close> carry a counter that starts at the length of their text, and each round consumes at least
  one byte, so it never runs out (\<open>lines76_concat\<close>, \<open>strip_spaces_no_lead\<close>); \<open>star_ends\<close> has the length
  of the text as its bound, and each round of a repetition shortens it.  The loops over the pages of a
  server, \<open>dojo_pages\<close> and \<open>repo_pages\<close>, have no bound and are partial functions
  (\<open>dojo_list_returns\<close>, \<open>repo_pages_exact\<close>).

  \<^bold>\<open>Not modelled.\<close>  The collectors of Home Assistant, mail DNS, DMARC, the internal certificates and the
  home address, and the other tools for logs, mail and canaries (they are clients of services, around
  short pure parts); the texts of the HTML templates, the vendored client library, and everything that is
  not Go.  Log lines are left out everywhere.  Lower and upper case are those of ASCII.
\<close>

end
